theory Spec2Isabelle
  imports Complex_Main
begin

unbundle bit_operations_syntax

section \<open>JavaScript values used by the client\<close>

text \<open>
  The client is TypeScript. Members whose source name starts with an underscore
  (\<open>_send\<close>, \<open>_cumulativeGasUsed\<close>, \<open>_contractsByAddress\<close>) carry the prefix
  \<open>priv_\<close> here, and a field whose source name is an Isabelle keyword or is used by
  two interfaces gets a prefix naming its interface.
\<close>

text \<open>\<open>String.prototype.toLowerCase\<close> on the ASCII range (hex addresses and hashes).\<close>

definition toLowerCase :: "string \<Rightarrow> string" where
  "toLowerCase s =
     map (\<lambda>c. case map_of (zip ''ABCDEFGHIJKLMNOPQRSTUVWXYZ'' ''abcdefghijklmnopqrstuvwxyz'') c of
                 Some l \<Rightarrow> l
               | None \<Rightarrow> c) s"

text \<open>\<open>s.substr(start, len)\<close>: at most \<open>len\<close> characters from index \<open>start\<close>; shorter
  (possibly empty) when the string ends first.\<close>

definition substr :: "string \<Rightarrow> nat \<Rightarrow> nat \<Rightarrow> string" where
  "substr s start len = take len (drop start s)"

text \<open>A JavaScript number holding an integer, an infinity, or \<open>NaN\<close>. Adding
  \<open>undefined\<close> to a number gives \<open>NaN\<close>, and \<open>NaN\<close> absorbs every later addition.\<close>

datatype number = Num int | NaN | Infinity | NegInfinity

definition plus_number :: "number \<Rightarrow> number option \<Rightarrow> number" where
  "plus_number a b =
     (case (a, b) of
        (Num x, Some (Num y)) \<Rightarrow> Num (x + y)
      | (Num x, Some Infinity) \<Rightarrow> Infinity
      | (Num x, Some NegInfinity) \<Rightarrow> NegInfinity
      | (Infinity, Some (Num y)) \<Rightarrow> Infinity
      | (Infinity, Some Infinity) \<Rightarrow> Infinity
      | (NegInfinity, Some (Num y)) \<Rightarrow> NegInfinity
      | (NegInfinity, Some NegInfinity) \<Rightarrow> NegInfinity
      | _ \<Rightarrow> NaN)"

text \<open>JavaScript truthiness of an optional number: \<open>undefined\<close>, \<open>0\<close> and \<open>NaN\<close> are falsy.\<close>

definition truthy_number :: "number option \<Rightarrow> bool" where
  "truthy_number v =
     (case v of
        Some (Num n) \<Rightarrow> n \<noteq> 0
      | Some Infinity \<Rightarrow> True
      | Some NegInfinity \<Rightarrow> True
      | _ \<Rightarrow> False)"

subsection \<open>Multiplication of numbers\<close>

text \<open>
  A JavaScript number is an IEEE 754 binary64 value, and a product is the exact product
  rounded to the nearest binary64 value, a tie going to the value with the even
  significand. The finite binary64 values are the rationals \<open>n * 2 ^ e\<close> with
  \<open>\<bar>n\<bar> < 2 ^ 53\<close> and \<open>- 1074 \<le> e \<le> 971\<close>. \<open>binary64 x\<close> is the value \<open>x\<close> rounds to:
  with \<open>2 ^ e \<le> \<bar>x\<bar> < 2 ^ (e + 1)\<close> the neighbouring values are \<open>2 ^ (e - 52)\<close> apart, or
  \<open>2 ^ (- 1074)\<close> apart below \<open>2 ^ (- 1022)\<close>; a result of magnitude \<open>2 ^ 1024\<close> is an
  infinity (\<open>None\<close>). Zero carries no sign here.
\<close>

function twoTo :: "int \<Rightarrow> int" where
  "twoTo n = (if n \<le> 0 then 1 else 2 * twoTo (n - 1))"
  by pat_completeness auto
termination by (relation "measure nat") auto

declare twoTo.simps [simp del]

definition pow2 :: "int \<Rightarrow> rat" where
  "pow2 e = (if 0 \<le> e then of_int (twoTo e) else 1 / of_int (twoTo (- e)))"

function bitLength :: "int \<Rightarrow> int" where
  "bitLength n = (if n \<le> 0 then 0 else 1 + bitLength (n div 2))"
  by pat_completeness auto
termination by (relation "measure nat") auto

declare bitLength.simps [simp del]

text \<open>\<open>floorLog2 x\<close> is the \<open>e\<close> with \<open>2 ^ e \<le> x < 2 ^ (e + 1)\<close>, for a positive \<open>x\<close>: the
  difference of the bit lengths of numerator and denominator, or one less.\<close>

definition floorLog2 :: "rat \<Rightarrow> int" where
  "floorLog2 x =
     (let d = bitLength (fst (quotient_of x)) - bitLength (snd (quotient_of x))
      in if pow2 d \<le> x then d else d - 1)"

definition roundHalfEven :: "rat \<Rightarrow> int" where
  "roundHalfEven q =
     (let f = \<lfloor>q\<rfloor>; r = q - of_int f
      in if r < 1 / 2 then f else if 1 / 2 < r then f + 1 else if even f then f else f + 1)"

definition binary64 :: "rat \<Rightarrow> rat option" where
  "binary64 x =
     (if x = 0 then Some 0
      else (let a = \<bar>x\<bar>;
                e = max (floorLog2 a) (- 1022);
                ulp = pow2 (e - 52);
                r = of_int (roundHalfEven (a / ulp)) * ulp
            in if pow2 1024 \<le> r then None else Some (if x < 0 then - r else r)))"

definition truthy_string :: "string option \<Rightarrow> bool" where
  "truthy_string v = (case v of Some s \<Rightarrow> s \<noteq> [] | None \<Rightarrow> False)"

subsection \<open>The arbitrary-precision numbers of bignumber.js\<close>

text \<open>
  \<open>BigNumber\<close> is a library type: an exact decimal, or \<open>NaN\<close>. The model reads the digit
  strings an ABI decoder produces (digits of the base, for base 16 in either case and
  with an optional \<open>0x\<close> in front); any other text is \<open>NaN\<close>. The library's signed zero
  is not distinguished from zero.
\<close>

datatype BigNumber = BN rat | BNaN

definition digitValue :: "char \<Rightarrow> nat option" where
  "digitValue c = map_of (zip ''0123456789abcdef'' [0..<16] @ zip ''ABCDEF'' [10..<16]) c"

fun parseDigits :: "nat \<Rightarrow> string \<Rightarrow> nat \<Rightarrow> nat option" where
  "parseDigits base [] acc = Some acc"
| "parseDigits base (c # cs) acc =
     (case digitValue c of
        None \<Rightarrow> None
      | Some d \<Rightarrow> if d < base then parseDigits base cs (acc * base + d) else None)"

definition parseNat :: "nat \<Rightarrow> string \<Rightarrow> nat option" where
  "parseNat base s = (if s = [] then None else parseDigits base s 0)"

definition ofNatOption :: "nat option \<Rightarrow> BigNumber" where
  "ofNatOption v = (case v of None \<Rightarrow> BNaN | Some n \<Rightarrow> BN (of_nat n))"

text \<open>\<open>new BigNumber(s, 16)\<close>\<close>

definition newBigNumber16 :: "string \<Rightarrow> BigNumber" where
  "newBigNumber16 s =
     ofNatOption (parseNat 16 (if toLowerCase (take 2 s) = ''0x'' \<and> 2 < length s then drop 2 s else s))"

text \<open>\<open>new BigNumber(s)\<close> on a string\<close>

definition newBigNumber10 :: "string \<Rightarrow> BigNumber" where
  "newBigNumber10 s = ofNatOption (parseNat 10 s)"

definition negated :: "BigNumber \<Rightarrow> BigNumber" where
  "negated x = (case x of BN r \<Rightarrow> BN (- r) | BNaN \<Rightarrow> BNaN)"

definition isZero :: "BigNumber \<Rightarrow> bool" where
  "isZero x = (case x of BN r \<Rightarrow> r = 0 | BNaN \<Rightarrow> False)"

text \<open>\<open>x.shiftedBy(-n)\<close>: the decimal point moved \<open>n\<close> places to the left.\<close>

definition shiftedByNeg :: "nat \<Rightarrow> BigNumber \<Rightarrow> BigNumber" where
  "shiftedByNeg n x = (case x of BN r \<Rightarrow> BN (r / 10 ^ n) | BNaN \<Rightarrow> BNaN)"

text \<open>\<open>x.mod(8).toNumber()\<close> followed by a bitwise operator, which reads \<open>NaN\<close> as 0.\<close>

definition mod8ToInt :: "BigNumber \<Rightarrow> int" where
  "mod8ToInt x = (case x of BN r \<Rightarrow> \<lfloor>r\<rfloor> mod 8 | BNaN \<Rightarrow> 0)"

section \<open>lib/types.ts\<close>

datatype ConfirmationType = Hash | Confirmed | Both | Simulate

record Log =
  address :: string
  data :: string
  topics :: "string list"
  logIndex :: nat
  log_transactionHash :: string
  log_transactionIndex :: nat
  log_blockHash :: string
  log_blockNumber :: nat

record EventLog =
  ev_address :: string
  raw_data :: string
  raw_topics :: "string list"
  ev_logIndex :: nat
  ev_transactionHash :: string
  ev_transactionIndex :: nat
  ev_blockHash :: string
  ev_blockNumber :: nat

text \<open>An entry of a receipt's name-keyed \<open>events\<close> object: one event, or the list of
  the repeated emissions of that name.\<close>

datatype EventEntry = One EventLog | Many "EventLog list"

text \<open>The \<open>confirmation\<close> field of a result holds the promise of the confirmation race;
  the promise itself lives in the state of the submission.\<close>

datatype PromiseHandle = ConfirmationPromise

record TxResult =
  transactionHash :: "string option"
  transactionIndex :: "nat option"
  blockHash :: "string option"
  blockNumber :: "nat option"
  r_from :: "string option"
  r_to :: "string option"
  contractAddress :: "string option"
  cumulativeGasUsed :: "number option"
  gasUsed :: "number option"
  logs :: "Log list option"
  events :: "(string \<times> EventEntry) list option"
  status :: "bool option"
  confirmation :: "PromiseHandle option"
  gasEstimate :: "number option"
  r_gas :: "number option"

record TxOptions =
  tx_from :: "string option"
  gasPrice :: "number option"
  gas :: "number option"
  tx_value :: "number option"

record SendOptions = TxOptions +
  confirmations :: "nat option"
  confirmationType :: "ConfirmationType option"
  gasMultiplier :: "rat option"

record Balance =
  margin :: BigNumber
  position :: BigNumber

record BaseValue =
  bv_value :: BigNumber

text \<open>\<open>BaseValue.fromSolidity(solidityValue, isPositive)\<close>, with \<open>BASE_DECIMALS = 18\<close>;
  \<open>Price\<close> and \<open>Fee\<close> inherit it.\<close>

definition BASE_DECIMALS :: nat where
  "BASE_DECIMALS = 18"

definition fromSolidity :: "BigNumber \<Rightarrow> bool \<Rightarrow> BaseValue" where
  "fromSolidity solidityValue isPositive =
     (let v = shiftedByNeg BASE_DECIMALS solidityValue
      in \<lparr>bv_value = (if \<not> isPositive then negated v else v)\<rparr>)"

record Index =
  timestamp :: BigNumber
  rawValue :: string
  baseValue :: BaseValue

section \<open>Errors\<close>

record TransactionData =
  td_from :: "string option"
  td_value :: "number option"
  td_data :: string
  td_to :: "string option"

text \<open>Every \<open>throw\<close> of the two modules and every rejection they pass on. \<open>TypeError\<close> is
  what the runtime raises on a property read of \<open>undefined\<close>; \<open>Web3Error\<close> is an error
  raised by the remote peer or by the web3 library.\<close>

datatype error =
    ContractNotDeployed
  | ReceiptHasNoLogs
  | UnknownEventArgType string
  | UnknownTupleType "string option"
  | ArgNameMismatch "string option"
  | TypeError
  | InvalidConfirmationType
  | Web3Error string
  | EstimateGasError string TransactionData

section \<open>ABI descriptors and contracts\<close>

datatype AbiInput =
  AbiInput (input_name: string) (input_type: string) (input_internalType: "string option")
    (input_components: "AbiInput list")

record AbiItem =
  item_type :: string
  item_name :: string
  signature :: string
  inputs :: "AbiInput list"

text \<open>A web3 contract object. \<open>contract_id\<close> stands for the identity of the object;
  \<open>options_address\<close> is \<open>None\<close> when the contract has no deployment on the selected
  network (\<open>setContractProvider\<close> stores
  \<open>json.networks[networkId] && json.networks[networkId].address\<close>).\<close>

record Contract =
  contract_id :: nat
  options_address :: "string option"
  jsonInterface :: "AbiItem list"

record ContractInfo =
  contract :: Contract
  isTest :: bool

record Contracts =
  defaultOptions :: SendOptions
  priv_cumulativeGasUsed :: number
  priv_gasUsedByFunction :: "(string \<times> number option) list"
  contractsList :: "ContractInfo list"
  perpetualProxy :: Contract

text \<open>What \<open>web3.eth.abi.decodeLog\<close> returns: the decoded arguments, keyed by name.\<close>

datatype argValue = AUndefined | AStr string | ABool bool | AObj "(string \<times> argValue) list"

type_synonym decodeLog = "AbiInput list \<Rightarrow> string \<Rightarrow> string list \<Rightarrow> error + argValue"

section \<open>The log decoder (class Logs)\<close>

record Logs =
  contracts :: Contracts
  priv_contractsByAddress :: "(string \<rightharpoonup> Contract) option"
  web3_decodeLog :: decodeLog

subsection \<open>The address registry\<close>

text \<open>The loop of the getter \<open>contractsByAddress\<close>: the mapping built so far is kept
  when the loop throws, because the getter stores the empty object before the loop. The
  map holds the keys written on the object; an assignment to the name \<open>__proto__\<close>
  writes none (it replaces the prototype of the object).\<close>

fun buildContractsByAddress ::
  "ContractInfo list \<Rightarrow> (string \<rightharpoonup> Contract) \<Rightarrow> error option \<times> (string \<rightharpoonup> Contract)" where
  "buildContractsByAddress [] m = (None, m)"
| "buildContractsByAddress (info # rest) m =
     (if isTest info then buildContractsByAddress rest m
      else if \<not> truthy_string (options_address (contract info)) then (Some ContractNotDeployed, m)
      else (let key = toLowerCase (the (options_address (contract info)))
            in buildContractsByAddress rest
                 (if key = ''__proto__'' then m else m(key \<mapsto> contract info))))"

text \<open>The registry is a plain object (\<open>{}\<close>): besides the keys the getter writes, it has
  the members every object inherits from \<open>Object.prototype\<close>, and \<open>key in obj\<close> holds
  for both. web3 stores an address only after validating it as hexadecimal, so no
  address is the name \<open>__proto__\<close> and the prototype stays \<open>Object.prototype\<close>; the
  statements below say so where they depend on it (\<open>plainKeys\<close>).\<close>

definition objectPrototypeKeys :: "string list" where
  "objectPrototypeKeys =
     [''constructor'', ''__defineGetter__'', ''__defineSetter__'', ''hasOwnProperty'',
      ''__lookupGetter__'', ''__lookupSetter__'', ''isPrototypeOf'', ''propertyIsEnumerable'',
      ''toString'', ''valueOf'', ''__proto__'', ''toLocaleString'']"

definition hasProperty :: "(string \<rightharpoonup> Contract) \<Rightarrow> string \<Rightarrow> bool" where
  "hasProperty obj key = (obj key \<noteq> None \<or> key \<in> set objectPrototypeKeys)"

definition contractsByAddress :: "Logs \<Rightarrow> (error + (string \<rightharpoonup> Contract)) \<times> Logs" where
  "contractsByAddress this =
     (case priv_contractsByAddress this of
        Some m \<Rightarrow> (Inr m, this)
      | None \<Rightarrow>
          (case buildContractsByAddress (contractsList (contracts this)) Map.empty of
             (Some e, m) \<Rightarrow> (Inl e, this\<lparr>priv_contractsByAddress := Some m\<rparr>)
           | (None, m) \<Rightarrow> (Inr m, this\<lparr>priv_contractsByAddress := Some m\<rparr>)))"

subsection \<open>Packed structs\<close>

record ParsedBalance = Balance +
  balance_rawValue :: string

definition parseBalance :: "string \<Rightarrow> ParsedBalance" where
  "parseBalance balance =
     (let margin = newBigNumber16 (substr balance 4 30);
          position = newBigNumber16 (substr balance 36 30);
          marginIsPositive = (\<not> isZero (newBigNumber16 (substr balance 2 2)));
          positionIsPositive = (\<not> isZero (newBigNumber16 (substr balance 34 2)))
      in \<lparr>margin = (if marginIsPositive then margin else negated margin),
          position = (if positionIsPositive then position else negated position),
          balance_rawValue = balance\<rparr>)"

definition parseIndex :: "string \<Rightarrow> Index" where
  "parseIndex index =
     (let timestamp = newBigNumber16 (substr index 2 30);
          isPositive = (\<not> isZero (newBigNumber16 (substr index 32 2)));
          v = newBigNumber16 (substr index 34 32)
      in \<lparr>timestamp = timestamp, rawValue = index, baseValue = fromSolidity v isPositive\<rparr>)"

definition parseFundingRate :: "string \<Rightarrow> Index" where
  "parseFundingRate fundingRate = parseIndex fundingRate"

text \<open>Modelled from the spec: \<open>lib/Constants\<close> is not under src/; the spec gives the
  order flags as bit 0 = is-buy, bit 1 = is-decrease-only, bit 2 = is-negative-limit-fee.\<close>

definition IS_BUY :: int where
  "IS_BUY = 1"

definition IS_DECREASE_ONLY :: int where
  "IS_DECREASE_ONLY = 2"

definition IS_NEGATIVE_LIMIT_FEE :: int where
  "IS_NEGATIVE_LIMIT_FEE = 4"

record OrderFlags =
  flags_rawValue :: argValue
  isBuy :: bool
  isDecreaseOnly :: bool
  isNegativeLimitFee :: bool

definition parseOrderFlags :: "argValue \<Rightarrow> OrderFlags" where
  "parseOrderFlags flags =
     (let flagsNumber = mod8ToInt (case flags of AStr s \<Rightarrow> newBigNumber16 s | _ \<Rightarrow> BNaN)
      in \<lparr>flags_rawValue = flags,
          isBuy = ((flagsNumber AND IS_BUY) \<noteq> 0),
          isDecreaseOnly = ((flagsNumber AND IS_DECREASE_ONLY) \<noteq> 0),
          isNegativeLimitFee = ((flagsNumber AND IS_NEGATIVE_LIMIT_FEE) \<noteq> 0)\<rparr>)"

subsection \<open>Argument decoding\<close>

datatype parsedValue =
    PBalance ParsedBalance
  | PIndex Index
  | POrderFlags OrderFlags
  | PBaseValue BaseValue
  | PVerbatim argValue
  | PBigNumber BigNumber
  | PObject "(string \<times> parsedValue) list"

text \<open>\<open>new BigNumber(argValue)\<close>: only a string of decimal digits is a number.\<close>

definition newBigNumber :: "argValue \<Rightarrow> BigNumber" where
  "newBigNumber v = (case v of AStr s \<Rightarrow> newBigNumber10 s | _ \<Rightarrow> BNaN)"

text \<open>A method call on an argument that must be a string (\<open>balance.substr\<close>) throws on
  anything else.\<close>

definition asString :: "argValue \<Rightarrow> error + string" where
  "asString v = (case v of AStr s \<Rightarrow> Inr s | _ \<Rightarrow> Inl TypeError)"

text \<open>\<open>eventArgs[name]\<close>\<close>

definition getProperty :: "argValue \<Rightarrow> string \<Rightarrow> error + argValue" where
  "getProperty obj key =
     (case obj of
        AUndefined \<Rightarrow> Inl TypeError
      | AObj kvs \<Rightarrow> Inr (case map_of kvs key of Some v \<Rightarrow> v | None \<Rightarrow> AUndefined)
      | _ \<Rightarrow> Inr AUndefined)"

text \<open>\<open>parsedObject[name] = v\<close>: a new key goes last, an existing key keeps its place.\<close>

fun setProperty :: "(string \<times> 'a) list \<Rightarrow> string \<Rightarrow> 'a \<Rightarrow> (string \<times> 'a) list" where
  "setProperty [] k v = [(k, v)]"
| "setProperty ((k', v') # rest) k v =
     (if k' = k then (k, v) # rest else (k', v') # setProperty rest k v)"

definition isDigit :: "char \<Rightarrow> bool" where
  "isDigit c = (c \<in> set ''0123456789'')"

text \<open>The regular expressions \<open>/^bytes[0-9]*$/\<close> and \<open>/^uint[0-9]*$/\<close>: the prefix, then
  digits only up to the end of the text.\<close>

definition matchesWithDigits :: "string \<Rightarrow> string \<Rightarrow> bool" where
  "matchesWithDigits prefix s =
     (take (length prefix) s = prefix \<and> list_all isDigit (drop (length prefix) s))"

definition TUPLE_MAP :: "(string \<times> string list) list" where
  "TUPLE_MAP = [(''struct P1Orders.Fill'', [''amount'', ''price'', ''fee'', ''isNegativeFee''])]"

definition inTupleMap :: "string option \<Rightarrow> string list option" where
  "inTupleMap internalType = (case internalType of None \<Rightarrow> None | Some t \<Rightarrow> map_of TUPLE_MAP t)"

fun parseValue :: "AbiInput \<Rightarrow> argValue \<Rightarrow> error + parsedValue"
  and parseTuple :: "AbiInput \<Rightarrow> argValue \<Rightarrow> error + parsedValue"
  and parseArgs ::
    "AbiInput list \<Rightarrow> argValue \<Rightarrow> (string \<times> parsedValue) list \<Rightarrow> error + (string \<times> parsedValue) list"
where
  "parseValue (AbiInput name type internalType components) argValue =
     (if type = ''bytes32'' \<and> name \<in> {''balance'', ''makerBalance'', ''takerBalance''}
      then map_sum id (\<lambda>s. PBalance (parseBalance s)) (asString argValue)
      else if type = ''bytes32'' \<and> name = ''index''
      then map_sum id (\<lambda>s. PIndex (parseIndex s)) (asString argValue)
      else if type = ''bytes32'' \<and> name = ''flags''
      then Inr (POrderFlags (parseOrderFlags argValue))
      else if type = ''bytes32'' \<and> name = ''fundingRate''
      then map_sum id (\<lambda>s. PIndex (parseFundingRate s)) (asString argValue)
      else if type = ''uint256'' \<and> name = ''fee''
      then Inr (PBaseValue (fromSolidity (newBigNumber argValue) True))
      else if type = ''uint256''
              \<and> name \<in> {''price'', ''oraclePrice'', ''settlementPrice'', ''triggerPrice''}
      then Inr (PBaseValue (fromSolidity (newBigNumber argValue) True))
      else if type = ''address'' then Inr (PVerbatim argValue)
      else if type = ''bool'' then Inr (PVerbatim argValue)
      else if matchesWithDigits ''bytes'' type then Inr (PVerbatim argValue)
      else if matchesWithDigits ''uint'' type then Inr (PBigNumber (newBigNumber argValue))
      else if type = ''tuple''
      then parseTuple (AbiInput name type internalType components) argValue
      else Inl (UnknownEventArgType type))"
| "parseTuple (AbiInput name type internalType components) argValue =
     (case inTupleMap internalType of
        None \<Rightarrow> Inl (UnknownTupleType internalType)
      | Some expectedTupleArgs \<Rightarrow>
          if expectedTupleArgs \<noteq> map input_name components
          then Inl (ArgNameMismatch internalType)
          else map_sum id PObject (parseArgs components argValue []))"
| "parseArgs [] eventArgs parsedObject = Inr parsedObject"
| "parseArgs (input # rest) eventArgs parsedObject =
     (case getProperty eventArgs (input_name input) of
        Inl e \<Rightarrow> Inl e
      | Inr argValue \<Rightarrow>
          (case parseValue input argValue of
             Inl e \<Rightarrow> Inl e
           | Inr v \<Rightarrow> parseArgs rest eventArgs (setProperty parsedObject (input_name input) v)))"

subsection \<open>Decoding a log\<close>

text \<open>Modelled from the spec: \<open>lib/BytesHelper\<close> is not under src/; the spec compares
  addresses case-insensitively, and a contract without an address equals none.\<close>

definition addressesAreEqual :: "string \<Rightarrow> string option \<Rightarrow> bool" where
  "addressesAreEqual addressOne addressTwo =
     (case addressTwo of
        None \<Rightarrow> False
      | Some b \<Rightarrow> addressOne \<noteq> [] \<and> b \<noteq> [] \<and> toLowerCase addressOne = toLowerCase b)"

record ParsedLog = Log +
  name :: string
  args :: "(string \<times> parsedValue) list"

text \<open>\<open>parseLogWithContract\<close> on a contract.
  \<open>events.find(e => e.signature.toLowerCase() === log.topics[0].toLowerCase())\<close>: the
  callback runs once there is an event to test, and then reads \<open>log.topics[0]\<close>, which
  is \<open>undefined\<close> for a log without topics.\<close>

definition parseLogWithContract :: "Logs \<Rightarrow> Contract \<Rightarrow> Log \<Rightarrow> error + ParsedLog option" where
  "parseLogWithContract this c lg =
     (let evs = filter (\<lambda>e. item_type e = ''event'') (jsonInterface c)
      in if evs = [] then Inr None
         else case topics lg of
                [] \<Rightarrow> Inl TypeError
              | topic0 # otherTopics \<Rightarrow>
                  (case find (\<lambda>e. toLowerCase (signature e) = toLowerCase topic0) evs of
                     None \<Rightarrow> Inr None
                   | Some eventJson \<Rightarrow>
                       (case web3_decodeLog this (inputs eventJson) (data lg) otherTopics of
                          Inl e \<Rightarrow> Inl e
                        | Inr eventArgs \<Rightarrow>
                            (case parseArgs (inputs eventJson) eventArgs [] of
                               Inl e \<Rightarrow> Inl e
                             | Inr parsedArgs \<Rightarrow>
                                 Inr (Some (Log.extend lg
                                   (ParsedLog.fields (item_name eventJson) parsedArgs)))))))"

text \<open>\<open>parseLog\<close>. Under a name the registry only inherits, \<open>this.contractsByAddress[logAddress]\<close>
  is a member of \<open>Object.prototype\<close>, which has no \<open>options\<close>: \<open>parseLogWithContract\<close> then
  fails on \<open>contract.options.jsonInterface\<close>.\<close>

definition parseLog :: "Logs \<Rightarrow> Log \<Rightarrow> (error + ParsedLog option) \<times> Logs" where
  "parseLog this lg =
     (let logAddress = toLowerCase (address lg);
          proxy = perpetualProxy (contracts this);
          viaProxy = (if addressesAreEqual logAddress (options_address proxy)
                      then parseLogWithContract this proxy lg
                      else Inr None)
      in case viaProxy of
           Inl e \<Rightarrow> (Inl e, this)
         | Inr (Some parsedLog) \<Rightarrow> (Inr (Some parsedLog), this)
         | Inr None \<Rightarrow>
             (case contractsByAddress this of
                (Inl e, this') \<Rightarrow> (Inl e, this')
              | (Inr byAddress, this') \<Rightarrow>
                  if hasProperty byAddress logAddress
                  then (case byAddress logAddress of
                          Some c \<Rightarrow> (parseLogWithContract this' c lg, this')
                        | None \<Rightarrow> (Inl TypeError, this'))
                  else (Inr None, this')))"

definition eventToLog :: "EventLog \<Rightarrow> Log" where
  "eventToLog event =
     \<lparr>address = ev_address event,
      data = raw_data event,
      topics = raw_topics event,
      logIndex = ev_logIndex event,
      log_transactionHash = ev_transactionHash event,
      log_transactionIndex = ev_transactionIndex event,
      log_blockHash = ev_blockHash event,
      log_blockNumber = ev_blockNumber event\<rparr>"

definition parseEvent :: "Logs \<Rightarrow> EventLog \<Rightarrow> (error + ParsedLog option) \<times> Logs" where
  "parseEvent this event = parseLog this (eventToLog event)"

text \<open>\<open>events.map(e => this.parseLog(e))\<close>: the first log that throws ends the map; the
  registry cache filled on the way stays.\<close>

fun mapParseLog :: "Logs \<Rightarrow> Log list \<Rightarrow> (error + ParsedLog option list) \<times> Logs" where
  "mapParseLog this [] = (Inr [], this)"
| "mapParseLog this (e # es) =
     (case parseLog this e of
        (Inl err, this') \<Rightarrow> (Inl err, this')
      | (Inr l, this') \<Rightarrow>
          (case mapParseLog this' es of
             (Inl err, this'') \<Rightarrow> (Inl err, this'')
           | (Inr ls, this'') \<Rightarrow> (Inr (l # ls), this'')))"

text \<open>\<open>Object.values(tempEvents).forEach(...)\<close>: the entries in the object's enumeration
  order, a list entry spliced in place.\<close>

definition flattenEvents :: "(string \<times> EventEntry) list \<Rightarrow> EventLog list" where
  "flattenEvents tempEvents =
     concat (map (\<lambda>(n, e). case e of One ev \<Rightarrow> [ev] | Many evs \<Rightarrow> evs) tempEvents)"

text \<open>\<open>.filter(l => !!l)\<close> drops the logs decoded to \<open>null\<close>.\<close>

fun dropNulls :: "'a option list \<Rightarrow> 'a list" where
  "dropNulls [] = []"
| "dropNulls (None # rest) = dropNulls rest"
| "dropNulls (Some l # rest) = l # dropNulls rest"

text \<open>\<open>parseLogs\<close>. \<open>JSON.parse(JSON.stringify(...))\<close> copies the logs unchanged; the
  sort by \<open>logIndex\<close> is stable.\<close>

definition parseLogs :: "Logs \<Rightarrow> TxResult \<Rightarrow> (error + ParsedLog list) \<times> Logs" where
  "parseLogs this receipt =
     (case logs receipt of
        Some ls \<Rightarrow>
          (case mapParseLog this ls of
             (Inl e, this') \<Rightarrow> (Inl e, this')
           | (Inr parsed, this') \<Rightarrow> (Inr (dropNulls parsed), this'))
      | None \<Rightarrow>
          (case events receipt of
             Some tempEvents \<Rightarrow>
               (case mapParseLog this
                       (map eventToLog (sort_key ev_logIndex (flattenEvents tempEvents))) of
                  (Inl e, this') \<Rightarrow> (Inl e, this')
                | (Inr parsed, this') \<Rightarrow> (Inr (dropNulls parsed), this'))
           | None \<Rightarrow> (Inl ReceiptHasNoLogs, this)))"

section \<open>The transaction coordinator (class Contracts)\<close>

subsection \<open>The remote peer\<close>

record ContractSendMethod =
  method_parent :: Contract
  method_name :: string
  encodeABI :: string

text \<open>
  What lies outside the client: the answer of the peer to \<open>method.estimateGas\<close> (an
  error message or the estimate), and what \<open>promi.off()\<close> does to the listeners
  registered on the transmission, which the web3 library decides. Both readings of
  \<open>off\<close> are covered: it detaches every listener, or it leaves them attached.
\<close>

record Peer =
  peer_estimateGas :: "ContractSendMethod \<Rightarrow> TxOptions \<Rightarrow> string + number"
  off_detaches :: bool

text \<open>The calls made on the method object, in order.\<close>

datatype call = EstimateGasCall TxOptions | SendCall TxOptions

text \<open>The events a transmission (\<open>PromiEvent\<close>) emits.\<close>

datatype signal =
    OnError error
  | OnTransactionHash string
  | OnConfirmation nat TxResult
  | OnReceipt TxResult

text \<open>What happens to a submission after the broadcast: a signal of the transmission,
  or the continuation of \<open>await hashPromise\<close> being run.\<close>

datatype event = Signal signal | Resume

subsection \<open>Promises and the two races\<close>

datatype OUTCOMES = INITIAL | RESOLVED | REJECTED

text \<open>A JavaScript promise settles once: \<open>resolve\<close> and \<open>reject\<close> on a settled promise
  do nothing.\<close>

datatype 'a promise = Pending | Fulfilled 'a | Rejected error

definition resolve :: "'a promise \<Rightarrow> 'a \<Rightarrow> 'a promise" where
  "resolve p v = (case p of Pending \<Rightarrow> Fulfilled v | _ \<Rightarrow> p)"

definition reject :: "'a promise \<Rightarrow> error \<Rightarrow> 'a promise" where
  "reject p e = (case p of Pending \<Rightarrow> Rejected e | _ \<Rightarrow> p)"

text \<open>The local variables of \<open>_send\<close> after the broadcast. A promise is \<open>None\<close> until
  its race is set up; \<open>hashListeners\<close> and \<open>confirmationListeners\<close> say whether the
  listeners of that race are attached; \<open>awaitingHash\<close> holds while \<open>_send\<close> is
  suspended at \<open>await hashPromise\<close>; \<open>returned\<close> is what \<open>_send\<close> itself returned or
  threw, unless it returned the confirmation promise.\<close>

record SendState =
  hashOutcome :: OUTCOMES
  confirmationOutcome :: OUTCOMES
  hashPromise :: "string promise option"
  confirmationPromise :: "TxResult promise option"
  hashListeners :: bool
  confirmationListeners :: bool
  awaitingHash :: bool
  returned :: "(error + TxResult) option"

definition off :: "Peer \<Rightarrow> SendState \<Rightarrow> SendState" where
  "off peer s =
     (if off_detaches peer then s\<lparr>hashListeners := False, confirmationListeners := False\<rparr>
      else s)"

text \<open>The listeners of the hash race.\<close>

definition hashOnError :: "Peer \<Rightarrow> error \<Rightarrow> SendState \<Rightarrow> SendState" where
  "hashOnError peer e s =
     (if hashOutcome s = INITIAL
      then off peer (s\<lparr>hashOutcome := REJECTED,
                       hashPromise := map_option (\<lambda>p. reject p e) (hashPromise s)\<rparr>)
      else s)"

definition hashOnTransactionHash ::
  "Peer \<Rightarrow> ConfirmationType \<Rightarrow> string \<Rightarrow> SendState \<Rightarrow> SendState" where
  "hashOnTransactionHash peer ct txHash s =
     (if hashOutcome s = INITIAL
      then (let s' = s\<lparr>hashOutcome := RESOLVED,
                       hashPromise := map_option (\<lambda>p. resolve p txHash) (hashPromise s)\<rparr>
            in if ct \<noteq> Both then off peer s' else s')
      else s)"

text \<open>The listeners of the confirmation race. The \<open>receipt\<close> listener has no test of
  \<open>confirmationOutcome\<close>.\<close>

definition confirmationOnError ::
  "Peer \<Rightarrow> ConfirmationType \<Rightarrow> error \<Rightarrow> SendState \<Rightarrow> SendState" where
  "confirmationOnError peer ct e s =
     (if confirmationOutcome s = INITIAL \<and> (ct = Confirmed \<or> hashOutcome s = RESOLVED)
      then off peer (s\<lparr>confirmationOutcome := REJECTED,
                       confirmationPromise := map_option (\<lambda>p. reject p e) (confirmationPromise s)\<rparr>)
      else s)"

definition confirmationOnConfirmation ::
  "Peer \<Rightarrow> nat \<Rightarrow> nat \<Rightarrow> TxResult \<Rightarrow> SendState \<Rightarrow> SendState" where
  "confirmationOnConfirmation peer minConfirmations confNumber receipt s =
     (if confNumber \<ge> minConfirmations
      then (if confirmationOutcome s = INITIAL
            then off peer (s\<lparr>confirmationOutcome := RESOLVED,
                             confirmationPromise :=
                               map_option (\<lambda>p. resolve p receipt) (confirmationPromise s)\<rparr>)
            else s)
      else s)"

definition confirmationOnReceipt :: "Peer \<Rightarrow> TxResult \<Rightarrow> SendState \<Rightarrow> SendState" where
  "confirmationOnReceipt peer receipt s =
     off peer (s\<lparr>confirmationOutcome := RESOLVED,
                  confirmationPromise := map_option (\<lambda>p. resolve p receipt) (confirmationPromise s)\<rparr>)"

text \<open>\<open>if (confirmations)\<close>: \<open>undefined\<close> and 0 choose the \<open>receipt\<close> listener.\<close>

definition truthy_nat :: "nat option \<Rightarrow> bool" where
  "truthy_nat v = (case v of Some n \<Rightarrow> n \<noteq> 0 | None \<Rightarrow> False)"

text \<open>A signal runs the listeners registered for it, in the order of registration: those
  of the hash race (\<open>error\<close>, \<open>transactionHash\<close>), then those of the confirmation race
  (\<open>error\<close>, and \<open>confirmation\<close> or \<open>receipt\<close>).\<close>

definition deliverHash :: "Peer \<Rightarrow> ConfirmationType \<Rightarrow> signal \<Rightarrow> SendState \<Rightarrow> SendState" where
  "deliverHash peer ct sig s =
     (if hashListeners s
      then (case sig of
              OnError e \<Rightarrow> hashOnError peer e s
            | OnTransactionHash txHash \<Rightarrow> hashOnTransactionHash peer ct txHash s
            | _ \<Rightarrow> s)
      else s)"

definition deliverConfirmation ::
  "Peer \<Rightarrow> ConfirmationType \<Rightarrow> nat option \<Rightarrow> signal \<Rightarrow> SendState \<Rightarrow> SendState" where
  "deliverConfirmation peer ct minConfirmations sig s =
     (if confirmationListeners s
      then (case sig of
              OnError e \<Rightarrow> confirmationOnError peer ct e s
            | OnConfirmation confNumber receipt \<Rightarrow>
                (if truthy_nat minConfirmations
                 then confirmationOnConfirmation peer (the minConfirmations) confNumber receipt s
                 else s)
            | OnReceipt receipt \<Rightarrow>
                (if truthy_nat minConfirmations then s else confirmationOnReceipt peer receipt s)
            | OnTransactionHash txHash \<Rightarrow> s)
      else s)"

definition deliver ::
  "Peer \<Rightarrow> ConfirmationType \<Rightarrow> nat option \<Rightarrow> signal \<Rightarrow> SendState \<Rightarrow> SendState" where
  "deliver peer ct minConfirmations sig s =
     deliverConfirmation peer ct minConfirmations sig (deliverHash peer ct sig s)"

definition emptyResult :: TxResult where
  "emptyResult =
     \<lparr>transactionHash = None, transactionIndex = None, blockHash = None, blockNumber = None,
      r_from = None, r_to = None, contractAddress = None, cumulativeGasUsed = None,
      gasUsed = None, logs = None, events = None, status = None, confirmation = None,
      gasEstimate = None, r_gas = None\<rparr>"

text \<open>The body of \<open>_send\<close> after the hash race: the confirmation race is set up for
  \<open>Confirmed\<close> and \<open>Both\<close>, then the result is returned. For \<open>Confirmed\<close> the
  result is the confirmation promise itself, so nothing is stored in \<open>returned\<close>.\<close>

definition afterHash :: "ConfirmationType \<Rightarrow> string option \<Rightarrow> SendState \<Rightarrow> SendState" where
  "afterHash ct txHash s =
     (let s1 = (if ct = Confirmed \<or> ct = Both
                then s\<lparr>confirmationPromise := Some Pending, confirmationListeners := True\<rparr>
                else s)
      in if ct = Hash
         then s1\<lparr>returned := Some (Inr (emptyResult\<lparr>transactionHash := txHash\<rparr>))\<rparr>
         else if ct = Confirmed then s1
         else s1\<lparr>returned := Some (Inr (emptyResult\<lparr>transactionHash := txHash,
                                                       confirmation := Some ConfirmationPromise\<rparr>))\<rparr>)"

text \<open>The state right after \<open>method.send(txOptions)\<close>: for \<open>Hash\<close> and \<open>Both\<close> the hash
  race is set up and \<open>_send\<close> waits for it; for \<open>Confirmed\<close> the body runs on at once.\<close>

definition afterBroadcast :: "ConfirmationType \<Rightarrow> SendState" where
  "afterBroadcast ct =
     (let s0 = \<lparr>hashOutcome = INITIAL, confirmationOutcome = INITIAL, hashPromise = None,
                confirmationPromise = None, hashListeners = False, confirmationListeners = False,
                awaitingHash = False, returned = None\<rparr>
      in if ct = Hash \<or> ct = Both
         then s0\<lparr>hashPromise := Some Pending, hashListeners := True, awaitingHash := True\<rparr>
         else afterHash ct None s0)"

text \<open>\<open>transactionHash = await hashPromise\<close>: the body goes on once the promise is
  fulfilled, and \<open>_send\<close> throws the error of a rejected one.\<close>

definition resume :: "ConfirmationType \<Rightarrow> SendState \<Rightarrow> SendState" where
  "resume ct s =
     (if awaitingHash s
      then (case hashPromise s of
              Some (Fulfilled txHash) \<Rightarrow> afterHash ct (Some txHash) (s\<lparr>awaitingHash := False\<rparr>)
            | Some (Rejected e) \<Rightarrow> s\<lparr>awaitingHash := False, returned := Some (Inl e)\<rparr>
            | _ \<Rightarrow> s)
      else s)"

definition step ::
  "Peer \<Rightarrow> ConfirmationType \<Rightarrow> nat option \<Rightarrow> SendState \<Rightarrow> event \<Rightarrow> SendState" where
  "step peer ct minConfirmations s ev =
     (case ev of
        Signal sig \<Rightarrow> deliver peer ct minConfirmations sig s
      | Resume \<Rightarrow> resume ct s)"

definition run ::
  "Peer \<Rightarrow> ConfirmationType \<Rightarrow> nat option \<Rightarrow> SendState \<Rightarrow> event list \<Rightarrow> SendState" where
  "run peer ct minConfirmations s evs = foldl (step peer ct minConfirmations) s evs"

text \<open>What the caller of \<open>_send\<close> gets: \<open>None\<close> while its promise is pending.\<close>

definition sendOutcome :: "ConfirmationType \<Rightarrow> SendState \<Rightarrow> (error + TxResult) option" where
  "sendOutcome ct s =
     (if ct = Confirmed
      then (case confirmationPromise s of
              Some (Fulfilled receipt) \<Rightarrow> Some (Inr receipt)
            | Some (Rejected e) \<Rightarrow> Some (Inl e)
            | _ \<Rightarrow> None)
      else returned s)"

subsection \<open>estimateGas, \_send and send\<close>

definition estimateGas :: "Peer \<Rightarrow> ContractSendMethod \<Rightarrow> TxOptions \<Rightarrow> error + number" where
  "estimateGas peer method txOptions =
     (case peer_estimateGas peer method txOptions of
        Inr estimate \<Rightarrow> Inr estimate
      | Inl message \<Rightarrow>
          Inl (EstimateGasError message
                 \<lparr>td_from = tx_from txOptions, td_value = tx_value txOptions,
                  td_data = encodeABI method,
                  td_to = options_address (method_parent method)\<rparr>))"

text \<open>\<open>Math.floor(gasEstimate * gasMultiplier)\<close>: the product of the two numbers as
  binary64 arithmetic gives it, rounded down. The multiplier is a finite number or
  \<open>undefined\<close>; a factor \<open>undefined\<close> or \<open>NaN\<close> makes the result \<open>NaN\<close>, and so does an
  infinity times 0; \<open>Math.floor\<close> leaves an infinity as it is.\<close>

definition floorTimes :: "number \<Rightarrow> rat option \<Rightarrow> number" where
  "floorTimes estimate multiplier =
     (case multiplier of
        None \<Rightarrow> NaN
      | Some m \<Rightarrow>
          (case estimate of
             Num g \<Rightarrow>
               (case binary64 (of_int g * m) of
                  Some product \<Rightarrow> Num \<lfloor>product\<rfloor>
                | None \<Rightarrow> if 0 < of_int g * m then Infinity else NegInfinity)
           | NaN \<Rightarrow> NaN
           | Infinity \<Rightarrow> if 0 < m then Infinity else if m < 0 then NegInfinity else NaN
           | NegInfinity \<Rightarrow> if 0 < m then NegInfinity else if m < 0 then Infinity else NaN))"

text \<open>\<open>_send\<close>, run against the events that follow the broadcast. The result is the
  calls made on the method, what the caller got, and the state of the races (\<open>None\<close>
  when nothing was broadcast). A \<open>confirmationType\<close> of \<open>None\<close> is a value outside the
  enumeration.\<close>

definition priv_send ::
  "Peer \<Rightarrow> ContractSendMethod \<Rightarrow> SendOptions \<Rightarrow> event list
     \<Rightarrow> call list \<times> (error + TxResult) option \<times> SendState option" where
  "priv_send peer method sendOptions evs =
     (let txOptions = TxOptions.truncate sendOptions
      in case confirmationType sendOptions of
           None \<Rightarrow> ([], Some (Inl InvalidConfirmationType), None)
         | Some ct \<Rightarrow>
             if ct = Simulate \<or> \<not> truthy_number (gas txOptions)
             then (case estimateGas peer method txOptions of
                     Inl e \<Rightarrow> ([EstimateGasCall txOptions], Some (Inl e), None)
                   | Inr estimate \<Rightarrow>
                       (let txOptions' =
                              txOptions\<lparr>gas := Some (floorTimes estimate (gasMultiplier sendOptions))\<rparr>
                        in if ct = Simulate
                           then ([EstimateGasCall txOptions],
                                 Some (Inr (emptyResult\<lparr>gasEstimate := Some estimate,
                                                         r_gas := gas txOptions'\<rparr>)),
                                 None)
                           else (let s = run peer ct (confirmations sendOptions) (afterBroadcast ct) evs
                                 in ([EstimateGasCall txOptions, SendCall txOptions'],
                                     sendOutcome ct s, Some s))))
             else (let s = run peer ct (confirmations sendOptions) (afterBroadcast ct) evs
                   in ([SendCall txOptions], sendOutcome ct s, Some s)))"

text \<open>\<open>{...this.defaultOptions, ...specificOptions}\<close>: a field given by the caller wins.\<close>

definition orElse :: "'a option \<Rightarrow> 'a option \<Rightarrow> 'a option" where
  "orElse specific dflt = (case specific of Some v \<Rightarrow> Some v | None \<Rightarrow> dflt)"

definition mergeOptions :: "SendOptions \<Rightarrow> SendOptions \<Rightarrow> SendOptions" where
  "mergeOptions dflt specific =
     \<lparr>tx_from = orElse (tx_from specific) (tx_from dflt),
      gasPrice = orElse (gasPrice specific) (gasPrice dflt),
      gas = orElse (gas specific) (gas dflt),
      tx_value = orElse (tx_value specific) (tx_value dflt),
      confirmations = orElse (confirmations specific) (confirmations dflt),
      confirmationType = orElse (confirmationType specific) (confirmationType dflt),
      gasMultiplier = orElse (gasMultiplier specific) (gasMultiplier dflt)\<rparr>"

text \<open>The options the constructor starts from (\<open>gas: null\<close>, \<open>from: null\<close>).\<close>

definition initialDefaultOptions :: SendOptions where
  "initialDefaultOptions =
     \<lparr>tx_from = None, gasPrice = Some (Num 1000000000), gas = None, tx_value = Some (Num 0),
      confirmations = Some 0, confirmationType = Some Confirmed, gasMultiplier = Some (3 / 2)\<rparr>"

definition getCumulativeGasUsed :: "Contracts \<Rightarrow> number" where
  "getCumulativeGasUsed this = priv_cumulativeGasUsed this"

definition resetGasUsed :: "Contracts \<Rightarrow> Contracts" where
  "resetGasUsed this = this\<lparr>priv_cumulativeGasUsed := Num 0, priv_gasUsedByFunction := []\<rparr>"

text \<open>\<open>send\<close>. \<open>debugGasUsage\<close> is \<open>process.env.DEBUG_GAS_USAGE_BY_FUNCTION === 'true'\<close>.
  The accounting runs once \<open>await this._send(...)\<close> has a value; while that promise is
  pending or when it is rejected, the object is unchanged.\<close>

definition send ::
  "bool \<Rightarrow> Peer \<Rightarrow> Contracts \<Rightarrow> ContractSendMethod \<Rightarrow> SendOptions \<Rightarrow> event list
     \<Rightarrow> (error + TxResult) option \<times> Contracts" where
  "send debugGasUsage peer this method specificOptions evs =
     (let sendOptions = mergeOptions (defaultOptions this) specificOptions
      in case priv_send peer method sendOptions evs of
           (calls, Some (Inr result), s) \<Rightarrow>
             (if confirmationType sendOptions = Some Confirmed
                 \<or> confirmationType sendOptions = Some Both
              then (case find (\<lambda>info. contract info = method_parent method) (contractsList this) of
                      Some contractInfo \<Rightarrow>
                        (if \<not> isTest contractInfo
                         then (Some (Inr result),
                               this\<lparr>priv_cumulativeGasUsed :=
                                      plus_number (priv_cumulativeGasUsed this) (gasUsed result),
                                    priv_gasUsedByFunction :=
                                      (if debugGasUsage
                                       then priv_gasUsedByFunction this
                                              @ [(method_name method, gasUsed result)]
                                       else priv_gasUsedByFunction this)\<rparr>)
                         else (Some (Inr result), this))
                    | None \<Rightarrow> (Some (Inr result), this))
              else (Some (Inr result), this))
         | (calls, outcome, s) \<Rightarrow> (outcome, this))"

section \<open>The packed Balance word\<close>

text \<open>Modelled from the spec: the encoder of the packed Balance word is the on-chain
  contract, which is not under src/. The spec gives the layout, big-endian hex after
  \<open>0x\<close>: nibbles 2-3 the margin-sign flag (nonzero = positive), nibbles 4-33 the margin
  magnitude, nibbles 34-35 the position-sign flag, nibbles 36-65 the position
  magnitude. The flag of a positive value is written as 01.\<close>

definition hexDigit :: "nat \<Rightarrow> char" where
  "hexDigit d = ''0123456789abcdef'' ! d"

fun toHexFixed :: "nat \<Rightarrow> nat \<Rightarrow> string" where
  "toHexFixed 0 v = []"
| "toHexFixed (Suc w) v = toHexFixed w (v div 16) @ [hexDigit (v mod 16)]"

definition encodeBalance :: "bool \<Rightarrow> nat \<Rightarrow> bool \<Rightarrow> nat \<Rightarrow> string" where
  "encodeBalance marginIsPositive marginMagnitude positionIsPositive positionMagnitude =
     ''0x'' @ toHexFixed 2 (if marginIsPositive then 1 else 0) @ toHexFixed 30 marginMagnitude
       @ toHexFixed 2 (if positionIsPositive then 1 else 0) @ toHexFixed 30 positionMagnitude"

definition isHexDigit :: "char \<Rightarrow> bool" where
  "isHexDigit c = (c \<in> set ''0123456789abcdef'')"

text \<open>The signed value a sign flag and a magnitude stand for.\<close>

definition signedBN :: "bool \<Rightarrow> nat \<Rightarrow> BigNumber" where
  "signedBN isPositive magnitude =
     BN (if isPositive then of_nat magnitude else - of_nat magnitude)"

section \<open>Notions used in the statements\<close>

text \<open>The first topic of a log is the signature of one of the events of a contract.\<close>

definition knownSignature :: "Contract \<Rightarrow> string \<Rightarrow> bool" where
  "knownSignature c topic0 =
     (find (\<lambda>e. toLowerCase (signature e) = toLowerCase topic0)
        (filter (\<lambda>e. item_type e = ''event'') (jsonInterface c)) \<noteq> None)"

text \<open>A contract the registry cannot take up: not a test contract, and without an address.\<close>

definition undeployed :: "ContractInfo \<Rightarrow> bool" where
  "undeployed info = (\<not> isTest info \<and> \<not> truthy_string (options_address (contract info)))"

text \<open>The contract a key of the registry stands for: the last contract of the list, test
  contracts apart, whose address lower-cases to the key.\<close>

definition lastDeployedAt :: "ContractInfo list \<Rightarrow> string \<Rightarrow> Contract option" where
  "lastDeployedAt cl key =
     map_option contract
       (find (\<lambda>info. \<not> isTest info
                \<and> map_option toLowerCase (options_address (contract info)) = Some key)
          (rev cl))"

text \<open>No address lower-cases to the name \<open>__proto__\<close>.\<close>

definition plainKeys :: "ContractInfo list \<Rightarrow> bool" where
  "plainKeys cl =
     list_all (\<lambda>info. map_option toLowerCase (options_address (contract info))
                        \<noteq> Some ''__proto__'') cl"

text \<open>The types \<open>parseValue\<close> has a branch for, and the names that turn a \<open>uint256\<close> into
  a fixed-point value.\<close>

definition recognisedType :: "string \<Rightarrow> bool" where
  "recognisedType t =
     (t = ''address'' \<or> t = ''bool'' \<or> matchesWithDigits ''bytes'' t
      \<or> matchesWithDigits ''uint'' t \<or> t = ''tuple'')"

definition fixedPointNames :: "string set" where
  "fixedPointNames = {''fee'', ''price'', ''oraclePrice'', ''settlementPrice'', ''triggerPrice''}"

text \<open>A promise that exists and is no longer pending.\<close>

definition settled :: "'a promise option \<Rightarrow> bool" where
  "settled p = (case p of Some (Fulfilled v) \<Rightarrow> True | Some (Rejected e) \<Rightarrow> True | _ \<Rightarrow> False)"

text \<open>The names of the fields a result object has.\<close>

definition fieldsOf :: "TxResult \<Rightarrow> string list" where
  "fieldsOf r =
     map fst (filter snd
       [(''transactionHash'', transactionHash r \<noteq> None),
        (''transactionIndex'', transactionIndex r \<noteq> None),
        (''blockHash'', blockHash r \<noteq> None),
        (''blockNumber'', blockNumber r \<noteq> None),
        (''from'', r_from r \<noteq> None),
        (''to'', r_to r \<noteq> None),
        (''contractAddress'', contractAddress r \<noteq> None),
        (''cumulativeGasUsed'', cumulativeGasUsed r \<noteq> None),
        (''gasUsed'', gasUsed r \<noteq> None),
        (''logs'', logs r \<noteq> None),
        (''events'', events r \<noteq> None),
        (''status'', status r \<noteq> None),
        (''confirmation'', confirmation r \<noteq> None),
        (''gasEstimate'', gasEstimate r \<noteq> None),
        (''gas'', r_gas r \<noteq> None)])"

text \<open>An event that hands \<open>receipt\<close> to the confirmation race: a \<open>confirmation\<close> signal
  at or above the threshold when one was asked for, a \<open>receipt\<close> signal otherwise.\<close>

definition carries :: "nat option \<Rightarrow> TxResult \<Rightarrow> event \<Rightarrow> bool" where
  "carries minConfirmations receipt ev =
     (if truthy_nat minConfirmations
      then (\<exists>n. n \<ge> the minConfirmations \<and> ev = Signal (OnConfirmation n receipt))
      else ev = Signal (OnReceipt receipt))"

text \<open>A rational that is a binary64 value: rounding leaves it as it is.\<close>

definition isBinary64 :: "rat \<Rightarrow> bool" where
  "isBinary64 x = (binary64 x = Some x)"

text \<open>The signals that settle a pending hash race, and those that settle a pending
  confirmation race with threshold \<open>minConfirmations\<close>.\<close>

definition hashSettling :: "event \<Rightarrow> bool" where
  "hashSettling ev =
     (case ev of
        Signal (OnError e) \<Rightarrow> True
      | Signal (OnTransactionHash txHash) \<Rightarrow> True
      | _ \<Rightarrow> False)"

definition confirmationSettling :: "nat option \<Rightarrow> event \<Rightarrow> bool" where
  "confirmationSettling minConfirmations ev =
     (case ev of
        Signal (OnError e) \<Rightarrow> True
      | Signal (OnConfirmation confNumber receipt) \<Rightarrow>
          truthy_nat minConfirmations \<and> confNumber \<ge> the minConfirmations
      | Signal (OnReceipt receipt) \<Rightarrow> \<not> truthy_nat minConfirmations
      | _ \<Rightarrow> False)"

text \<open>\<open>_send\<close> gets as far as the broadcast: the options hold a gas limit, or the peer
  answers the estimate.\<close>

definition broadcasts :: "Peer \<Rightarrow> ContractSendMethod \<Rightarrow> SendOptions \<Rightarrow> bool" where
  "broadcasts peer method sendOptions =
     (truthy_number (gas sendOptions)
      \<or> (case peer_estimateGas peer method (TxOptions.truncate sendOptions) of
            Inr estimate \<Rightarrow> True
          | Inl message \<Rightarrow> False))"

text \<open>What holds of the local variables of \<open>_send\<close> in every state a submission
  reaches: a flag has left \<open>INITIAL\<close> exactly when its promise is settled, listeners
  are attached only to a race that was set up, and each mode sets up only its races.\<close>

definition wellFormed :: "ConfirmationType \<Rightarrow> SendState \<Rightarrow> bool" where
  "wellFormed ct s =
     ((hashOutcome s = INITIAL) = (\<not> settled (hashPromise s))
      \<and> (hashOutcome s = RESOLVED) = (\<exists>h. hashPromise s = Some (Fulfilled h))
      \<and> (confirmationOutcome s \<noteq> INITIAL) = settled (confirmationPromise s)
      \<and> (hashListeners s \<longrightarrow> hashPromise s \<noteq> None)
      \<and> (confirmationListeners s \<longrightarrow> confirmationPromise s \<noteq> None)
      \<and> (confirmationPromise s = Some Pending \<longrightarrow> confirmationListeners s)
      \<and> (awaitingHash s \<longrightarrow> confirmationPromise s = None \<and> returned s = None \<and> ct \<noteq> Confirmed)
      \<and> (\<not> awaitingHash s \<and> confirmationPromise s = None \<longrightarrow> ct \<noteq> Both \<or> (\<exists>e. returned s = Some (Inl e)))
      \<and> (ct = Both \<and> confirmationPromise s \<noteq> None \<longrightarrow> hashOutcome s = RESOLVED)
      \<and> (ct = Confirmed \<longrightarrow> hashPromise s = None \<and> \<not> hashListeners s \<and> confirmationPromise s \<noteq> None
                                \<and> returned s = None)
      \<and> (ct = Hash \<longrightarrow> confirmationPromise s = None)
      \<and> ct \<noteq> Simulate)"

text \<open>Where \<open>off\<close> detaches, a settled confirmation race has no listeners left.\<close>

definition detachedOnSettle :: "Peer \<Rightarrow> SendState \<Rightarrow> bool" where
  "detachedOnSettle peer s =
     (off_detaches peer \<and> confirmationOutcome s \<noteq> INITIAL \<longrightarrow> \<not> confirmationListeners s)"

text \<open>What \<open>_send\<close> has returned, when it returned an object of its own.\<close>

definition returnedShape :: "ConfirmationType \<Rightarrow> SendState \<Rightarrow> bool" where
  "returnedShape ct s =
     (case returned s of
        Some (Inr r) \<Rightarrow>
          (ct = Hash \<and> (\<exists>h. r = emptyResult\<lparr>transactionHash := Some h\<rparr>))
          \<or> (ct = Both \<and> (\<exists>h. r = emptyResult\<lparr>transactionHash := Some h,
                                                confirmation := Some ConfirmationPromise\<rparr>))
      | _ \<Rightarrow> True)"

section \<open>Example data\<close>

text \<open>A proxy and its implementation at one address, a contract with no deployment on
  the network, and a test token.\<close>

definition depositEvent :: AbiItem where
  "depositEvent =
     \<lparr>item_type = ''event'', item_name = ''LogDeposit'', signature = ''0xD0A1'',
      inputs = [AbiInput ''account'' ''address'' None [], AbiInput ''amount'' ''uint256'' None [],
                AbiInput ''balance'' ''bytes32'' None []]\<rparr>"

definition proxyContract :: Contract where
  "proxyContract =
     \<lparr>contract_id = 0, options_address = Some ''0xAb01'',
      jsonInterface = [\<lparr>item_type = ''event'', item_name = ''Upgraded'', signature = ''0xbc7c'',
                        inputs = [AbiInput ''implementation'' ''address'' None []]\<rparr>]\<rparr>"

definition v1Contract :: Contract where
  "v1Contract = \<lparr>contract_id = 1, options_address = Some ''0xAb01'', jsonInterface = [depositEvent]\<rparr>"

definition liquidatorProxyContract :: Contract where
  "liquidatorProxyContract = \<lparr>contract_id = 7, options_address = None, jsonInterface = []\<rparr>"

definition erc20Contract :: Contract where
  "erc20Contract = \<lparr>contract_id = 8, options_address = None, jsonInterface = []\<rparr>"

definition deployedList :: "ContractInfo list" where
  "deployedList =
     [\<lparr>contract = proxyContract, isTest = False\<rparr>, \<lparr>contract = v1Contract, isTest = False\<rparr>,
      \<lparr>contract = erc20Contract, isTest = True\<rparr>]"

definition partlyDeployedList :: "ContractInfo list" where
  "partlyDeployedList =
     [\<lparr>contract = proxyContract, isTest = False\<rparr>, \<lparr>contract = v1Contract, isTest = False\<rparr>,
      \<lparr>contract = liquidatorProxyContract, isTest = False\<rparr>,
      \<lparr>contract = erc20Contract, isTest = True\<rparr>]"

definition exampleContracts :: "ContractInfo list \<Rightarrow> Contracts" where
  "exampleContracts cl =
     \<lparr>defaultOptions = initialDefaultOptions, priv_cumulativeGasUsed = Num 0,
      priv_gasUsedByFunction = [], contractsList = cl, perpetualProxy = proxyContract\<rparr>"

definition exampleDecodeLog :: decodeLog where
  "exampleDecodeLog inps d ts =
     Inr (AObj [(''account'', AStr ''0x00c1''), (''amount'', AStr ''250''),
                (''balance'',
                 AStr ''0x0100000000000000000000000000000f00000000000000000000000000000002'')])"

definition exampleLogs :: "ContractInfo list \<Rightarrow> Logs" where
  "exampleLogs cl =
     \<lparr>contracts = exampleContracts cl, priv_contractsByAddress = None,
      web3_decodeLog = exampleDecodeLog\<rparr>"

definition unrelatedLog :: Log where
  "unrelatedLog =
     \<lparr>address = ''0xFFEE'', data = ''0x'', topics = [''0xd0a1''], logIndex = 3,
      log_transactionHash = ''0x77'', log_transactionIndex = 0, log_blockHash = ''0x88'',
      log_blockNumber = 12\<rparr>"

definition proxyLogUnknownTopic :: Log where
  "proxyLogUnknownTopic =
     \<lparr>address = ''0xAB01'', data = ''0x'', topics = [''0x9999''], logIndex = 4,
      log_transactionHash = ''0x77'', log_transactionIndex = 0, log_blockHash = ''0x88'',
      log_blockNumber = 12\<rparr>"

definition depositLog :: Log where
  "depositLog =
     \<lparr>address = ''0xAB01'', data = ''0x'', topics = [''0xd0a1'', ''0x00c1''], logIndex = 5,
      log_transactionHash = ''0x77'', log_transactionIndex = 0, log_blockHash = ''0x88'',
      log_blockNumber = 12\<rparr>"

text \<open>A peer that estimates 21001 gas, with either behaviour of \<open>off\<close>; a method of the
  implementation contract; two receipts.\<close>

definition examplePeer :: Peer where
  "examplePeer = \<lparr>peer_estimateGas = (\<lambda>m t. Inr (Num 21001)), off_detaches = False\<rparr>"

definition detachingPeer :: Peer where
  "detachingPeer = \<lparr>peer_estimateGas = (\<lambda>m t. Inr (Num 21001)), off_detaches = True\<rparr>"

definition exampleMethod :: ContractSendMethod where
  "exampleMethod =
     \<lparr>method_parent = v1Contract, method_name = ''deposit'', encodeABI = ''0xd0e30db0''\<rparr>"

definition noOptions :: SendOptions where
  "noOptions =
     \<lparr>tx_from = None, gasPrice = None, gas = None, tx_value = None, confirmations = None,
      confirmationType = None, gasMultiplier = None\<rparr>"

text \<open>The number the literal \<open>1.15\<close> denotes: the binary64 value nearest to 23/20.\<close>

definition multiplier115 :: rat where
  "multiplier115 = 5179139571476070 / 4503599627370496"

definition receipt21000 :: TxResult where
  "receipt21000 =
     emptyResult\<lparr>transactionHash := Some ''0x1a'', gasUsed := Some (Num 21000),
       status := Some True\<rparr>"

definition receipt45000 :: TxResult where
  "receipt45000 =
     emptyResult\<lparr>transactionHash := Some ''0x2b'', gasUsed := Some (Num 45000),
       status := Some True\<rparr>"

text \<open>A receipt that carries its events by name: two deposits listed out of order and
  a transfer of a token the client does not know.\<close>

definition depositEventAt :: "nat \<Rightarrow> EventLog" where
  "depositEventAt i =
     \<lparr>ev_address = ''0xAB01'', raw_data = ''0x'', raw_topics = [''0xd0a1'', ''0x00c1''],
      ev_logIndex = i, ev_transactionHash = ''0x77'', ev_transactionIndex = 0,
      ev_blockHash = ''0x88'', ev_blockNumber = 12\<rparr>"

definition transferEvent :: EventLog where
  "transferEvent =
     \<lparr>ev_address = ''0xFFEE'', raw_data = ''0x'', raw_topics = [''0xd0a1''],
      ev_logIndex = 3, ev_transactionHash = ''0x77'', ev_transactionIndex = 0,
      ev_blockHash = ''0x88'', ev_blockNumber = 12\<rparr>"

definition eventsReceipt :: TxResult where
  "eventsReceipt =
     emptyResult\<lparr>transactionHash := Some ''0x77'',
       events := Some [(''LogDeposit'', Many [depositEventAt 5, depositEventAt 2]),
                       (''Transfer'', One transferEvent)]\<rparr>"

definition depositArgs :: "(string \<times> parsedValue) list" where
  "depositArgs =
     [(''account'', PVerbatim (AStr ''0x00c1'')),
      (''amount'', PBigNumber (BN 250)),
      (''balance'',
       PBalance \<lparr>margin = BN 15, position = BN (- 2),
         balance_rawValue =
           ''0x0100000000000000000000000000000f00000000000000000000000000000002''\<rparr>)]"

definition eventsParsed :: "ParsedLog list" where
  "eventsParsed =
     [Log.extend (eventToLog (depositEventAt 2)) (ParsedLog.fields ''LogDeposit'' depositArgs),
      Log.extend (eventToLog (depositEventAt 5)) (ParsedLog.fields ''LogDeposit'' depositArgs)]"

section \<open>The packed Balance word: decoding after encoding\<close>

lemma lt16_cases:
  "d < 16 \<Longrightarrow> d = 0 \<or> d = 1 \<or> d = 2 \<or> d = 3 \<or> d = 4 \<or> d = 5 \<or> d = 6 \<or> d = 7 \<or> d = 8
     \<or> d = 9 \<or> d = 10 \<or> d = 11 \<or> d = 12 \<or> d = 13 \<or> d = 14 \<or> d = (15::nat)"
  by arith

lemma digitValue_hexDigit: "d < 16 \<Longrightarrow> digitValue (hexDigit d) = Some d"
  by (drule lt16_cases) (elim disjE; simp add: digitValue_def hexDigit_def upt_rec)

lemma isHexDigit_hexDigit: "d < 16 \<Longrightarrow> isHexDigit (hexDigit d)"
  by (drule lt16_cases) (elim disjE; simp add: isHexDigit_def hexDigit_def)


lemma length_toHexFixed: "length (toHexFixed w v) = w"
  by (induction w arbitrary: v) auto

lemma hex_toHexFixed: "list_all isHexDigit (toHexFixed w v)"
  by (induction w arbitrary: v) (auto simp: isHexDigit_hexDigit)

lemma parseDigits_append:
  "parseDigits b (xs @ ys) acc =
     (case parseDigits b xs acc of None \<Rightarrow> None | Some a \<Rightarrow> parseDigits b ys a)"
  by (induction xs arbitrary: acc) (auto split: option.splits)

lemma parseDigits_toHexFixed:
  "parseDigits 16 (toHexFixed w v) acc = Some (acc * 16 ^ w + v mod 16 ^ w)"
proof (induction w arbitrary: v acc)
  case 0
  then show ?case by simp
next
  case (Suc w)
  have m: "v mod (16 * 16 ^ w) = 16 * (v div 16 mod 16 ^ w) + v mod 16"
    by (simp add: mod_mult2_eq add.commute)
  have "parseDigits 16 (toHexFixed (Suc w) v) acc
        = Some ((acc * 16 ^ w + v div 16 mod 16 ^ w) * 16 + v mod 16)"
    by (simp add: parseDigits_append Suc digitValue_hexDigit)
  also have "(acc * 16 ^ w + v div 16 mod 16 ^ w) * 16 + v mod 16
             = acc * 16 ^ Suc w + v mod 16 ^ Suc w"
    using m by (simp add: algebra_simps)
  finally show ?case .
qed



lemma toLowerCase_append: "toLowerCase (xs @ ys) = toLowerCase xs @ toLowerCase ys"
  by (simp add: toLowerCase_def)

lemma length_toLowerCase: "length (toLowerCase s) = length s"
  by (simp add: toLowerCase_def)

lemma hex_digits_not_x: "\<forall>c\<in>set ''0123456789abcdef''. toLowerCase [c] \<noteq> ''x''"
  by (simp add: toLowerCase_def)

lemma isHexDigit_not_x: "isHexDigit c \<Longrightarrow> toLowerCase [c] \<noteq> ''x''"
  unfolding isHexDigit_def using hex_digits_not_x by blast

lemma no_prefix:
  assumes "list_all isHexDigit s"
  shows "\<not> (toLowerCase (take 2 s) = ''0x'' \<and> 2 < length s)"
proof
  assume a: "toLowerCase (take 2 s) = ''0x'' \<and> 2 < length s"
  then obtain c0 c1 t where s: "s = c0 # c1 # t"
    by (cases s; cases "tl s") auto
  with assms have "isHexDigit c1" by simp
  then have "toLowerCase [c1] \<noteq> ''x''" by (rule isHexDigit_not_x)
  moreover have "toLowerCase (take 2 s) = toLowerCase [c0] @ toLowerCase [c1]"
    using s toLowerCase_append[of "[c0]" "[c1]"] by simp
  then have "toLowerCase [c0] @ toLowerCase [c1] = ''0'' @ ''x''"
    using a by simp
  then have "toLowerCase [c1] = ''x''"
    by (subst (asm) append_eq_append_conv) (simp_all add: length_toLowerCase)
  ultimately show False by simp
qed

lemma newBigNumber16_toHexFixed:
  assumes "0 < w"
  shows "newBigNumber16 (toHexFixed w v) = BN (of_nat (v mod 16 ^ w))"
proof -
  have ne: "toHexFixed w v \<noteq> []" using assms length_toHexFixed[of w v] by auto
  have np: "\<not> (toLowerCase (take 2 (toHexFixed w v)) = ''0x'' \<and> 2 < length (toHexFixed w v))"
    by (rule no_prefix[OF hex_toHexFixed])
  have "newBigNumber16 (toHexFixed w v) = ofNatOption (parseNat 16 (toHexFixed w v))"
    unfolding newBigNumber16_def by (simp only: np if_False)
  then show ?thesis
    using ne by (simp add: parseNat_def ofNatOption_def parseDigits_toHexFixed)
qed

lemma substr_pieces:
  assumes "length p = 2" "length a = 2" "length b = 30" "length c = 2" "length d = 30"
  shows "substr (p @ a @ b @ c @ d) 2 2 = a" "substr (p @ a @ b @ c @ d) 4 30 = b"
    "substr (p @ a @ b @ c @ d) 34 2 = c" "substr (p @ a @ b @ c @ d) 36 30 = d"
  using assms by (simp_all add: substr_def)


lemma two120: "(16::nat) ^ 30 = 2 ^ 120"
  by simp

lemma parseBalance_encodeBalance:
  assumes "m < 2 ^ 120" "p < 2 ^ 120"
  shows "parseBalance (encodeBalance mp m pp p)
         = \<lparr>margin = signedBN mp m, position = signedBN pp p,
            balance_rawValue = encodeBalance mp m pp p\<rparr>"
proof -
  define w where "w = encodeBalance mp m pp p"
  have "m < 16 ^ 30" "p < 16 ^ 30"
    using assms by simp_all
  then have m: "m mod 16 ^ 30 = m" and p: "p mod 16 ^ 30 = p"
    by (simp_all only: mod_less)
  have mg: "newBigNumber16 (toHexFixed 30 m) = BN (of_nat m)"
    using newBigNumber16_toHexFixed[of 30 m] by (simp only: m)
  have pg: "newBigNumber16 (toHexFixed 30 p) = BN (of_nat p)"
    using newBigNumber16_toHexFixed[of 30 p] by (simp only: p)
  have flag: "isZero (newBigNumber16 (toHexFixed 2 (if b then 1 else 0))) = (\<not> b)" for b
    by (simp add: newBigNumber16_toHexFixed isZero_def del: toHexFixed.simps)
  have pieces:
    "substr w 2 2 = toHexFixed 2 (if mp then 1 else 0)"
    "substr w 4 30 = toHexFixed 30 m"
    "substr w 34 2 = toHexFixed 2 (if pp then 1 else 0)"
    "substr w 36 30 = toHexFixed 30 p"
    unfolding w_def encodeBalance_def
    by (rule substr_pieces; simp add: length_toHexFixed del: toHexFixed.simps)+
  have "parseBalance w = \<lparr>margin = signedBN mp m, position = signedBN pp p, balance_rawValue = w\<rparr>"
    unfolding parseBalance_def pieces Let_def flag mg pg
    by (simp add: negated_def signedBN_def)
  then show ?thesis by (simp only: w_def)
qed

lemma length_encodeBalance: "length (encodeBalance mp m pp p) = 66"
  by (simp add: encodeBalance_def length_toHexFixed del: toHexFixed.simps)

lemma nibbles_encodeBalance:
  "take 2 (encodeBalance mp m pp p) = ''0x'' \<and> list_all isHexDigit (drop 2 (encodeBalance mp m pp p))"
  by (simp add: encodeBalance_def hex_toHexFixed del: toHexFixed.simps)

text \<open>
  C8. For every margin magnitude and position magnitude below \<open>2 ^ 120\<close> and every pair
  of signs, the encoded word is \<open>0x\<close> followed by exactly 64 hex nibbles, and
  \<open>parseBalance\<close> of that word is the Balance of the signed margin and the signed
  position, with the word itself attached as \<open>rawValue\<close>.
\<close>

theorem parseBalance_after_encodeBalance:
  assumes "marginMagnitude < 2 ^ 120" "positionMagnitude < 2 ^ 120"
  shows "length (encodeBalance mp marginMagnitude pp positionMagnitude) = 2 + 64
       \<and> take 2 (encodeBalance mp marginMagnitude pp positionMagnitude) = ''0x''
       \<and> list_all isHexDigit (drop 2 (encodeBalance mp marginMagnitude pp positionMagnitude))
       \<and> parseBalance (encodeBalance mp marginMagnitude pp positionMagnitude)
           = \<lparr>margin = signedBN mp marginMagnitude, position = signedBN pp positionMagnitude,
              balance_rawValue = encodeBalance mp marginMagnitude pp positionMagnitude\<rparr>"
  using parseBalance_encodeBalance[OF assms, of mp pp]
    length_encodeBalance[of mp marginMagnitude pp positionMagnitude]
    nibbles_encodeBalance[of mp marginMagnitude pp positionMagnitude]
  by simp

theorem parseBalance_after_encodeBalance_witness:
  "(255::nat) < 2 ^ 120 \<and> (4096::nat) < 2 ^ 120
   \<and> encodeBalance True 255 False 4096
       = ''0x010000000000000000000000000000ff00000000000000000000000000001000''
   \<and> parseBalance ''0x010000000000000000000000000000ff00000000000000000000000000001000''
       = \<lparr>margin = BN 255, position = BN (- 4096),
          balance_rawValue = ''0x010000000000000000000000000000ff00000000000000000000000000001000''\<rparr>"
proof -
  have e: "encodeBalance True 255 False 4096
           = ''0x010000000000000000000000000000ff00000000000000000000000000001000''"
    by code_simp
  have "(255::nat) < 2 ^ 120" "(4096::nat) < 2 ^ 120" by simp_all
  from parseBalance_after_encodeBalance[OF this, of True False] show ?thesis
    by (simp add: e signedBN_def)
qed

subsection \<open>The order flags\<close>

text \<open>The three flags of an order are the three low bits of the 32-byte word, whatever
  the higher bits are.\<close>

lemma flag_bit:
  assumes "k < 3"
  shows "((int n mod 8) AND (2 ^ k) \<noteq> 0) = bit n k"
proof -
  have "int n mod 8 = take_bit 3 (int n)" by (simp add: take_bit_eq_mod)
  then have "((int n mod 8) AND (2 ^ k) \<noteq> 0) = bit (take_bit 3 (int n)) k"
    by (simp add: bit_iff_and_push_bit_not_eq_0 push_bit_eq_mult)
  also have "\<dots> = bit (int n) k" using assms by (simp add: bit_take_bit_iff)
  also have "\<dots> = bit n k" by (simp add: bit_of_nat_iff_bit)
  finally show ?thesis .
qed

lemma newBigNumber16_prefixed:
  assumes "0 < w"
  shows "newBigNumber16 (''0x'' @ toHexFixed w v) = BN (of_nat (v mod 16 ^ w))"
proof -
  have ne: "toHexFixed w v \<noteq> []" using assms length_toHexFixed[of w v] by auto
  have l: "2 < length (''0x'' @ toHexFixed w v)" using assms by (simp add: length_toHexFixed)
  have t: "toLowerCase (take 2 (''0x'' @ toHexFixed w v)) = ''0x''"
    by (simp add: toLowerCase_def)
  have "newBigNumber16 (''0x'' @ toHexFixed w v) = ofNatOption (parseNat 16 (toHexFixed w v))"
    unfolding newBigNumber16_def by (simp only: t l) simp
  then show ?thesis
    using ne by (simp add: parseNat_def ofNatOption_def parseDigits_toHexFixed)
qed

lemma parseOrderFlags_bits:
  assumes "n < 16 ^ 64"
  shows "parseOrderFlags (AStr (''0x'' @ toHexFixed 64 n))
         = \<lparr>flags_rawValue = AStr (''0x'' @ toHexFixed 64 n),
            isBuy = bit n 0, isDecreaseOnly = bit n 1, isNegativeLimitFee = bit n 2\<rparr>"
proof -
  define w where "w = ''0x'' @ toHexFixed 64 n"
  have v: "newBigNumber16 w = BN (of_nat n)"
    unfolding w_def using newBigNumber16_prefixed[of 64 n] assms by (simp only: mod_less)
  have f: "mod8ToInt (BN (of_nat n)) = int n mod 8"
    by (simp add: mod8ToInt_def)
  have "parseOrderFlags (AStr w)
         = \<lparr>flags_rawValue = AStr w,
            isBuy = bit n 0, isDecreaseOnly = bit n 1, isNegativeLimitFee = bit n 2\<rparr>"
    unfolding parseOrderFlags_def Let_def
    using flag_bit[of 0 n] flag_bit[of 1 n] flag_bit[of 2 n]
    by (simp add: v f IS_BUY_def IS_DECREASE_ONLY_def IS_NEGATIVE_LIMIT_FEE_def)
  then show ?thesis by (simp only: w_def)
qed

lemma parseOrderFlags_bits_example:
  "(5::nat) < 16 ^ 64
   \<and> parseOrderFlags (AStr (''0x'' @ toHexFixed 64 5))
     = \<lparr>flags_rawValue = AStr (''0x'' @ toHexFixed 64 5),
        isBuy = True, isDecreaseOnly = False, isNegativeLimitFee = True\<rparr>"
proof -
  have b: "bit (5::nat) 0" "\<not> bit (5::nat) 1" "bit (5::nat) 2"
    by (simp_all add: bit_iff_odd)
  have "(5::nat) < 16 ^ 64" by simp
  from parseOrderFlags_bits[OF this] b this show ?thesis by (simp only: simp_thms)
qed

section \<open>The argument decoder\<close>

lemma matchesWithDigits_hd:
  assumes "matchesWithDigits (c # p) t"
  shows "t \<noteq> [] \<and> hd t = c"
  using assms by (cases t) (auto simp: matchesWithDigits_def)

lemma uint_not_other:
  assumes "matchesWithDigits ''uint'' t"
  shows "t \<noteq> ''bytes32''" "t \<noteq> ''address''" "t \<noteq> ''bool''" "t \<noteq> ''tuple''"
    "\<not> matchesWithDigits ''bytes'' t"
proof -
  have h: "hd t = CHR ''u''" using matchesWithDigits_hd[OF assms] by simp
  show "t \<noteq> ''bytes32''" "t \<noteq> ''address''" "t \<noteq> ''bool''" "t \<noteq> ''tuple''"
    using h by auto
  show "\<not> matchesWithDigits ''bytes'' t"
    using h matchesWithDigits_hd[of "CHR ''b''" "''ytes''" t] by auto
qed


lemma parseValue_uint:
  assumes "matchesWithDigits ''uint'' t" "\<not> (t = ''uint256'' \<and> n \<in> fixedPointNames)"
  shows "parseValue (AbiInput n t it cs) v = Inr (PBigNumber (newBigNumber v))"
proof (cases "t = ''uint256''")
  case True
  with assms(2) have "n \<noteq> ''fee''" "n \<notin> {''price'', ''oraclePrice'', ''settlementPrice'', ''triggerPrice''}"
    by (auto simp: fixedPointNames_def)
  then show ?thesis
    using assms(1) uint_not_other[OF assms(1)] by simp
next
  case False
  then show ?thesis
    using assms(1) uint_not_other[OF assms(1)] by simp
qed


lemma int_not_recognised:
  assumes "matchesWithDigits ''int'' t"
  shows "\<not> recognisedType t"
proof -
  have h: "hd t = CHR ''i''" using matchesWithDigits_hd[OF assms] by simp
  have "t \<noteq> ''address''" "t \<noteq> ''bool''" "t \<noteq> ''tuple''" using h by auto
  moreover have "\<not> matchesWithDigits ''bytes'' t"
    using h matchesWithDigits_hd[of "CHR ''b''" "''ytes''" t] by auto
  moreover have "\<not> matchesWithDigits ''uint'' t"
    using h matchesWithDigits_hd[of "CHR ''u''" "''int''" t] by auto
  ultimately show ?thesis by (simp add: recognisedType_def)
qed

lemma bytes32_recognised: "recognisedType ''bytes32''"
  by (simp add: recognisedType_def matchesWithDigits_def isDigit_def)

lemma uint256_recognised: "recognisedType ''uint256''"
  by (simp add: recognisedType_def matchesWithDigits_def isDigit_def)

lemma parseValue_unrecognised:
  assumes "\<not> recognisedType t"
  shows "parseValue (AbiInput n t it cs) v = Inl (UnknownEventArgType t)"
proof -
  have "t \<noteq> ''bytes32''" "t \<noteq> ''uint256''"
    using assms bytes32_recognised uint256_recognised by auto
  moreover have "t \<noteq> ''address''" "t \<noteq> ''bool''" "t \<noteq> ''tuple''"
    "\<not> matchesWithDigits ''bytes'' t" "\<not> matchesWithDigits ''uint'' t"
    using assms by (simp_all add: recognisedType_def)
  ultimately show ?thesis by simp
qed

lemma parseValue_tuple:
  "parseValue (AbiInput n ''tuple'' it cs) v = parseTuple (AbiInput n ''tuple'' it cs) v"
  by (simp add: matchesWithDigits_def)


lemma asString_not_unknown: "map_sum id f (asString v) \<noteq> Inl (UnknownEventArgType t)"
  by (cases v) (simp_all add: asString_def)

lemma parseValue_recognised:
  assumes "recognisedType ty" "ty \<noteq> ''tuple''"
  shows "parseValue (AbiInput n ty it cs) v \<noteq> Inl (UnknownEventArgType t)"
proof -
  have "ty = ''address'' \<or> ty = ''bool'' \<or> matchesWithDigits ''bytes'' ty \<or> matchesWithDigits ''uint'' ty"
    using assms by (simp add: recognisedType_def)
  then show ?thesis
    by (auto simp: asString_not_unknown)
qed


lemma unknown_type_not_recognised:
  "parseValue i v = Inl (UnknownEventArgType t) \<longrightarrow> \<not> recognisedType t"
  "parseTuple i v = Inl (UnknownEventArgType t) \<longrightarrow> \<not> recognisedType t"
  "parseArgs inps v acc = Inl (UnknownEventArgType t) \<longrightarrow> \<not> recognisedType t"
proof (induction i v and i v and inps v acc rule: parseValue_parseTuple_parseArgs.induct)
  case (1 name type internalType components argValue)
  show ?case
  proof (cases "type = ''tuple''")
    case True
    have "parseTuple (AbiInput name type internalType components) argValue
            = Inl (UnknownEventArgType t) \<longrightarrow> \<not> recognisedType t"
      by (rule "1.IH") (simp_all add: True matchesWithDigits_def)
    then show ?thesis
      using True parseValue_tuple[of name internalType components argValue] by simp
  next
    case False
    show ?thesis
    proof (cases "recognisedType type")
      case True
      then show ?thesis using parseValue_recognised[OF True False] by blast
    next
      case False
      then show ?thesis using parseValue_unrecognised[OF False] by auto
    qed
  qed
next
  case (2 name type internalType components argValue)
  show ?case
  proof (cases "inTupleMap internalType")
    case None
    then show ?thesis by simp
  next
    case (Some expected)
    show ?thesis
    proof (cases "expected \<noteq> map input_name components")
      case True
      then show ?thesis using Some by simp
    next
      case False
      then have "parseArgs components argValue [] = Inl (UnknownEventArgType t)
                   \<longrightarrow> \<not> recognisedType t"
        using "2.IH"[OF Some] by simp
      then show ?thesis
        using Some False by (cases "parseArgs components argValue []") simp_all
    qed
  qed
next
  case (3 eventArgs parsedObject)
  then show ?case by simp
next
  case (4 input rest eventArgs parsedObject)
  show ?case
  proof (cases "getProperty eventArgs (input_name input)")
    case (Inl e)
    then have "e = TypeError"
      by (cases eventArgs) (simp_all add: getProperty_def)
    then show ?thesis using Inl by simp
  next
    case (Inr argValue)
    show ?thesis
    proof (cases "parseValue input argValue")
      case (Inl e)
      then show ?thesis using Inr "4.IH"(1)[OF Inr] by simp
    next
      case (Inr pv)
      then show ?thesis
        using \<open>getProperty eventArgs (input_name input) = Inr argValue\<close>
          "4.IH"(2)[OF \<open>getProperty eventArgs (input_name input) = Inr argValue\<close> Inr]
        by simp
    qed
  qed
qed

text \<open>
  C7, as the code has it. An argument of a type \<open>uint\<close> followed by digits only, other than
  a \<open>uint256\<close> with a fee or price name, is decoded to the arbitrary-precision integer
  of its value. There is no branch for signed integers: every type \<open>int\<close> followed by
  digits fails with the unknown-type error. That error names a type outside
  \<open>address\<close>, \<open>bool\<close>, \<open>bytes\<close> with digits, \<open>uint\<close> with digits and \<open>tuple\<close>, at
  whatever depth of a tuple it is raised, and every argument of such a type raises it.
\<close>

theorem parseValue_integer_types:
  "(matchesWithDigits ''uint'' ty \<and> \<not> (ty = ''uint256'' \<and> n \<in> fixedPointNames)
      \<longrightarrow> parseValue (AbiInput n ty it cs) v = Inr (PBigNumber (newBigNumber v)))
   \<and> (parseNat 10 digits = Some k \<longrightarrow> newBigNumber (AStr digits) = BN (of_nat k))
   \<and> (matchesWithDigits ''int'' ty
      \<longrightarrow> parseValue (AbiInput n ty it cs) v = Inl (UnknownEventArgType ty))
   \<and> (\<not> recognisedType ty
      \<longrightarrow> parseValue (AbiInput n ty it cs) v = Inl (UnknownEventArgType ty))
   \<and> (parseValue (AbiInput n ty it cs) v = Inl (UnknownEventArgType t)
      \<longrightarrow> \<not> recognisedType t)"
proof (intro conjI impI)
  assume "matchesWithDigits ''uint'' ty \<and> \<not> (ty = ''uint256'' \<and> n \<in> fixedPointNames)"
  then show "parseValue (AbiInput n ty it cs) v = Inr (PBigNumber (newBigNumber v))"
    using parseValue_uint[of ty n it cs v] by blast
next
  assume "parseNat 10 digits = Some k"
  then show "newBigNumber (AStr digits) = BN (of_nat k)"
    by (simp add: newBigNumber_def newBigNumber10_def ofNatOption_def)
next
  assume "matchesWithDigits ''int'' ty"
  then show "parseValue (AbiInput n ty it cs) v = Inl (UnknownEventArgType ty)"
    using int_not_recognised parseValue_unrecognised by blast
next
  assume "\<not> recognisedType ty"
  then show "parseValue (AbiInput n ty it cs) v = Inl (UnknownEventArgType ty)"
    by (rule parseValue_unrecognised)
next
  assume "parseValue (AbiInput n ty it cs) v = Inl (UnknownEventArgType t)"
  then show "\<not> recognisedType t"
    using unknown_type_not_recognised(1)[of "AbiInput n ty it cs" v t] by blast
qed

theorem parseValue_integer_types_witness:
  "matchesWithDigits ''uint'' ''uint128''
   \<and> parseValue (AbiInput ''amount'' ''uint128'' None []) (AStr ''18446744073709551616'')
       = Inr (PBigNumber (BN 18446744073709551616))
   \<and> matchesWithDigits ''int'' ''int256''
   \<and> parseValue (AbiInput ''delta'' ''int256'' None []) (AStr ''5'')
       = Inl (UnknownEventArgType ''int256'')
   \<and> \<not> recognisedType ''string''
   \<and> parseValue (AbiInput ''memo'' ''string'' None []) (AStr ''hello'')
       = Inl (UnknownEventArgType ''string'')"
proof -
  have u: "matchesWithDigits ''uint'' ''uint128''" by code_simp
  have nf: "\<not> (''uint128'' = ''uint256'' \<and> ''amount'' \<in> fixedPointNames)" by simp
  have d: "parseNat 10 ''18446744073709551616'' = Some 18446744073709551616"
    by (simp add: parseNat_def digitValue_def upt_rec)
  have i: "matchesWithDigits ''int'' ''int256''" by code_simp
  have s: "\<not> recognisedType ''string''" by code_simp
  have a: "parseValue (AbiInput ''amount'' ''uint128'' None []) (AStr ''18446744073709551616'')
           = Inr (PBigNumber (newBigNumber (AStr ''18446744073709551616'')))"
    using parseValue_integer_types[of "''uint128''" "''amount''" None "[]"
        "AStr ''18446744073709551616''"] u nf by blast
  have b: "newBigNumber (AStr ''18446744073709551616'') = BN (of_nat 18446744073709551616)"
    using parseValue_integer_types[of _ _ _ _ _ "''18446744073709551616''" 18446744073709551616] d
    by blast
  have c: "parseValue (AbiInput ''delta'' ''int256'' None []) (AStr ''5'')
           = Inl (UnknownEventArgType ''int256'')"
    using parseValue_integer_types[of "''int256''" "''delta''" None "[]" "AStr ''5''"] i by blast
  have e: "parseValue (AbiInput ''memo'' ''string'' None []) (AStr ''hello'')
           = Inl (UnknownEventArgType ''string'')"
    using parseValue_integer_types[of "''string''" "''memo''" None "[]" "AStr ''hello''"] s by blast
  have f: "BN (of_nat 18446744073709551616) = BN 18446744073709551616" by simp
  show ?thesis
    by (simp only: a b c e f u i s simp_thms)
qed

text \<open>The claim as written fails on a signed integer: a \<open>int256\<close> argument is not decoded
  to an integer, it raises the unknown-type error.\<close>

theorem parseValue_int256_counterexample:
  "matchesWithDigits ''int'' ''int256''
   \<and> parseValue (AbiInput ''delta'' ''int256'' None []) (AStr ''5'')
       \<noteq> Inr (PBigNumber (newBigNumber (AStr ''5'')))
   \<and> parseValue (AbiInput ''delta'' ''int256'' None []) (AStr ''5'')
       = Inl (UnknownEventArgType ''int256'')"
  by code_simp

section \<open>The address registry and the log decoder\<close>

lemma build_result:
  "fst (buildContractsByAddress cl m) = (if list_ex undeployed cl then Some ContractNotDeployed else None)"
proof (induction cl arbitrary: m)
  case Nil
  then show ?case by simp
next
  case (Cons info rest)
  show ?case
  proof (cases "isTest info")
    case True
    then show ?thesis by (simp add: undeployed_def Cons)
  next
    case False
    show ?thesis
    proof (cases "truthy_string (options_address (contract info))")
      case True
      then show ?thesis
        using False by (simp add: undeployed_def Cons Let_def)
    next
      case False
      then show ?thesis using \<open>\<not> isTest info\<close> by (simp add: undeployed_def)
    qed
  qed
qed

lemma find_snoc:
  "find P (xs @ [x]) = (case find P xs of Some y \<Rightarrow> Some y | None \<Rightarrow> if P x then Some x else None)"
  by (induction xs) auto

lemma lastDeployedAt_Nil: "lastDeployedAt [] key = None"
  by (simp add: lastDeployedAt_def)

lemma lastDeployedAt_Cons:
  "lastDeployedAt (info # rest) key
   = (case lastDeployedAt rest key of
        Some c \<Rightarrow> Some c
      | None \<Rightarrow>
          if \<not> isTest info \<and> map_option toLowerCase (options_address (contract info)) = Some key
          then Some (contract info) else None)"
  by (simp add: lastDeployedAt_def find_snoc split: option.splits)

lemma build_map:
  assumes "\<not> list_ex undeployed cl" "plainKeys cl"
  shows "snd (buildContractsByAddress cl m) key
         = (case lastDeployedAt cl key of Some c \<Rightarrow> Some c | None \<Rightarrow> m key)"
  using assms
proof (induction cl arbitrary: m)
  case Nil
  then show ?case by (simp add: lastDeployedAt_Nil)
next
  case (Cons info rest)
  have r: "\<not> list_ex undeployed rest" "plainKeys rest"
    using Cons.prems by (simp_all add: plainKeys_def)
  show ?case
  proof (cases "isTest info")
    case True
    then show ?thesis
      using Cons.IH[OF r, of m] by (simp add: lastDeployedAt_Cons split: option.splits)
  next
    case False
    then have t: "truthy_string (options_address (contract info))"
      using Cons.prems(1) by (simp add: undeployed_def)
    then obtain a where a: "options_address (contract info) = Some a"
      by (cases "options_address (contract info)") (simp_all add: truthy_string_def)
    have k: "toLowerCase a \<noteq> ''__proto__''"
      using Cons.prems(2) a by (simp add: plainKeys_def)
    have ih: "snd (buildContractsByAddress rest (m(toLowerCase a \<mapsto> contract info))) key
              = (case lastDeployedAt rest key of
                   Some c \<Rightarrow> Some c
                 | None \<Rightarrow> (m(toLowerCase a \<mapsto> contract info)) key)"
      by (rule Cons.IH[OF r])
    have st: "snd (buildContractsByAddress (info # rest) m) key
              = snd (buildContractsByAddress rest (m(toLowerCase a \<mapsto> contract info))) key"
      using False t a k by (simp add: Let_def)
    show ?thesis
      unfolding st ih using False a
      by (auto simp: lastDeployedAt_Cons split: option.splits)
  qed
qed

lemma contractsByAddress_unbuilt:
  assumes "priv_contractsByAddress this = None"
  shows "contractsByAddress this
         = ((if list_ex undeployed (contractsList (contracts this))
             then Inl ContractNotDeployed
             else Inr (snd (buildContractsByAddress (contractsList (contracts this)) Map.empty))),
            this\<lparr>priv_contractsByAddress :=
                   Some (snd (buildContractsByAddress (contractsList (contracts this)) Map.empty))\<rparr>)"
proof -
  obtain r m where b: "buildContractsByAddress (contractsList (contracts this)) Map.empty = (r, m)"
    by (cases "buildContractsByAddress (contractsList (contracts this)) Map.empty") auto
  have r: "r = (if list_ex undeployed (contractsList (contracts this)) then Some ContractNotDeployed else None)"
    using build_result[of "contractsList (contracts this)" Map.empty] b by simp
  show ?thesis
    using assms b r by (simp add: contractsByAddress_def)
qed

lemma registry_available:
  "(\<exists>m. fst (contractsByAddress this) = Inr m)
     = (priv_contractsByAddress this \<noteq> None \<or> \<not> list_ex undeployed (contractsList (contracts this)))"
proof (cases "priv_contractsByAddress this")
  case None
  then show ?thesis using contractsByAddress_unbuilt[OF None] by auto
next
  case (Some m)
  then show ?thesis by (simp add: contractsByAddress_def)
qed

text \<open>
  C6, as the code has it. The first read of the registry builds it, and the build raises
  \<open>Contract has not been deployed\<close> exactly when some contract that is not a test contract
  has no address: the error is raised at build time, whichever contract the caller is
  after, and only the test contracts may lack an address. Otherwise the read returns
  the mapping, which it also keeps for the later reads: under each key it holds the last
  contract of the list, test contracts apart, whose address lower-cases to that key, and
  it holds nothing under any other key.
\<close>

theorem registry_build_raises_iff_undeployed:
  assumes "priv_contractsByAddress this = None" "plainKeys (contractsList (contracts this))"
  shows "(fst (contractsByAddress this) = Inl ContractNotDeployed)
           = list_ex undeployed (contractsList (contracts this))
       \<and> (\<not> list_ex undeployed (contractsList (contracts this)) \<longrightarrow>
            (\<exists>m. contractsByAddress this = (Inr m, this\<lparr>priv_contractsByAddress := Some m\<rparr>)
                 \<and> (\<forall>key. m key = lastDeployedAt (contractsList (contracts this)) key)))"
proof -
  define cl where "cl = contractsList (contracts this)"
  define m where "m = snd (buildContractsByAddress cl Map.empty)"
  have u: "contractsByAddress this
           = ((if list_ex undeployed cl then Inl ContractNotDeployed else Inr m),
              this\<lparr>priv_contractsByAddress := Some m\<rparr>)"
    unfolding cl_def m_def by (rule contractsByAddress_unbuilt[OF assms(1)])
  have k: "\<not> list_ex undeployed cl \<Longrightarrow> m key = lastDeployedAt cl key" for key
    unfolding m_def using build_map[of cl Map.empty key] assms(2)
    by (simp add: cl_def split: option.splits)
  show ?thesis
    unfolding cl_def[symmetric] using u k by auto
qed

theorem registry_build_raises_iff_undeployed_witness:
  "priv_contractsByAddress (exampleLogs deployedList) = None
   \<and> plainKeys deployedList
   \<and> \<not> list_ex undeployed deployedList
   \<and> (\<exists>m. contractsByAddress (exampleLogs deployedList)
             = (Inr m, (exampleLogs deployedList)\<lparr>priv_contractsByAddress := Some m\<rparr>)
          \<and> m ''0xab01'' = Some v1Contract \<and> m ''0xAb01'' = None \<and> m ''0xffee'' = None)
   \<and> priv_contractsByAddress (exampleLogs partlyDeployedList) = None
   \<and> plainKeys partlyDeployedList
   \<and> list_ex undeployed partlyDeployedList
   \<and> fst (contractsByAddress (exampleLogs partlyDeployedList)) = Inl ContractNotDeployed"
proof -
  have n: "priv_contractsByAddress (exampleLogs cl) = None" for cl
    by (simp add: exampleLogs_def)
  have c: "contractsList (contracts (exampleLogs cl)) = cl" for cl
    by (simp add: exampleLogs_def exampleContracts_def)
  have d: "\<not> list_ex undeployed deployedList" and pd: "plainKeys deployedList" by code_simp+
  have p: "list_ex undeployed partlyDeployedList" and pp: "plainKeys partlyDeployedList"
    by code_simp+
  have l: "lastDeployedAt deployedList ''0xab01'' = Some v1Contract"
    "lastDeployedAt deployedList ''0xAb01'' = None"
    "lastDeployedAt deployedList ''0xffee'' = None"
    by code_simp+
  have pd': "plainKeys (contractsList (contracts (exampleLogs deployedList)))"
    and pp': "plainKeys (contractsList (contracts (exampleLogs partlyDeployedList)))"
    using pd pp by (simp_all add: c)
  show ?thesis
    using registry_build_raises_iff_undeployed[OF n pd']
      registry_build_raises_iff_undeployed[OF n pp'] n c d p pd pp l
    by auto
qed

text \<open>The claim as written fails where a contract that is not a test contract has no
  address: building the registry raises.\<close>

theorem registry_build_counterexample:
  "\<not> isTest (partlyDeployedList ! 2)
   \<and> options_address (contract (partlyDeployedList ! 2)) = None
   \<and> fst (contractsByAddress (exampleLogs partlyDeployedList)) = Inl ContractNotDeployed"
  by (simp add: contractsByAddress_def exampleLogs_def exampleContracts_def partlyDeployedList_def
      proxyContract_def v1Contract_def liquidatorProxyContract_def erc20Contract_def
      truthy_string_def Let_def toLowerCase_def)

lemma parseLogWithContract_unknown:
  assumes "topics lg \<noteq> []" "\<not> knownSignature c (hd (topics lg))"
  shows "parseLogWithContract this c lg = Inr None"
  using assms by (cases "topics lg") (auto simp: parseLogWithContract_def knownSignature_def Let_def)

lemma parseLog_registry_unavailable:
  assumes "priv_contractsByAddress this = None"
    "list_ex undeployed (contractsList (contracts this))"
    "addressesAreEqual (toLowerCase (address lg)) (options_address (perpetualProxy (contracts this)))
       \<longrightarrow> topics lg \<noteq> [] \<and> \<not> knownSignature (perpetualProxy (contracts this)) (hd (topics lg))"
  shows "fst (parseLog this lg) = Inl ContractNotDeployed"
proof -
  have via: "(if addressesAreEqual (toLowerCase (address lg))
                   (options_address (perpetualProxy (contracts this)))
              then parseLogWithContract this (perpetualProxy (contracts this)) lg
              else Inr None) = Inr None"
    using assms(3) parseLogWithContract_unknown[of lg "perpetualProxy (contracts this)" this] by simp
  show ?thesis
    using contractsByAddress_unbuilt[OF assms(1)] assms(2) via by (simp add: parseLog_def)
qed

text \<open>
  C5, as the code has it. Let the registry be at hand: already cached, or built without
  error because every contract that is not a test contract has an address. Then
  \<open>parseLog\<close> returns \<open>null\<close> without throwing for a log whose lower-cased address is
  neither the address of the proxy nor a name the registry object has (the \<open>in\<close> test
  fails), and for a log with a first topic that is the signature of no event of the
  contracts its address resolves to. Where the registry is not built yet and some
  contract that is not a test contract has no address, \<open>parseLog\<close> throws
  \<open>Contract has not been deployed\<close> on every such log.
\<close>

theorem parseLog_absent:
  assumes "plainKeys (contractsList (contracts this))"
  shows "(fst (contractsByAddress this) = Inr byAddress
            \<and> \<not> addressesAreEqual (toLowerCase (address lg))
                  (options_address (perpetualProxy (contracts this)))
            \<and> \<not> hasProperty byAddress (toLowerCase (address lg))
          \<longrightarrow> fst (parseLog this lg) = Inr None)
       \<and> (fst (contractsByAddress this) = Inr byAddress
            \<and> topics lg \<noteq> []
            \<and> (addressesAreEqual (toLowerCase (address lg))
                  (options_address (perpetualProxy (contracts this)))
                \<longrightarrow> \<not> knownSignature (perpetualProxy (contracts this)) (hd (topics lg)))
            \<and> (\<forall>c. byAddress (toLowerCase (address lg)) = Some c
                     \<longrightarrow> \<not> knownSignature c (hd (topics lg)))
            \<and> (byAddress (toLowerCase (address lg)) = None
                 \<longrightarrow> \<not> hasProperty byAddress (toLowerCase (address lg)))
          \<longrightarrow> fst (parseLog this lg) = Inr None)
       \<and> ((\<exists>m. fst (contractsByAddress this) = Inr m)
            = (priv_contractsByAddress this \<noteq> None
               \<or> \<not> list_ex undeployed (contractsList (contracts this))))
       \<and> (priv_contractsByAddress this = None
            \<and> list_ex undeployed (contractsList (contracts this))
            \<and> (addressesAreEqual (toLowerCase (address lg))
                  (options_address (perpetualProxy (contracts this)))
                \<longrightarrow> topics lg \<noteq> []
                    \<and> \<not> knownSignature (perpetualProxy (contracts this)) (hd (topics lg)))
          \<longrightarrow> fst (parseLog this lg) = Inl ContractNotDeployed)"
proof (intro conjI impI)
  assume a: "fst (contractsByAddress this) = Inr byAddress
            \<and> \<not> addressesAreEqual (toLowerCase (address lg))
                  (options_address (perpetualProxy (contracts this)))
            \<and> \<not> hasProperty byAddress (toLowerCase (address lg))"
  then obtain this' where cb: "contractsByAddress this = (Inr byAddress, this')"
    by (cases "contractsByAddress this") auto
  show "fst (parseLog this lg) = Inr None"
    using a cb by (simp add: parseLog_def)
next
  assume a: "fst (contractsByAddress this) = Inr byAddress
            \<and> topics lg \<noteq> []
            \<and> (addressesAreEqual (toLowerCase (address lg))
                  (options_address (perpetualProxy (contracts this)))
                \<longrightarrow> \<not> knownSignature (perpetualProxy (contracts this)) (hd (topics lg)))
            \<and> (\<forall>c. byAddress (toLowerCase (address lg)) = Some c
                     \<longrightarrow> \<not> knownSignature c (hd (topics lg)))
            \<and> (byAddress (toLowerCase (address lg)) = None
                 \<longrightarrow> \<not> hasProperty byAddress (toLowerCase (address lg)))"
  then obtain this' where cb: "contractsByAddress this = (Inr byAddress, this')"
    by (cases "contractsByAddress this") auto
  have via: "(if addressesAreEqual (toLowerCase (address lg))
                   (options_address (perpetualProxy (contracts this)))
              then parseLogWithContract this (perpetualProxy (contracts this)) lg
              else Inr None) = Inr None"
    using a parseLogWithContract_unknown[of lg "perpetualProxy (contracts this)" this] by simp
  show "fst (parseLog this lg) = Inr None"
  proof (cases "byAddress (toLowerCase (address lg))")
    case None
    then show ?thesis using a cb via by (simp add: parseLog_def)
  next
    case (Some c)
    then have "parseLogWithContract this' c lg = Inr None"
      using a parseLogWithContract_unknown[of lg c this'] by simp
    then show ?thesis using cb via Some by (simp add: parseLog_def hasProperty_def)
  qed
next
  show "(\<exists>m. fst (contractsByAddress this) = Inr m)
            = (priv_contractsByAddress this \<noteq> None
               \<or> \<not> list_ex undeployed (contractsList (contracts this)))"
    by (rule registry_available)
next
  assume "priv_contractsByAddress this = None
            \<and> list_ex undeployed (contractsList (contracts this))
            \<and> (addressesAreEqual (toLowerCase (address lg))
                  (options_address (perpetualProxy (contracts this)))
                \<longrightarrow> topics lg \<noteq> []
                    \<and> \<not> knownSignature (perpetualProxy (contracts this)) (hd (topics lg)))"
  then show "fst (parseLog this lg) = Inl ContractNotDeployed"
    using parseLog_registry_unavailable[of this lg] by blast
qed

theorem parseLog_absent_witness:
  "plainKeys (contractsList (contracts (exampleLogs deployedList)))
   \<and> fst (contractsByAddress (exampleLogs deployedList))
       = Inr (snd (buildContractsByAddress deployedList Map.empty))
   \<and> \<not> addressesAreEqual (toLowerCase (address unrelatedLog))
         (options_address (perpetualProxy (contracts (exampleLogs deployedList))))
   \<and> \<not> hasProperty (snd (buildContractsByAddress deployedList Map.empty))
         (toLowerCase (address unrelatedLog))
   \<and> fst (parseLog (exampleLogs deployedList) unrelatedLog) = Inr None
   \<and> topics proxyLogUnknownTopic \<noteq> []
   \<and> addressesAreEqual (toLowerCase (address proxyLogUnknownTopic))
         (options_address (perpetualProxy (contracts (exampleLogs deployedList))))
   \<and> \<not> knownSignature proxyContract (hd (topics proxyLogUnknownTopic))
   \<and> snd (buildContractsByAddress deployedList Map.empty)
         (toLowerCase (address proxyLogUnknownTopic)) = Some v1Contract
   \<and> \<not> knownSignature v1Contract (hd (topics proxyLogUnknownTopic))
   \<and> fst (parseLog (exampleLogs deployedList) proxyLogUnknownTopic) = Inr None
   \<and> plainKeys (contractsList (contracts (exampleLogs partlyDeployedList)))
   \<and> priv_contractsByAddress (exampleLogs partlyDeployedList) = None
   \<and> list_ex undeployed (contractsList (contracts (exampleLogs partlyDeployedList)))
   \<and> fst (parseLog (exampleLogs partlyDeployedList) proxyLogUnknownTopic)
       = Inl ContractNotDeployed"
proof -
  have n: "priv_contractsByAddress (exampleLogs cl) = None" for cl
    by (simp add: exampleLogs_def)
  have c: "contractsList (contracts (exampleLogs cl)) = cl" for cl
    by (simp add: exampleLogs_def exampleContracts_def)
  have d: "\<not> list_ex undeployed deployedList" and pd: "plainKeys deployedList" by code_simp+
  have u: "list_ex undeployed partlyDeployedList" and pp: "plainKeys partlyDeployedList"
    by code_simp+
  have pd': "plainKeys (contractsList (contracts (exampleLogs deployedList)))"
    and pp': "plainKeys (contractsList (contracts (exampleLogs partlyDeployedList)))"
    using pd pp by (simp_all add: c)
  have reg: "fst (contractsByAddress (exampleLogs deployedList))
             = Inr (snd (buildContractsByAddress deployedList Map.empty))"
    using contractsByAddress_unbuilt[OF n, of deployedList] d by (simp add: c)
  have px: "perpetualProxy (contracts (exampleLogs cl)) = proxyContract" for cl
    by (simp add: exampleLogs_def exampleContracts_def)
  have a1: "\<not> addressesAreEqual (toLowerCase (address unrelatedLog)) (options_address proxyContract)"
    by code_simp
  have a2: "\<not> hasProperty (snd (buildContractsByAddress deployedList Map.empty))
                 (toLowerCase (address unrelatedLog))"
    by code_simp
  have b1: "topics proxyLogUnknownTopic \<noteq> []" by code_simp
  have b2: "addressesAreEqual (toLowerCase (address proxyLogUnknownTopic))
              (options_address proxyContract)"
    by code_simp
  have b3: "\<not> knownSignature proxyContract (hd (topics proxyLogUnknownTopic))" by code_simp
  have b4: "snd (buildContractsByAddress deployedList Map.empty)
              (toLowerCase (address proxyLogUnknownTopic)) = Some v1Contract"
    by code_simp
  have b5: "\<not> knownSignature v1Contract (hd (topics proxyLogUnknownTopic))" by code_simp
  have r1: "fst (parseLog (exampleLogs deployedList) unrelatedLog) = Inr None"
    using parseLog_absent[OF pd', of "snd (buildContractsByAddress deployedList Map.empty)"
        unrelatedLog] reg a1 a2
    by (simp add: px)
  have r2: "fst (parseLog (exampleLogs deployedList) proxyLogUnknownTopic) = Inr None"
    using parseLog_absent[OF pd', of "snd (buildContractsByAddress deployedList Map.empty)"
        proxyLogUnknownTopic] reg b1 b2 b3 b4 b5
    by (simp add: px)
  have r3: "fst (parseLog (exampleLogs partlyDeployedList) proxyLogUnknownTopic)
            = Inl ContractNotDeployed"
    using parseLog_absent[OF pp', of Map.empty proxyLogUnknownTopic] n u b1 b2 b3
    by (simp add: px c)
  show ?thesis
    using pd pp reg a1 a2 r1 b1 b2 b3 b4 b5 r2 n u r3 by (simp add: px c)
qed

text \<open>The claim as written fails where the registry cannot be built: the log below comes
  from an address that is neither the proxy's nor one of a registered contract, and
  \<open>parseLog\<close> throws.\<close>

theorem parseLog_unrelated_counterexample:
  "\<not> addressesAreEqual (toLowerCase (address unrelatedLog))
       (options_address (perpetualProxy (contracts (exampleLogs partlyDeployedList))))
   \<and> snd (buildContractsByAddress partlyDeployedList Map.empty)
        (toLowerCase (address unrelatedLog)) = None
   \<and> fst (parseLog (exampleLogs partlyDeployedList) unrelatedLog) = Inl ContractNotDeployed"
  by code_simp

text \<open>The \<open>in\<close> test also holds for the names the registry object inherits. A log whose
  lower-cased address is such a name, and not a key, is handed to \<open>parseLogWithContract\<close>
  with a member of \<open>Object.prototype\<close> in place of a contract, which ends in a
  \<open>TypeError\<close>.\<close>

lemma parseLog_inherited_name:
  assumes "fst (contractsByAddress this) = Inr byAddress"
    "\<not> addressesAreEqual (toLowerCase (address lg))
         (options_address (perpetualProxy (contracts this)))"
    "byAddress (toLowerCase (address lg)) = None"
    "toLowerCase (address lg) \<in> set objectPrototypeKeys"
  shows "fst (parseLog this lg) = Inl TypeError"
proof -
  obtain this' where cb: "contractsByAddress this = (Inr byAddress, this')"
    using assms(1) by (cases "contractsByAddress this") auto
  show ?thesis
    using assms(2-4) cb by (simp add: parseLog_def hasProperty_def)
qed

lemma parseLog_constructor_example:
  "fst (parseLog (exampleLogs deployedList) (unrelatedLog\<lparr>address := ''Constructor''\<rparr>))
   = Inl TypeError"
  by code_simp

text \<open>On the same contracts with every deployment in place, a log of the implementation
  contract at the shared address is decoded through the fallback from the proxy.\<close>

lemma parseLog_deposit_example:
  "fst (parseLog (exampleLogs deployedList) depositLog)
   = Inr (Some (Log.extend depositLog
       (ParsedLog.fields ''LogDeposit''
          [(''account'', PVerbatim (AStr ''0x00c1'')),
           (''amount'', PBigNumber (BN 250)),
           (''balance'',
            PBalance \<lparr>margin = BN 15, position = BN (- 2),
              balance_rawValue =
                ''0x0100000000000000000000000000000f00000000000000000000000000000002''\<rparr>)])))"
  by code_simp

text \<open>
  C10. A receipt with neither a \<open>logs\<close> list nor an \<open>events\<close> map makes \<open>parseLogs\<close>
  throw \<open>Receipt has no logs\<close>; nothing is decoded and the decoder is left as it was.
\<close>

theorem parseLogs_no_logs:
  assumes "logs receipt = None" "events receipt = None"
  shows "parseLogs this receipt = (Inl ReceiptHasNoLogs, this)"
  using assms by (simp add: parseLogs_def)

theorem parseLogs_no_logs_witness:
  "logs receipt21000 = None \<and> events receipt21000 = None
   \<and> parseLogs (exampleLogs deployedList) receipt21000
       = (Inl ReceiptHasNoLogs, exampleLogs deployedList)"
proof -
  have l: "logs receipt21000 = None" and e: "events receipt21000 = None"
    by (simp_all add: receipt21000_def emptyResult_def)
  from parseLogs_no_logs[OF l e, of "exampleLogs deployedList"] l e show ?thesis by simp
qed

text \<open>An empty \<open>logs\<close> list is not an error: it decodes to the empty sequence.\<close>

lemma parseLogs_empty_logs:
  "logs receipt = Some [] \<Longrightarrow> parseLogs this receipt = (Inr [], this)"
  by (simp add: parseLogs_def)

subsection \<open>Events come out in log order\<close>

text \<open>On the \<open>events\<close> path the decoded logs are in ascending \<open>logIndex\<close> order,
  and each of them is one of the receipt's events.\<close>

lemma parseLogWithContract_logIndex:
  "parseLogWithContract this c lg = Inr (Some p) \<Longrightarrow> logIndex p = logIndex lg"
  by (auto simp: parseLogWithContract_def Let_def Log.defs ParsedLog.defs
      split: if_splits list.splits option.splits sum.splits)

lemma parseLog_logIndex:
  assumes "fst (parseLog this lg) = Inr (Some p)"
  shows "logIndex p = logIndex lg"
proof -
  obtain r this' where cb: "contractsByAddress this = (r, this')"
    by (cases "contractsByAddress this") auto
  show ?thesis
    using assms parseLogWithContract_logIndex[of this "perpetualProxy (contracts this)" lg p]
      parseLogWithContract_logIndex[of this' _ lg p]
    by (auto simp: parseLog_def Let_def cb split: if_splits sum.splits option.splits)
qed

lemma mapParseLog_sorted:
  assumes "mapParseLog this ls = (Inr ps, this')" "sorted (map logIndex ls)"
  shows "sorted (map logIndex (dropNulls ps))
         \<and> set (map logIndex (dropNulls ps)) \<subseteq> set (map logIndex ls)"
  using assms
proof (induction ls arbitrary: this ps this')
  case Nil
  then show ?case by simp
next
  case (Cons l ls)
  obtain r t1 where pl: "parseLog this l = (r, t1)" by (cases "parseLog this l") auto
  with Cons.prems(1) obtain x where r: "r = Inr x"
    by (cases r) auto
  obtain r2 t2 where ml: "mapParseLog t1 ls = (r2, t2)" by (cases "mapParseLog t1 ls") auto
  with Cons.prems(1) pl r obtain xs where r2: "r2 = Inr xs" and ps: "ps = x # xs"
    by (cases r2) auto
  have s: "sorted (map logIndex ls)" using Cons.prems(2) by simp
  have ih: "sorted (map logIndex (dropNulls xs))
            \<and> set (map logIndex (dropNulls xs)) \<subseteq> set (map logIndex ls)"
    by (rule Cons.IH[OF ml[unfolded r2] s])
  show ?case
  proof (cases x)
    case None
    then show ?thesis using ih ps by auto
  next
    case (Some p)
    have "logIndex p = logIndex l"
      using parseLog_logIndex[of this l p] pl r Some by simp
    then show ?thesis
      using ih ps Some Cons.prems(2) by auto
  qed
qed

lemma map_logIndex_eventToLog: "map logIndex (map eventToLog evs) = map ev_logIndex evs"
  by (simp add: eventToLog_def comp_def)

lemma parseLogs_events_sorted:
  assumes "logs receipt = None" "events receipt = Some tempEvents"
    "fst (parseLogs this receipt) = Inr parsed"
  shows "sorted (map logIndex parsed)
         \<and> set (map logIndex parsed) \<subseteq> set (map ev_logIndex (flattenEvents tempEvents))"
proof -
  define ls where "ls = map eventToLog (sort_key ev_logIndex (flattenEvents tempEvents))"
  obtain r t where m: "mapParseLog this ls = (r, t)" by (cases "mapParseLog this ls") auto
  with assms obtain ps where r: "r = Inr ps" and p: "parsed = dropNulls ps"
    by (cases r) (auto simp: parseLogs_def ls_def)
  have e: "map logIndex ls = map ev_logIndex (sort_key ev_logIndex (flattenEvents tempEvents))"
    unfolding ls_def by (rule map_logIndex_eventToLog)
  have "sorted (map logIndex ls)"
    unfolding e by (rule sorted_sort_key)
  from mapParseLog_sorted[OF m[unfolded r] this] show ?thesis
    unfolding p e by simp
qed

lemma parseLogs_events_example:
  "fst (parseLogs (exampleLogs deployedList) eventsReceipt) = Inr eventsParsed"
  by code_simp

lemma parseLogs_events_sorted_example:
  "logs eventsReceipt = None
   \<and> events eventsReceipt
       = Some [(''LogDeposit'', Many [depositEventAt 5, depositEventAt 2]),
               (''Transfer'', One transferEvent)]
   \<and> fst (parseLogs (exampleLogs deployedList) eventsReceipt) = Inr eventsParsed
   \<and> map logIndex eventsParsed = [2, 5]
   \<and> sorted (map logIndex eventsParsed)
   \<and> set (map logIndex eventsParsed)
       \<subseteq> set (map ev_logIndex (flattenEvents
            [(''LogDeposit'', Many [depositEventAt 5, depositEventAt 2]),
             (''Transfer'', One transferEvent)]))"
proof -
  have l: "logs eventsReceipt = None" by (simp add: eventsReceipt_def emptyResult_def)
  have e: "events eventsReceipt
           = Some [(''LogDeposit'', Many [depositEventAt 5, depositEventAt 2]),
                   (''Transfer'', One transferEvent)]"
    by (simp add: eventsReceipt_def emptyResult_def)
  have p: "fst (parseLogs (exampleLogs deployedList) eventsReceipt) = Inr eventsParsed"
    by code_simp
  have m: "map logIndex eventsParsed = [2, 5]"
    by (simp add: eventsParsed_def eventToLog_def depositEventAt_def Log.defs ParsedLog.defs)
  from parseLogs_events_sorted[OF l e p] l e p m show ?thesis by simp
qed

section \<open>The two races of a submission\<close>

subsection \<open>What every reachable state satisfies\<close>

lemma wellFormed_afterBroadcast: "ct \<noteq> Simulate \<Longrightarrow> wellFormed ct (afterBroadcast ct)"
  by (cases ct) (simp_all add: wellFormed_def afterBroadcast_def afterHash_def settled_def)

lemma wellFormed_off: "wellFormed ct s \<Longrightarrow> confirmationPromise s \<noteq> Some Pending \<Longrightarrow> wellFormed ct (off peer s)"
  by (auto simp: wellFormed_def off_def)

lemma wellFormed_hashOnError:
  "wellFormed ct s \<Longrightarrow> hashListeners s \<Longrightarrow> wellFormed ct (hashOnError peer e s)"
  by (cases ct) (auto simp: wellFormed_def hashOnError_def off_def settled_def reject_def
      split: option.splits promise.splits)

lemma wellFormed_hashOnTransactionHash:
  "wellFormed ct s \<Longrightarrow> hashListeners s \<Longrightarrow> wellFormed ct (hashOnTransactionHash peer ct h s)"
  by (cases ct) (auto simp: wellFormed_def hashOnTransactionHash_def off_def settled_def resolve_def Let_def
      split: option.splits promise.splits)

lemma wellFormed_confirmationOnError:
  "wellFormed ct s \<Longrightarrow> confirmationListeners s \<Longrightarrow> wellFormed ct (confirmationOnError peer ct e s)"
  by (cases ct) (auto simp: wellFormed_def confirmationOnError_def off_def settled_def reject_def
      split: option.splits promise.splits)

lemma wellFormed_confirmationOnConfirmation:
  "wellFormed ct s \<Longrightarrow> confirmationListeners s
     \<Longrightarrow> wellFormed ct (confirmationOnConfirmation peer k n r s)"
  by (cases ct) (auto simp: wellFormed_def confirmationOnConfirmation_def off_def settled_def resolve_def
      split: option.splits promise.splits)

lemma wellFormed_confirmationOnReceipt:
  "wellFormed ct s \<Longrightarrow> confirmationListeners s \<Longrightarrow> wellFormed ct (confirmationOnReceipt peer r s)"
  by (cases ct) (auto simp: wellFormed_def confirmationOnReceipt_def off_def settled_def resolve_def
      split: option.splits promise.splits)


lemma wellFormed_deliverHash:
  "wellFormed ct s \<Longrightarrow> wellFormed ct (deliverHash peer ct sig s)"
  by (cases sig) (simp_all add: deliverHash_def wellFormed_hashOnError wellFormed_hashOnTransactionHash)

lemma wellFormed_deliverConfirmation:
  "wellFormed ct s \<Longrightarrow> wellFormed ct (deliverConfirmation peer ct k sig s)"
  by (cases sig) (simp_all add: deliverConfirmation_def wellFormed_confirmationOnError
        wellFormed_confirmationOnConfirmation wellFormed_confirmationOnReceipt)

lemma wellFormed_deliver:
  "wellFormed ct s \<Longrightarrow> wellFormed ct (deliver peer ct k sig s)"
  by (simp add: deliver_def wellFormed_deliverHash wellFormed_deliverConfirmation)

lemma wellFormed_resume:
  assumes "wellFormed ct s"
  shows "wellFormed ct (resume ct s)"
  using assms
  by (cases ct)
     (auto simp: wellFormed_def resume_def afterHash_def settled_def
       split: option.splits promise.splits)

lemma wellFormed_step: "wellFormed ct s \<Longrightarrow> wellFormed ct (step peer ct k s ev)"
  by (cases ev) (simp_all add: step_def wellFormed_deliver wellFormed_resume)

lemma wellFormed_run: "wellFormed ct s \<Longrightarrow> wellFormed ct (run peer ct k s evs)"
  unfolding run_def by (induction evs arbitrary: s) (simp_all add: wellFormed_step)


lemma hashPromise_step:
  "settled (hashPromise s) \<Longrightarrow> hashPromise (step peer ct k s ev) = hashPromise s"
  by (auto simp: step_def deliver_def deliverHash_def deliverConfirmation_def hashOnError_def
      hashOnTransactionHash_def confirmationOnError_def confirmationOnConfirmation_def
      confirmationOnReceipt_def off_def resume_def afterHash_def settled_def resolve_def
      reject_def Let_def split: event.splits signal.splits option.splits promise.splits)

lemma hashOutcome_step:
  "hashOutcome s \<noteq> INITIAL \<Longrightarrow> hashOutcome (step peer ct k s ev) = hashOutcome s"
  by (auto simp: step_def deliver_def deliverHash_def deliverConfirmation_def hashOnError_def
      hashOnTransactionHash_def confirmationOnError_def confirmationOnConfirmation_def
      confirmationOnReceipt_def off_def resume_def afterHash_def Let_def
      split: event.splits signal.splits option.splits promise.splits)

lemma confirmationPromise_step:
  "wellFormed ct s \<Longrightarrow> settled (confirmationPromise s)
     \<Longrightarrow> confirmationPromise (step peer ct k s ev) = confirmationPromise s"
  by (auto simp: step_def deliver_def deliverHash_def deliverConfirmation_def hashOnError_def
      hashOnTransactionHash_def confirmationOnError_def confirmationOnConfirmation_def
      confirmationOnReceipt_def off_def resume_def afterHash_def settled_def resolve_def
      reject_def Let_def wellFormed_def
      split: event.splits signal.splits option.splits promise.splits)

lemma confirmationOutcome_step:
  "confirmationOutcome s \<noteq> INITIAL \<Longrightarrow> confirmationOutcome (step peer ct k s ev) \<noteq> INITIAL"
  by (auto simp: step_def deliver_def deliverHash_def deliverConfirmation_def hashOnError_def
      hashOnTransactionHash_def confirmationOnError_def confirmationOnConfirmation_def
      confirmationOnReceipt_def off_def resume_def afterHash_def Let_def
      split: event.splits signal.splits option.splits promise.splits)

lemma returned_deliver: "returned (deliver peer ct k sig s) = returned s"
  by (cases sig)
     (auto simp: deliver_def deliverHash_def deliverConfirmation_def hashOnError_def
       hashOnTransactionHash_def confirmationOnError_def confirmationOnConfirmation_def
       confirmationOnReceipt_def off_def Let_def)

subsection \<open>A settled race stays settled\<close>

lemmas handler_defs =
  step_def deliver_def deliverHash_def deliverConfirmation_def hashOnError_def
  hashOnTransactionHash_def confirmationOnError_def confirmationOnConfirmation_def
  confirmationOnReceipt_def off_def resume_def afterHash_def Let_def

lemma awaiting_initial:
  "wellFormed ct s \<Longrightarrow> awaitingHash s \<Longrightarrow> confirmationOutcome s = INITIAL"
  by (auto simp: wellFormed_def settled_def)

lemma detachedOnSettle_deliver:
  "detachedOnSettle peer s \<Longrightarrow> detachedOnSettle peer (deliver peer ct k sig s)"
  by (cases sig)
     (auto simp: deliver_def deliverHash_def deliverConfirmation_def hashOnError_def
       hashOnTransactionHash_def confirmationOnError_def confirmationOnConfirmation_def
       confirmationOnReceipt_def off_def Let_def detachedOnSettle_def)

lemma detachedOnSettle_resume:
  "wellFormed ct s \<Longrightarrow> detachedOnSettle peer s \<Longrightarrow> detachedOnSettle peer (resume ct s)"
  using awaiting_initial[of ct s]
  by (auto simp: resume_def afterHash_def Let_def detachedOnSettle_def
      split: option.splits promise.splits)

lemma detachedOnSettle_step:
  "wellFormed ct s \<Longrightarrow> detachedOnSettle peer s \<Longrightarrow> detachedOnSettle peer (step peer ct k s ev)"
  by (cases ev) (simp_all add: step_def detachedOnSettle_deliver detachedOnSettle_resume)

lemma confirmationOutcome_step_detached:
  "detachedOnSettle peer s \<Longrightarrow> off_detaches peer \<Longrightarrow> confirmationOutcome s \<noteq> INITIAL
     \<Longrightarrow> confirmationOutcome (step peer ct k s ev) = confirmationOutcome s"
  by (cases ev; (cases "case ev of Signal sg \<Rightarrow> sg")?)
     (auto simp: handler_defs detachedOnSettle_def split: option.splits promise.splits signal.splits)

lemma detachedOnSettle_afterBroadcast: "detachedOnSettle peer (afterBroadcast ct)"
  by (simp add: detachedOnSettle_def afterBroadcast_def afterHash_def Let_def)

lemma run_Cons: "run peer ct k s (ev # evs) = run peer ct k (step peer ct k s ev) evs"
  by (simp add: run_def)

lemma run_append: "run peer ct k s (evs @ evs') = run peer ct k (run peer ct k s evs) evs'"
  by (simp add: run_def)

lemma detachedOnSettle_run:
  "wellFormed ct s \<Longrightarrow> detachedOnSettle peer s \<Longrightarrow> detachedOnSettle peer (run peer ct k s evs)"
proof (induction evs arbitrary: s)
  case Nil
  then show ?case by (simp add: run_def)
next
  case (Cons ev evs)
  then show ?case
    by (simp add: run_Cons wellFormed_step detachedOnSettle_step)
qed

lemma hash_race_stable:
  assumes "hashOutcome s \<noteq> INITIAL" "settled (hashPromise s)"
  shows "hashPromise (run peer ct k s evs) = hashPromise s
         \<and> hashOutcome (run peer ct k s evs) = hashOutcome s"
  using assms
proof (induction evs arbitrary: s)
  case Nil
  then show ?case by (simp add: run_def)
next
  case (Cons ev evs)
  have "hashOutcome (step peer ct k s ev) \<noteq> INITIAL" "settled (hashPromise (step peer ct k s ev))"
    using Cons.prems by (simp_all add: hashOutcome_step hashPromise_step)
  from Cons.IH[OF this] show ?case
    using Cons.prems by (simp add: run_Cons hashOutcome_step hashPromise_step)
qed

lemma confirmation_race_stable:
  assumes "wellFormed ct s" "confirmationOutcome s \<noteq> INITIAL"
  shows "confirmationPromise (run peer ct k s evs) = confirmationPromise s
         \<and> confirmationOutcome (run peer ct k s evs) \<noteq> INITIAL"
  using assms
proof (induction evs arbitrary: s)
  case Nil
  then show ?case by (simp add: run_def)
next
  case (Cons ev evs)
  have st: "settled (confirmationPromise s)"
    using Cons.prems by (simp add: wellFormed_def)
  have "wellFormed ct (step peer ct k s ev)" "confirmationOutcome (step peer ct k s ev) \<noteq> INITIAL"
    using Cons.prems by (simp_all add: wellFormed_step confirmationOutcome_step)
  from Cons.IH[OF this] show ?case
    using Cons.prems st by (simp add: run_Cons confirmationPromise_step)
qed

lemma confirmation_flag_stable_detached:
  assumes "wellFormed ct s" "detachedOnSettle peer s" "off_detaches peer"
    "confirmationOutcome s \<noteq> INITIAL"
  shows "confirmationOutcome (run peer ct k s evs) = confirmationOutcome s"
  using assms
proof (induction evs arbitrary: s)
  case Nil
  then show ?case by (simp add: run_def)
next
  case (Cons ev evs)
  have eq: "confirmationOutcome (step peer ct k s ev) = confirmationOutcome s"
    using Cons.prems by (simp add: confirmationOutcome_step_detached)
  have "wellFormed ct (step peer ct k s ev)" "detachedOnSettle peer (step peer ct k s ev)"
    "confirmationOutcome (step peer ct k s ev) \<noteq> INITIAL"
    using Cons.prems eq by (simp_all add: wellFormed_step detachedOnSettle_step)
  from Cons.IH[OF this(1,2) Cons.prems(3) this(3)] show ?case
    using eq by (simp add: run_Cons)
qed

lemma error_after_receipt:
  assumes "wellFormed ct s" "confirmationPromise s = Some (Fulfilled receipt)"
  shows "confirmationPromise (step peer ct k s (Signal (OnError e))) = Some (Fulfilled receipt)"
  using confirmationPromise_step[OF assms(1), of peer k "Signal (OnError e)"] assms(2)
  by (simp add: settled_def)

text \<open>
  Take any events after the broadcast, in any order and with any repetition, and any
  further events after them. Once the flag of the hash race has left \<open>INITIAL\<close>, its
  promise is settled and neither the promise nor the flag changes again. Once the flag of
  the confirmation race has left \<open>INITIAL\<close>, its promise is settled and keeps the value
  it settled with, and the flag never returns to \<open>INITIAL\<close>; where \<open>off\<close> detaches the
  listeners the flag itself does not change either. In particular an error signal after
  the confirmation race resolved with a receipt leaves the promise fulfilled with that
  receipt. This holds for both behaviours of \<open>off\<close>.
\<close>

lemma settled_races_stay:
  assumes "ct \<noteq> Simulate"
  shows "(let s = run peer ct k (afterBroadcast ct) evs; s' = run peer ct k s evs' in
          (hashOutcome s \<noteq> INITIAL \<longrightarrow>
             settled (hashPromise s) \<and> hashPromise s' = hashPromise s
             \<and> hashOutcome s' = hashOutcome s)
        \<and> (confirmationOutcome s \<noteq> INITIAL \<longrightarrow>
             settled (confirmationPromise s) \<and> confirmationPromise s' = confirmationPromise s
             \<and> confirmationOutcome s' \<noteq> INITIAL
             \<and> (off_detaches peer \<longrightarrow> confirmationOutcome s' = confirmationOutcome s))
        \<and> (confirmationPromise s = Some (Fulfilled receipt) \<longrightarrow>
             confirmationPromise (step peer ct k s (Signal (OnError e)))
               = Some (Fulfilled receipt)))"
proof -
  define s where "s = run peer ct k (afterBroadcast ct) evs"
  have wf: "wellFormed ct s"
    unfolding s_def by (rule wellFormed_run[OF wellFormed_afterBroadcast[OF assms]])
  have dt: "detachedOnSettle peer s"
    unfolding s_def
    by (rule detachedOnSettle_run[OF wellFormed_afterBroadcast[OF assms]
          detachedOnSettle_afterBroadcast])
  have h: "hashOutcome s \<noteq> INITIAL \<Longrightarrow> settled (hashPromise s)"
    using wf by (simp add: wellFormed_def)
  have c: "confirmationOutcome s \<noteq> INITIAL \<Longrightarrow> settled (confirmationPromise s)"
    using wf by (simp add: wellFormed_def)
  show ?thesis
    unfolding Let_def s_def[symmetric]
    using h hash_race_stable[of s peer ct k evs'] c
      confirmation_race_stable[OF wf, of peer k evs']
      confirmation_flag_stable_detached[OF wf dt, of k evs']
      error_after_receipt[OF wf, of receipt peer k e]
    by blast
qed

lemma settled_races_stay_example:
  "Both \<noteq> Simulate
   \<and> hashOutcome (run examplePeer Both (Some 0) (afterBroadcast Both)
        [Signal (OnTransactionHash ''0x1a''), Resume, Signal (OnReceipt receipt21000)])
       = RESOLVED
   \<and> confirmationOutcome (run examplePeer Both (Some 0) (afterBroadcast Both)
        [Signal (OnTransactionHash ''0x1a''), Resume, Signal (OnReceipt receipt21000)])
       = RESOLVED
   \<and> hashPromise (run examplePeer Both (Some 0)
        (run examplePeer Both (Some 0) (afterBroadcast Both)
           [Signal (OnTransactionHash ''0x1a''), Resume, Signal (OnReceipt receipt21000)])
        [Signal (OnError (Web3Error ''late'')), Signal (OnTransactionHash ''0x2b''),
         Signal (OnReceipt receipt45000)])
       = Some (Fulfilled ''0x1a'')
   \<and> confirmationPromise (run examplePeer Both (Some 0)
        (run examplePeer Both (Some 0) (afterBroadcast Both)
           [Signal (OnTransactionHash ''0x1a''), Resume, Signal (OnReceipt receipt21000)])
        [Signal (OnError (Web3Error ''late'')), Signal (OnTransactionHash ''0x2b''),
         Signal (OnReceipt receipt45000)])
       = Some (Fulfilled receipt21000)
   \<and> confirmationPromise (step examplePeer Both (Some 0)
        (run examplePeer Both (Some 0) (afterBroadcast Both)
           [Signal (OnTransactionHash ''0x1a''), Resume, Signal (OnReceipt receipt21000)])
        (Signal (OnError (Web3Error ''late''))))
       = Some (Fulfilled receipt21000)"
proof -
  define s where "s = run examplePeer Both (Some 0) (afterBroadcast Both)
        [Signal (OnTransactionHash ''0x1a''), Resume, Signal (OnReceipt receipt21000)]"
  have h: "hashOutcome s = RESOLVED" and c: "confirmationOutcome s = RESOLVED"
    and hp: "hashPromise s = Some (Fulfilled ''0x1a'')"
    and cp: "confirmationPromise s = Some (Fulfilled receipt21000)"
    unfolding s_def by code_simp+
  have "Both \<noteq> Simulate" by simp
  from settled_races_stay[OF this, of examplePeer "Some 0"
      "[Signal (OnTransactionHash ''0x1a''), Resume, Signal (OnReceipt receipt21000)]"
      "[Signal (OnError (Web3Error ''late'')), Signal (OnTransactionHash ''0x2b''),
        Signal (OnReceipt receipt45000)]" receipt21000 "Web3Error ''late''"]
  show ?thesis
    unfolding Let_def s_def[symmetric] using h c hp cp by simp
qed

text \<open>The flag of the confirmation race after it has left \<open>INITIAL\<close>: \<open>RESOLVED\<close> stays,
  whatever follows; \<open>REJECTED\<close> stays unless a \<open>receipt\<close> signal reaches the \<open>receipt\<close>
  listener, the one listener that does not test the flag, and then it becomes
  \<open>RESOLVED\<close>.\<close>

lemma resolved_flag_step:
  "confirmationOutcome s = RESOLVED \<Longrightarrow> confirmationOutcome (step peer ct k s ev) = RESOLVED"
  by (auto simp: handler_defs split: event.splits signal.splits option.splits promise.splits)

lemma resolved_flag_stable:
  "confirmationOutcome s = RESOLVED \<Longrightarrow> confirmationOutcome (run peer ct k s evs) = RESOLVED"
  by (induction evs arbitrary: s) (simp_all add: run_def resolved_flag_step)

lemma rejected_flag_step:
  assumes "confirmationOutcome s = REJECTED"
  shows "confirmationOutcome (step peer ct k s ev) = REJECTED
         \<or> (confirmationOutcome (step peer ct k s ev) = RESOLVED
            \<and> (\<exists>receipt. ev = Signal (OnReceipt receipt))
            \<and> confirmationListeners s \<and> \<not> truthy_nat k)"
  using assms
  by (auto simp: handler_defs split: event.splits signal.splits option.splits promise.splits
      if_splits)

lemma rejected_flag_run:
  assumes "confirmationOutcome s = REJECTED"
  shows "confirmationOutcome (run peer ct k s evs) = REJECTED
         \<or> (confirmationOutcome (run peer ct k s evs) = RESOLVED
            \<and> (\<exists>receipt. Signal (OnReceipt receipt) \<in> set evs) \<and> \<not> truthy_nat k)"
  using assms
proof (induction evs arbitrary: s)
  case Nil
  then show ?case by (simp add: run_def)
next
  case (Cons ev evs)
  from rejected_flag_step[OF Cons.prems, of peer ct k ev]
  show ?case
  proof
    assume "confirmationOutcome (step peer ct k s ev) = REJECTED"
    from Cons.IH[OF this] show ?thesis by (auto simp: run_Cons)
  next
    assume a: "confirmationOutcome (step peer ct k s ev) = RESOLVED
               \<and> (\<exists>receipt. ev = Signal (OnReceipt receipt))
               \<and> confirmationListeners s \<and> \<not> truthy_nat k"
    then have "confirmationOutcome (run peer ct k (step peer ct k s ev) evs) = RESOLVED"
      by (simp add: resolved_flag_stable)
    then show ?thesis using a by (auto simp: run_Cons)
  qed
qed

text \<open>
  C1 fails for the flag of the confirmation race. The \<open>receipt\<close> listener sets the flag
  and resolves without testing that the flag is still \<open>INITIAL\<close>, the test its sibling
  listeners make, and \<open>off\<close> called without arguments leaves the listeners attached. In
  mode \<open>Confirmed\<close> without a confirmation threshold, an error rejects the race, and a
  receipt signal after it takes the outcome state from \<open>REJECTED\<close> to \<open>RESOLVED\<close>,
  although the promise stays rejected with the error. Every other late signal is
  ignored, as the claim says: with a threshold, a confirmation after the error leaves the
  state \<open>REJECTED\<close>; an error after the receipt leaves the state \<open>RESOLVED\<close> and the
  promise fulfilled with that receipt; the hash race keeps its state under a late hash
  and a late error.
\<close>

theorem late_receipt_overwrites_outcome:
  "confirmationOutcome (run examplePeer Confirmed (Some 0) (afterBroadcast Confirmed)
      [Signal (OnError (Web3Error ''dropped''))]) = REJECTED
   \<and> confirmationPromise (run examplePeer Confirmed (Some 0) (afterBroadcast Confirmed)
      [Signal (OnError (Web3Error ''dropped''))]) = Some (Rejected (Web3Error ''dropped''))
   \<and> confirmationOutcome (run examplePeer Confirmed (Some 0) (afterBroadcast Confirmed)
      [Signal (OnError (Web3Error ''dropped'')), Signal (OnReceipt receipt21000)]) = RESOLVED
   \<and> confirmationPromise (run examplePeer Confirmed (Some 0) (afterBroadcast Confirmed)
      [Signal (OnError (Web3Error ''dropped'')), Signal (OnReceipt receipt21000)])
       = Some (Rejected (Web3Error ''dropped''))
   \<and> confirmationOutcome (run examplePeer Confirmed (Some 2) (afterBroadcast Confirmed)
      [Signal (OnError (Web3Error ''dropped'')), Signal (OnConfirmation 2 receipt21000)])
       = REJECTED
   \<and> confirmationOutcome (run examplePeer Confirmed (Some 2) (afterBroadcast Confirmed)
      [Signal (OnConfirmation 2 receipt21000), Signal (OnConfirmation 3 receipt45000),
       Signal (OnError (Web3Error ''late''))]) = RESOLVED
   \<and> confirmationPromise (run examplePeer Confirmed (Some 2) (afterBroadcast Confirmed)
      [Signal (OnConfirmation 2 receipt21000), Signal (OnConfirmation 3 receipt45000),
       Signal (OnError (Web3Error ''late''))]) = Some (Fulfilled receipt21000)
   \<and> confirmationOutcome (run examplePeer Confirmed (Some 0) (afterBroadcast Confirmed)
      [Signal (OnReceipt receipt21000), Signal (OnError (Web3Error ''late''))]) = RESOLVED
   \<and> confirmationPromise (run examplePeer Confirmed (Some 0) (afterBroadcast Confirmed)
      [Signal (OnReceipt receipt21000), Signal (OnError (Web3Error ''late''))])
       = Some (Fulfilled receipt21000)
   \<and> hashOutcome (run examplePeer Hash None (afterBroadcast Hash)
      [Signal (OnError (Web3Error ''dropped'')), Signal (OnTransactionHash ''0x1a'')])
       = REJECTED
   \<and> hashOutcome (run examplePeer Hash None (afterBroadcast Hash)
      [Signal (OnTransactionHash ''0x1a''), Signal (OnError (Web3Error ''late'')),
       Signal (OnTransactionHash ''0x2b'')]) = RESOLVED
   \<and> hashPromise (run examplePeer Hash None (afterBroadcast Hash)
      [Signal (OnTransactionHash ''0x1a''), Signal (OnError (Web3Error ''late'')),
       Signal (OnTransactionHash ''0x2b'')]) = Some (Fulfilled ''0x1a'')"
  by code_simp

text \<open>Where \<open>off\<close> detaches the listeners, the late receipt finds no listener.\<close>

lemma late_receipt_detached:
  "confirmationOutcome (run detachingPeer Confirmed (Some 0) (afterBroadcast Confirmed)
      [Signal (OnError (Web3Error ''dropped'')), Signal (OnReceipt receipt21000)]) = REJECTED"
  by code_simp

subsection \<open>When an error rejects the confirmation race\<close>

lemma pending_iff:
  "wellFormed ct s \<Longrightarrow>
     (confirmationPromise s = Some Pending) = (confirmationListeners s \<and> confirmationOutcome s = INITIAL)"
  by (auto simp: wellFormed_def settled_def split: option.splits promise.splits)

lemma error_on_pending:
  assumes "wellFormed ct s" "confirmationPromise s = Some Pending"
  shows "step peer ct k s (Signal (OnError e))
         = (if ct = Confirmed \<or> hashOutcome s = RESOLVED
            then off peer (s\<lparr>confirmationOutcome := REJECTED,
                             confirmationPromise := Some (Rejected e)\<rparr>)
            else s)"
proof -
  have l: "confirmationListeners s" "confirmationOutcome s = INITIAL"
    using pending_iff[OF assms(1)] assms(2) by simp_all
  have h: "deliverHash peer ct (OnError e) s = s"
    using assms by (cases ct) (auto simp: wellFormed_def deliverHash_def hashOnError_def settled_def)
  show ?thesis
    using l assms(2) by (simp add: step_def deliver_def h deliverConfirmation_def
        confirmationOnError_def reject_def)
qed

lemma both_pending_resolved:
  "wellFormed ct s \<Longrightarrow> ct = Both \<Longrightarrow> confirmationPromise s \<noteq> None \<Longrightarrow> hashOutcome s = RESOLVED"
  by (simp add: wellFormed_def)

lemma error_not_pending:
  assumes "wellFormed ct s" "confirmationPromise s \<noteq> Some Pending"
  shows "confirmationPromise (step peer ct k s (Signal (OnError e))) = confirmationPromise s
         \<and> confirmationOutcome (step peer ct k s (Signal (OnError e))) = confirmationOutcome s"
proof (cases "confirmationPromise s")
  case None
  then have "\<not> confirmationListeners s" "\<not> confirmationListeners (deliverHash peer ct (OnError e) s)"
    "confirmationPromise (deliverHash peer ct (OnError e) s) = None"
    "confirmationOutcome (deliverHash peer ct (OnError e) s) = confirmationOutcome s"
    using assms(1) by (auto simp: wellFormed_def deliverHash_def hashOnError_def off_def)
  then show ?thesis using None
    by (simp add: step_def deliver_def deliverConfirmation_def)
next
  case (Some p)
  then have st: "settled (confirmationPromise s)" "confirmationOutcome s \<noteq> INITIAL"
    using assms by (cases p; auto simp: settled_def wellFormed_def)+
  have "confirmationOutcome (deliverHash peer ct (OnError e) s) = confirmationOutcome s"
    by (auto simp: deliverHash_def hashOnError_def off_def)
  then have "confirmationOutcome (step peer ct k s (Signal (OnError e))) = confirmationOutcome s"
    using st(2) by (auto simp: step_def deliver_def deliverConfirmation_def confirmationOnError_def)
  then show ?thesis
    using confirmationPromise_step[OF assms(1) st(1), of peer k "Signal (OnError e)"] by simp
qed

lemma returned_error_step:
  assumes "wellFormed ct s" "\<And>e. returned s = Some (Inl e) \<Longrightarrow> hashOutcome s = REJECTED"
    "returned (step peer ct k s ev) = Some (Inl e)"
  shows "hashOutcome (step peer ct k s ev) = REJECTED"
proof (cases ev)
  case (Signal sig)
  then have "returned s = Some (Inl e)"
    using assms(3) by (simp add: step_def returned_deliver)
  then have "hashOutcome s = REJECTED" by (rule assms(2))
  then show ?thesis
    using hashOutcome_step[of s peer ct k ev] by simp
next
  case Resume
  show ?thesis
  proof (cases "returned s = Some (Inl e)")
    case True
    then have "hashOutcome s = REJECTED" by (rule assms(2))
    then show ?thesis using hashOutcome_step[of s peer ct k ev] by simp
  next
    case False
    then have "hashPromise s = Some (Rejected e)"
      using assms(3) Resume
      by (cases ct)
         (auto simp: step_def resume_def afterHash_def split: if_splits option.splits promise.splits)
    then have "hashOutcome s = REJECTED"
      using assms(1) by (cases "hashOutcome s") (auto simp: wellFormed_def settled_def)
    then show ?thesis using hashOutcome_step[of s peer ct k ev] by simp
  qed
qed

lemma returned_error_run:
  assumes "wellFormed ct s" "\<And>e. returned s = Some (Inl e) \<Longrightarrow> hashOutcome s = REJECTED"
    "returned (run peer ct k s evs) = Some (Inl e)"
  shows "hashOutcome (run peer ct k s evs) = REJECTED"
  using assms
proof (induction evs arbitrary: s e)
  case Nil
  then show ?case by (simp add: run_def)
next
  case (Cons ev evs)
  have wf: "wellFormed ct (step peer ct k s ev)"
    using Cons.prems(1) by (rule wellFormed_step)
  have inv: "\<And>e. returned (step peer ct k s ev) = Some (Inl e)
               \<Longrightarrow> hashOutcome (step peer ct k s ev) = REJECTED"
    using returned_error_step[OF Cons.prems(1)] Cons.prems(2) by blast
  show ?case
    using Cons.IH[OF wf inv] Cons.prems(3) by (simp add: run_Cons)
qed

lemma both_attached_iff:
  assumes "ct \<noteq> Simulate" "ct = Both"
    "hashOutcome (run peer ct k (afterBroadcast ct) evs) = RESOLVED"
    "confirmationOutcome (run peer ct k (afterBroadcast ct) evs) = INITIAL"
  shows "confirmationListeners (run peer ct k (afterBroadcast ct) evs)
         = (\<not> awaitingHash (run peer ct k (afterBroadcast ct) evs))"
proof -
  define s where "s = run peer ct k (afterBroadcast ct) evs"
  note assms = assms(1,2) assms(3,4)[folded s_def]
  have wf: "wellFormed ct s"
    unfolding s_def by (rule wellFormed_run[OF wellFormed_afterBroadcast[OF assms(1)]])
  have r0: "returned (afterBroadcast ct) = Some (Inl e) \<Longrightarrow> hashOutcome (afterBroadcast ct) = REJECTED" for e
    using assms(2) by (simp add: afterBroadcast_def)
  have re: "returned s = Some (Inl e) \<Longrightarrow> hashOutcome s = REJECTED" for e
    unfolding s_def
    using returned_error_run[OF wellFormed_afterBroadcast[OF assms(1)], of peer k evs e] r0
    by blast
  have "confirmationListeners s = (\<not> awaitingHash s)"
  proof (cases "awaitingHash s")
    case True
    then have "confirmationPromise s = None" using wf by (simp add: wellFormed_def)
    then have "\<not> confirmationListeners s" using wf by (auto simp: wellFormed_def)
    then show ?thesis using True by simp
  next
    case False
    have "confirmationPromise s \<noteq> None"
    proof
      assume n: "confirmationPromise s = None"
      then have "\<exists>e. returned s = Some (Inl e)"
        using wf False assms(2) by (auto simp: wellFormed_def)
      then show False using re assms(3) by auto
    qed
    then have "confirmationPromise s = Some Pending"
      using wf assms(4) by (cases "confirmationPromise s"; cases "the (confirmationPromise s)")
        (auto simp: wellFormed_def settled_def)
    then show ?thesis using pending_iff[OF wf] False by simp
  qed
  then show ?thesis by (simp add: s_def)
qed

lemma error_dropped_while_awaiting:
  assumes "wellFormed ct s" "hashOutcome s = RESOLVED" "awaitingHash s"
  shows "step peer ct k s (Signal (OnError e)) = s"
proof -
  have "confirmationPromise s = None" using assms by (simp add: wellFormed_def)
  then have l: "\<not> confirmationListeners s" using assms(1) by (auto simp: wellFormed_def)
  have h: "deliverHash peer ct (OnError e) s = s"
    using assms(2) by (simp add: deliverHash_def hashOnError_def)
  show ?thesis
    using l by (simp add: step_def deliver_def h deliverConfirmation_def)
qed

text \<open>
  C3, as the code has it. In every state a submission reaches, an error signal rejects
  the confirmation race (its flag goes from \<open>INITIAL\<close> to \<open>REJECTED\<close> and its promise
  from pending to rejected with that error) if and only if the listeners of the race
  are attached, the race is still pending, and the mode is \<open>Confirmed\<close>, or \<open>Both\<close>
  with the hash race resolved; any other error leaves the race as it is. In mode
  \<open>Confirmed\<close> the listeners are attached as long as the race is pending. In mode
  \<open>Both\<close> they are attached only when \<open>_send\<close> has gone on after \<open>await hashPromise\<close>:
  before the hash race has resolved the confirmation race does not exist and an error
  leaves it so; once \<open>_send\<close> has gone on, an error on the pending race rejects it while
  the hash race stays resolved with its hash; an error that arrives after the hash race
  resolved and before \<open>_send\<close> has gone on changes nothing at all.
\<close>

theorem error_rejects_confirmation_iff:
  assumes "ct \<noteq> Simulate"
  shows "(let s = run peer ct k (afterBroadcast ct) evs;
              s' = step peer ct k s (Signal (OnError e)) in
          ((confirmationOutcome s = INITIAL \<and> confirmationOutcome s' = REJECTED)
             = (confirmationListeners s \<and> confirmationOutcome s = INITIAL
                \<and> (ct = Confirmed \<or> (ct = Both \<and> hashOutcome s = RESOLVED))))
        \<and> (confirmationOutcome s = INITIAL \<and> confirmationOutcome s' = REJECTED
             \<longrightarrow> confirmationPromise s = Some Pending
                 \<and> confirmationPromise s' = Some (Rejected e))
        \<and> (\<not> (confirmationOutcome s = INITIAL \<and> confirmationOutcome s' = REJECTED)
             \<longrightarrow> confirmationPromise s' = confirmationPromise s
                 \<and> confirmationOutcome s' = confirmationOutcome s)
        \<and> ((confirmationPromise s = Some Pending \<and> confirmationPromise s' = Some (Rejected e))
             = (confirmationPromise s = Some Pending
                \<and> (ct = Confirmed \<or> (ct = Both \<and> hashOutcome s = RESOLVED))))
        \<and> ((confirmationPromise s = Some Pending)
             = (confirmationListeners s \<and> confirmationOutcome s = INITIAL))
        \<and> (ct = Confirmed \<and> confirmationOutcome s = INITIAL \<longrightarrow> confirmationListeners s)
        \<and> (ct = Both \<and> hashOutcome s = RESOLVED \<and> confirmationOutcome s = INITIAL
             \<longrightarrow> confirmationListeners s = (\<not> awaitingHash s))
        \<and> (awaitingHash s \<longrightarrow> \<not> confirmationListeners s \<and> confirmationPromise s = None)
        \<and> (ct = Both \<and> hashOutcome s \<noteq> RESOLVED
             \<longrightarrow> confirmationPromise s = None \<and> confirmationPromise s' = None
                 \<and> confirmationOutcome s' = INITIAL)
        \<and> (ct = Both \<and> hashOutcome s = RESOLVED \<and> confirmationOutcome s = INITIAL
               \<and> \<not> awaitingHash s
             \<longrightarrow> confirmationPromise s' = Some (Rejected e) \<and> confirmationOutcome s' = REJECTED
                 \<and> hashOutcome s' = RESOLVED \<and> hashPromise s' = hashPromise s
                 \<and> (\<exists>txHash. hashPromise s' = Some (Fulfilled txHash)))
        \<and> (ct = Both \<and> hashOutcome s = RESOLVED \<and> awaitingHash s \<longrightarrow> s' = s))"
proof -
  define s where "s = run peer ct k (afterBroadcast ct) evs"
  define s' where "s' = step peer ct k s (Signal (OnError e))"
  have wf: "wellFormed ct s"
    unfolding s_def by (rule wellFormed_run[OF wellFormed_afterBroadcast[OF assms]])
  have p: "confirmationPromise s = Some Pending \<Longrightarrow>
           s' = (if ct = Confirmed \<or> hashOutcome s = RESOLVED
                 then off peer (s\<lparr>confirmationOutcome := REJECTED,
                                  confirmationPromise := Some (Rejected e)\<rparr>)
                 else s)"
    unfolding s'_def by (rule error_on_pending[OF wf])
  have np: "confirmationPromise s \<noteq> Some Pending \<Longrightarrow>
            confirmationPromise s' = confirmationPromise s \<and> confirmationOutcome s' = confirmationOutcome s"
    unfolding s'_def by (rule error_not_pending[OF wf])
  have ct: "ct = Hash \<or> ct = Confirmed \<or> ct = Both"
    using assms by (cases ct) simp_all
  have hashct: "ct = Hash \<Longrightarrow> confirmationPromise s = None"
    using wf by (simp add: wellFormed_def)
  have c2: "(confirmationPromise s = Some Pending)
             = (confirmationListeners s \<and> confirmationOutcome s = INITIAL)"
    by (rule pending_iff[OF wf])
  have c1: "(confirmationPromise s = Some Pending \<and> confirmationPromise s' = Some (Rejected e))
             = (confirmationPromise s = Some Pending
                \<and> (ct = Confirmed \<or> (ct = Both \<and> hashOutcome s = RESOLVED)))"
    using p ct hashct by (auto simp: off_def split: if_splits)
  have c3: "confirmationPromise s = Some Pending \<and> confirmationPromise s' = Some (Rejected e)
             \<longrightarrow> confirmationOutcome s' = REJECTED"
    using p by (auto simp: off_def split: if_splits)
  have f1: "(confirmationOutcome s = INITIAL \<and> confirmationOutcome s' = REJECTED)
             = (confirmationListeners s \<and> confirmationOutcome s = INITIAL
                \<and> (ct = Confirmed \<or> (ct = Both \<and> hashOutcome s = RESOLVED)))"
  proof (cases "confirmationPromise s = Some Pending")
    case True
    then have i: "confirmationListeners s" "confirmationOutcome s = INITIAL"
      using c2 by simp_all
    show ?thesis
      using p[OF True] i ct hashct True by (auto simp: off_def split: if_splits)
  next
    case False
    then show ?thesis using np c2 by auto
  qed
  have f2: "confirmationOutcome s = INITIAL \<and> confirmationOutcome s' = REJECTED
             \<longrightarrow> confirmationPromise s = Some Pending
                 \<and> confirmationPromise s' = Some (Rejected e)"
    using f1 c1 c2 by blast
  have f3: "\<not> (confirmationOutcome s = INITIAL \<and> confirmationOutcome s' = REJECTED)
             \<longrightarrow> confirmationPromise s' = confirmationPromise s
                 \<and> confirmationOutcome s' = confirmationOutcome s"
  proof (cases "confirmationPromise s = Some Pending")
    case True
    then have i: "confirmationListeners s" "confirmationOutcome s = INITIAL"
      using c2 by simp_all
    show ?thesis
      using p[OF True] i by (auto simp: off_def split: if_splits)
  next
    case False
    then show ?thesis using np by simp
  qed
  have f4: "ct = Confirmed \<and> confirmationOutcome s = INITIAL \<longrightarrow> confirmationListeners s"
    using wf by (cases "confirmationPromise s"; cases "the (confirmationPromise s)")
      (auto simp: wellFormed_def settled_def)
  have f5: "ct = Both \<and> hashOutcome s = RESOLVED \<and> confirmationOutcome s = INITIAL
             \<longrightarrow> confirmationListeners s = (\<not> awaitingHash s)"
    unfolding s_def using both_attached_iff[OF assms, of peer k evs] by blast
  have f6: "awaitingHash s \<longrightarrow> \<not> confirmationListeners s \<and> confirmationPromise s = None"
  proof
    assume a: "awaitingHash s"
    have n: "confirmationPromise s = None" using wf a by (simp add: wellFormed_def)
    have "confirmationListeners s \<longrightarrow> confirmationPromise s \<noteq> None"
      using wf by (simp add: wellFormed_def)
    then show "\<not> confirmationListeners s \<and> confirmationPromise s = None" using n by simp
  qed
  have c4: "ct = Both \<and> hashOutcome s \<noteq> RESOLVED
             \<longrightarrow> confirmationPromise s = None \<and> confirmationPromise s' = None
                 \<and> confirmationOutcome s' = INITIAL"
  proof
    assume a: "ct = Both \<and> hashOutcome s \<noteq> RESOLVED"
    then have n: "confirmationPromise s = None"
      using both_pending_resolved[OF wf] by (cases "confirmationPromise s") auto
    then have "confirmationOutcome s = INITIAL"
      using wf by (auto simp: wellFormed_def settled_def)
    then show "confirmationPromise s = None \<and> confirmationPromise s' = None
                 \<and> confirmationOutcome s' = INITIAL"
      using n np by simp
  qed
  have hp: "hashOutcome s = RESOLVED \<Longrightarrow> hashOutcome s' = RESOLVED \<and> hashPromise s' = hashPromise s
             \<and> (\<exists>txHash. hashPromise s' = Some (Fulfilled txHash))"
  proof -
    assume r: "hashOutcome s = RESOLVED"
    then obtain h where h: "hashPromise s = Some (Fulfilled h)"
      using wf by (auto simp: wellFormed_def)
    then have "settled (hashPromise s)" by (simp add: settled_def)
    then show ?thesis
      using r h hashOutcome_step[of s peer ct k "Signal (OnError e)"]
        hashPromise_step[of s peer ct k "Signal (OnError e)"]
      by (simp add: s'_def)
  qed
  have c5: "ct = Both \<and> hashOutcome s = RESOLVED \<and> confirmationOutcome s = INITIAL
               \<and> \<not> awaitingHash s
             \<longrightarrow> confirmationPromise s' = Some (Rejected e) \<and> confirmationOutcome s' = REJECTED
                 \<and> hashOutcome s' = RESOLVED \<and> hashPromise s' = hashPromise s
                 \<and> (\<exists>txHash. hashPromise s' = Some (Fulfilled txHash))"
    using f5 c2 c1 c3 hp by blast
  have c6: "ct = Both \<and> hashOutcome s = RESOLVED \<and> awaitingHash s \<longrightarrow> s' = s"
    unfolding s'_def using error_dropped_while_awaiting[OF wf] by blast
  show ?thesis
    unfolding Let_def s_def[symmetric] s'_def[symmetric]
    by (intro conjI) (fact f1 f2 f3 c1 c2 f4 f5 f6 c4 c5 c6)+
qed

theorem error_rejects_confirmation_iff_witness:
  "Both \<noteq> Simulate
   \<and> confirmationOutcome (run examplePeer Both (Some 0) (afterBroadcast Both)
        [Signal (OnTransactionHash ''0x1a''), Resume]) = INITIAL
   \<and> confirmationListeners (run examplePeer Both (Some 0) (afterBroadcast Both)
        [Signal (OnTransactionHash ''0x1a''), Resume])
   \<and> \<not> awaitingHash (run examplePeer Both (Some 0) (afterBroadcast Both)
        [Signal (OnTransactionHash ''0x1a''), Resume])
   \<and> hashOutcome (run examplePeer Both (Some 0) (afterBroadcast Both)
        [Signal (OnTransactionHash ''0x1a''), Resume]) = RESOLVED
   \<and> confirmationPromise (step examplePeer Both (Some 0)
        (run examplePeer Both (Some 0) (afterBroadcast Both)
           [Signal (OnTransactionHash ''0x1a''), Resume])
        (Signal (OnError (Web3Error ''reverted''))))
       = Some (Rejected (Web3Error ''reverted''))
   \<and> confirmationOutcome (step examplePeer Both (Some 0)
        (run examplePeer Both (Some 0) (afterBroadcast Both)
           [Signal (OnTransactionHash ''0x1a''), Resume])
        (Signal (OnError (Web3Error ''reverted'')))) = REJECTED
   \<and> hashPromise (step examplePeer Both (Some 0)
        (run examplePeer Both (Some 0) (afterBroadcast Both)
           [Signal (OnTransactionHash ''0x1a''), Resume])
        (Signal (OnError (Web3Error ''reverted'')))) = Some (Fulfilled ''0x1a'')
   \<and> hashOutcome (run examplePeer Both (Some 0) (afterBroadcast Both) []) = INITIAL
   \<and> confirmationPromise (step examplePeer Both (Some 0)
        (run examplePeer Both (Some 0) (afterBroadcast Both) [])
        (Signal (OnError (Web3Error ''refused'')))) = None
   \<and> hashOutcome (run examplePeer Both (Some 0) (afterBroadcast Both)
        [Signal (OnTransactionHash ''0x1a'')]) = RESOLVED
   \<and> awaitingHash (run examplePeer Both (Some 0) (afterBroadcast Both)
        [Signal (OnTransactionHash ''0x1a'')])
   \<and> step examplePeer Both (Some 0)
        (run examplePeer Both (Some 0) (afterBroadcast Both) [Signal (OnTransactionHash ''0x1a'')])
        (Signal (OnError (Web3Error ''reverted'')))
       = run examplePeer Both (Some 0) (afterBroadcast Both) [Signal (OnTransactionHash ''0x1a'')]
   \<and> Confirmed \<noteq> Simulate
   \<and> confirmationOutcome (run examplePeer Confirmed (Some 2) (afterBroadcast Confirmed)
        [Signal (OnConfirmation 1 receipt21000)]) = INITIAL
   \<and> confirmationListeners (run examplePeer Confirmed (Some 2) (afterBroadcast Confirmed)
        [Signal (OnConfirmation 1 receipt21000)])
   \<and> confirmationOutcome (step examplePeer Confirmed (Some 2)
        (run examplePeer Confirmed (Some 2) (afterBroadcast Confirmed)
           [Signal (OnConfirmation 1 receipt21000)])
        (Signal (OnError (Web3Error ''reverted'')))) = REJECTED"
proof -
  define s where "s = run examplePeer Both (Some 0) (afterBroadcast Both)
        [Signal (OnTransactionHash ''0x1a''), Resume]"
  define s0 where "s0 = run examplePeer Both (Some 0) (afterBroadcast Both) []"
  define s1 where "s1 = run examplePeer Both (Some 0) (afterBroadcast Both)
        [Signal (OnTransactionHash ''0x1a'')]"
  define s2 where "s2 = run examplePeer Confirmed (Some 2) (afterBroadcast Confirmed)
        [Signal (OnConfirmation 1 receipt21000)]"
  have c: "confirmationOutcome s = INITIAL" and h: "hashOutcome s = RESOLVED"
    and hp: "hashPromise s = Some (Fulfilled ''0x1a'')" and a: "\<not> awaitingHash s"
    unfolding s_def by code_simp+
  have h0: "hashOutcome s0 = INITIAL"
    unfolding s0_def by code_simp
  have h1: "hashOutcome s1 = RESOLVED" and a1: "awaitingHash s1"
    unfolding s1_def by code_simp+
  have c2: "confirmationOutcome s2 = INITIAL"
    unfolding s2_def by code_simp
  have b: "Both \<noteq> Simulate" and cf: "Confirmed \<noteq> Simulate" by simp_all
  note t = error_rejects_confirmation_iff[OF b, of examplePeer "Some 0"
        "[Signal (OnTransactionHash ''0x1a''), Resume]" "Web3Error ''reverted''",
        unfolded Let_def s_def[symmetric]]
  have l: "confirmationListeners s"
    using t c h a by simp
  have r: "confirmationPromise (step examplePeer Both (Some 0) s
              (Signal (OnError (Web3Error ''reverted''))))
             = Some (Rejected (Web3Error ''reverted''))
           \<and> confirmationOutcome (step examplePeer Both (Some 0) s
              (Signal (OnError (Web3Error ''reverted'')))) = REJECTED
           \<and> hashPromise (step examplePeer Both (Some 0) s
              (Signal (OnError (Web3Error ''reverted'')))) = Some (Fulfilled ''0x1a'')"
    using t c h hp a by simp
  have r0: "confirmationPromise (step examplePeer Both (Some 0) s0
              (Signal (OnError (Web3Error ''refused'')))) = None"
    using error_rejects_confirmation_iff[OF b, of examplePeer "Some 0" "[]" "Web3Error ''refused''"]
    unfolding Let_def s0_def[symmetric] using h0 by simp
  have r1: "step examplePeer Both (Some 0) s1 (Signal (OnError (Web3Error ''reverted''))) = s1"
    using error_rejects_confirmation_iff[OF b, of examplePeer "Some 0"
        "[Signal (OnTransactionHash ''0x1a'')]" "Web3Error ''reverted''"]
    unfolding Let_def s1_def[symmetric] using h1 a1 by simp
  note t2 = error_rejects_confirmation_iff[OF cf, of examplePeer "Some 2"
        "[Signal (OnConfirmation 1 receipt21000)]" "Web3Error ''reverted''",
        unfolded Let_def s2_def[symmetric]]
  have l2: "confirmationListeners s2" using t2 c2 by simp
  have r2: "confirmationOutcome (step examplePeer Confirmed (Some 2) s2
              (Signal (OnError (Web3Error ''reverted'')))) = REJECTED"
    using t2 c2 l2 by simp
  show ?thesis
    unfolding s_def[symmetric] s0_def[symmetric] s1_def[symmetric] s2_def[symmetric]
    using b cf c l a h r h0 r0 h1 a1 r1 c2 l2 r2 by simp
qed

text \<open>The claim as written fails in mode \<open>Both\<close> between the hash race resolving and
  \<open>_send\<close> going on after \<open>await hashPromise\<close>: the hash race has resolved and the
  confirmation race is still pending, yet an error observed then rejects nothing. Once
  \<open>_send\<close> has gone on, the confirmation race is pending as if no error had been
  signalled, and \<open>_send\<close> returns the hash with the pending confirmation.\<close>

theorem error_in_window_counterexample:
  "hashOutcome (run examplePeer Both (Some 0) (afterBroadcast Both)
      [Signal (OnTransactionHash ''0x1a'')]) = RESOLVED
   \<and> confirmationOutcome (run examplePeer Both (Some 0) (afterBroadcast Both)
      [Signal (OnTransactionHash ''0x1a'')]) = INITIAL
   \<and> confirmationOutcome (run examplePeer Both (Some 0) (afterBroadcast Both)
      [Signal (OnTransactionHash ''0x1a''), Signal (OnError (Web3Error ''reverted''))])
     = INITIAL
   \<and> confirmationPromise (run examplePeer Both (Some 0) (afterBroadcast Both)
      [Signal (OnTransactionHash ''0x1a''), Signal (OnError (Web3Error ''reverted''))])
     = None
   \<and> confirmationOutcome (run examplePeer Both (Some 0) (afterBroadcast Both)
      [Signal (OnTransactionHash ''0x1a''), Signal (OnError (Web3Error ''reverted'')), Resume])
     = INITIAL
   \<and> confirmationPromise (run examplePeer Both (Some 0) (afterBroadcast Both)
      [Signal (OnTransactionHash ''0x1a''), Signal (OnError (Web3Error ''reverted'')), Resume])
     = Some Pending
   \<and> sendOutcome Both (run examplePeer Both (Some 0) (afterBroadcast Both)
      [Signal (OnTransactionHash ''0x1a''), Signal (OnError (Web3Error ''reverted'')), Resume])
     = Some (Inr (emptyResult\<lparr>transactionHash := Some ''0x1a'',
                                confirmation := Some ConfirmationPromise\<rparr>))"
  by code_simp

section \<open>What send returns and what it records\<close>

lemma returnedShape_step:
  "ct \<noteq> Simulate \<Longrightarrow> returnedShape ct s \<Longrightarrow> returnedShape ct (step peer ct k s ev)"
  by (cases ev; cases ct)
     (auto simp: step_def returned_deliver returnedShape_def resume_def afterHash_def
       split: option.splits promise.splits sum.splits)

lemma returnedShape_run:
  "ct \<noteq> Simulate \<Longrightarrow> returnedShape ct s \<Longrightarrow> returnedShape ct (run peer ct k s evs)"
  by (induction evs arbitrary: s) (simp_all add: run_def returnedShape_step)

lemma returnedShape_afterBroadcast: "ct \<noteq> Simulate \<Longrightarrow> returnedShape ct (afterBroadcast ct)"
  by (cases ct) (simp_all add: returnedShape_def afterBroadcast_def afterHash_def)

lemma resolve_Fulfilled:
  "map_option (\<lambda>p. resolve p v) po = Some (Fulfilled r)
     \<Longrightarrow> po = Some (Fulfilled r) \<or> (po = Some Pending \<and> v = r)"
  by (cases po; cases "the po") (auto simp: resolve_def)

lemma reject_Fulfilled:
  "map_option (\<lambda>p. reject p e) po = Some (Fulfilled r) \<Longrightarrow> po = Some (Fulfilled r)"
  by (cases po; cases "the po") (auto simp: reject_def)

lemma confirmationPromise_off: "confirmationPromise (off peer s) = confirmationPromise s"
  by (simp add: off_def)

lemma confirmationPromise_deliverHash:
  "confirmationPromise (deliverHash peer ct sig s) = confirmationPromise s"
  by (cases sig)
     (simp_all add: deliverHash_def hashOnError_def hashOnTransactionHash_def Let_def
       confirmationPromise_off)

lemma fulfilled_deliverConfirmation:
  assumes "confirmationPromise (deliverConfirmation peer ct k sig s) = Some (Fulfilled r)"
  shows "confirmationPromise s = Some (Fulfilled r) \<or> carries k r (Signal sig)"
proof (cases sig)
  case (OnError e)
  then show ?thesis
    using assms reject_Fulfilled[of e "confirmationPromise s" r]
    by (auto simp: deliverConfirmation_def confirmationOnError_def confirmationPromise_off
        split: if_splits)
next
  case (OnTransactionHash h)
  then show ?thesis using assms by (simp add: deliverConfirmation_def split: if_splits)
next
  case (OnConfirmation n receipt)
  then show ?thesis
    using assms resolve_Fulfilled[of receipt "confirmationPromise s" r]
    by (auto simp: deliverConfirmation_def confirmationOnConfirmation_def
        confirmationPromise_off carries_def split: if_splits)
next
  case (OnReceipt receipt)
  then show ?thesis
    using assms resolve_Fulfilled[of receipt "confirmationPromise s" r]
    by (auto simp: deliverConfirmation_def confirmationOnReceipt_def
        confirmationPromise_off carries_def split: if_splits)
qed

lemma fulfilled_resume:
  "confirmationPromise (resume ct s) = Some (Fulfilled r) \<Longrightarrow> confirmationPromise s = Some (Fulfilled r)"
  by (auto simp: resume_def afterHash_def Let_def split: if_splits option.splits promise.splits)

lemma fulfilled_step:
  assumes "confirmationPromise (step peer ct k s ev) = Some (Fulfilled r)"
  shows "confirmationPromise s = Some (Fulfilled r) \<or> carries k r ev"
proof (cases ev)
  case (Signal sig)
  then show ?thesis
    using assms fulfilled_deliverConfirmation[of peer ct k sig "deliverHash peer ct sig s" r]
    by (simp add: step_def deliver_def confirmationPromise_deliverHash)
next
  case Resume
  then show ?thesis using assms fulfilled_resume[of ct s r] by (simp add: step_def)
qed

lemma fulfilled_run:
  assumes "confirmationPromise (run peer ct k s evs) = Some (Fulfilled r)"
  shows "confirmationPromise s = Some (Fulfilled r) \<or> list_ex (carries k r) evs"
  using assms
proof (induction evs arbitrary: s)
  case Nil
  then show ?case by (simp add: run_def)
next
  case (Cons ev evs)
  from Cons.IH[of "step peer ct k s ev"] Cons.prems
  have "confirmationPromise (step peer ct k s ev) = Some (Fulfilled r) \<or> list_ex (carries k r) evs"
    by (simp add: run_Cons)
  then show ?case using fulfilled_step[of peer ct k s ev r] by auto
qed

lemma priv_send_cases:
  "priv_send peer method sendOptions evs =
     (case confirmationType sendOptions of
        None \<Rightarrow> ([], Some (Inl InvalidConfirmationType), None)
      | Some ct \<Rightarrow>
          if ct = Simulate \<or> \<not> truthy_number (gas sendOptions)
          then (case estimateGas peer method (TxOptions.truncate sendOptions) of
                  Inl e \<Rightarrow> ([EstimateGasCall (TxOptions.truncate sendOptions)], Some (Inl e), None)
                | Inr estimate \<Rightarrow>
                    if ct = Simulate
                    then ([EstimateGasCall (TxOptions.truncate sendOptions)],
                          Some (Inr (emptyResult\<lparr>gasEstimate := Some estimate,
                             r_gas := Some (floorTimes estimate (gasMultiplier sendOptions))\<rparr>)),
                          None)
                    else ([EstimateGasCall (TxOptions.truncate sendOptions),
                           SendCall ((TxOptions.truncate sendOptions)
                             \<lparr>gas := Some (floorTimes estimate (gasMultiplier sendOptions))\<rparr>)],
                          sendOutcome ct (run peer ct (confirmations sendOptions) (afterBroadcast ct) evs),
                          Some (run peer ct (confirmations sendOptions) (afterBroadcast ct) evs)))
          else ([SendCall (TxOptions.truncate sendOptions)],
                sendOutcome ct (run peer ct (confirmations sendOptions) (afterBroadcast ct) evs),
                Some (run peer ct (confirmations sendOptions) (afterBroadcast ct) evs)))"
proof -
  have g: "gas (TxOptions.truncate sendOptions) = gas sendOptions"
    by (simp add: TxOptions.truncate_def)
  show ?thesis
    unfolding priv_send_def Let_def g
    by (simp split: option.splits sum.splits)
qed


lemma fieldsOf_hash: "fieldsOf (emptyResult\<lparr>transactionHash := Some h\<rparr>) = [''transactionHash'']"
  by (simp add: fieldsOf_def emptyResult_def)

lemma fieldsOf_both:
  "fieldsOf (emptyResult\<lparr>transactionHash := Some h, confirmation := Some ConfirmationPromise\<rparr>)
     = [''transactionHash'', ''confirmation'']"
  by (simp add: fieldsOf_def emptyResult_def)

lemma fieldsOf_simulate:
  "fieldsOf (emptyResult\<lparr>gasEstimate := Some g, r_gas := Some l\<rparr>) = [''gasEstimate'', ''gas'']"
  by (simp add: fieldsOf_def emptyResult_def)

lemma sendOutcome_shape:
  assumes "ct \<noteq> Simulate"
    and "sendOutcome ct (run peer ct k (afterBroadcast ct) evs) = Some (Inr result)"
  shows "(ct = Hash \<longrightarrow> fieldsOf result = [''transactionHash''])
       \<and> (ct = Both \<longrightarrow> fieldsOf result = [''transactionHash'', ''confirmation''])
       \<and> (ct = Confirmed \<longrightarrow> list_ex (carries k result) evs)"
proof -
  define s where "s = run peer ct k (afterBroadcast ct) evs"
  have rs: "returnedShape ct s"
    unfolding s_def by (rule returnedShape_run[OF assms(1) returnedShape_afterBroadcast[OF assms(1)]])
  have a: "sendOutcome ct s = Some (Inr result)" using assms(2) by (simp add: s_def)
  have h: "ct = Hash \<longrightarrow> fieldsOf result = [''transactionHash'']"
    using rs a by (auto simp: sendOutcome_def returnedShape_def fieldsOf_hash)
  have b: "ct = Both \<longrightarrow> fieldsOf result = [''transactionHash'', ''confirmation'']"
    using rs a by (auto simp: sendOutcome_def returnedShape_def fieldsOf_both)
  have c: "ct = Confirmed \<longrightarrow> list_ex (carries k result) evs"
  proof
    assume ct: "ct = Confirmed"
    then have "confirmationPromise s = Some (Fulfilled result)"
      using a by (auto simp: sendOutcome_def split: option.splits promise.splits)
    then have "confirmationPromise (afterBroadcast ct) = Some (Fulfilled result)
               \<or> list_ex (carries k result) evs"
      unfolding s_def by (rule fulfilled_run)
    then show "list_ex (carries k result) evs"
      using ct by (simp add: afterBroadcast_def afterHash_def)
  qed
  show ?thesis using h b c by simp
qed

lemma send_result:
  "fst (send debugGasUsage peer this method specificOptions evs)
     = fst (snd (priv_send peer method (mergeOptions (defaultOptions this) specificOptions) evs))"
proof -
  obtain calls outcome st
    where p: "priv_send peer method (mergeOptions (defaultOptions this) specificOptions) evs
              = (calls, outcome, st)"
    by (cases "priv_send peer method (mergeOptions (defaultOptions this) specificOptions) evs") auto
  show ?thesis
    unfolding send_def Let_def p
    by (cases outcome; (cases "the outcome")?) (auto split: option.splits)
qed

subsection \<open>When send returns\<close>

lemma awaiting_deliver: "awaitingHash (deliver peer ct k sig s) = awaitingHash s"
  by (cases sig)
     (auto simp: deliver_def deliverHash_def deliverConfirmation_def hashOnError_def
       hashOnTransactionHash_def confirmationOnError_def confirmationOnConfirmation_def
       confirmationOnReceipt_def off_def Let_def)

lemma idle_hash_step:
  assumes "ct = Hash \<or> ct = Both" "\<not> hashSettling ev"
  shows "step peer ct k (afterBroadcast ct) ev = afterBroadcast ct"
proof (cases ev)
  case (Signal sig)
  then show ?thesis
    using assms
    by (cases sig)
       (auto simp: step_def deliver_def deliverHash_def deliverConfirmation_def
         afterBroadcast_def hashSettling_def)
next
  case Resume
  then show ?thesis
    using assms(1) by (auto simp: step_def resume_def afterBroadcast_def)
qed

lemma idle_hash_run:
  assumes "ct = Hash \<or> ct = Both" "\<not> list_ex hashSettling pre"
  shows "run peer ct k (afterBroadcast ct) pre = afterBroadcast ct"
  using assms(2)
  by (induction pre) (simp_all add: run_def idle_hash_step[OF assms(1)])

lemma hash_signal_step:
  assumes "ct = Hash \<or> ct = Both"
  shows "hashPromise (step peer ct k (afterBroadcast ct) (Signal (OnTransactionHash h)))
           = Some (Fulfilled h)
         \<and> awaitingHash (step peer ct k (afterBroadcast ct) (Signal (OnTransactionHash h)))"
  using assms
  by (auto simp: step_def deliver_def deliverHash_def deliverConfirmation_def
      hashOnTransactionHash_def off_def afterBroadcast_def resolve_def Let_def)

lemma returned_kept_step:
  assumes "\<not> awaitingHash s"
  shows "returned (step peer ct k s ev) = returned s \<and> \<not> awaitingHash (step peer ct k s ev)"
proof (cases ev)
  case (Signal sig)
  then show ?thesis using assms by (simp add: step_def returned_deliver awaiting_deliver)
next
  case Resume
  then show ?thesis using assms by (simp add: step_def resume_def)
qed

lemma returned_kept_run:
  assumes "\<not> awaitingHash s"
  shows "returned (run peer ct k s evs) = returned s"
  using assms
proof (induction evs arbitrary: s)
  case Nil
  then show ?case by (simp add: run_def)
next
  case (Cons ev evs)
  from returned_kept_step[OF Cons.prems, of peer ct k ev] Cons.IH[of "step peer ct k s ev"]
  show ?case by (simp add: run_Cons)
qed

lemma resume_fulfilled:
  assumes "ct = Hash \<or> ct = Both" "hashPromise s = Some (Fulfilled h)" "awaitingHash s"
  shows "returned (resume ct s)
           = Some (Inr (if ct = Hash then emptyResult\<lparr>transactionHash := Some h\<rparr>
                        else emptyResult\<lparr>transactionHash := Some h,
                                          confirmation := Some ConfirmationPromise\<rparr>))
         \<and> \<not> awaitingHash (resume ct s)"
  using assms by (auto simp: resume_def afterHash_def)

lemma returned_after_hash:
  assumes "ct = Hash \<or> ct = Both" "hashPromise s = Some (Fulfilled h)" "awaitingHash s"
    "Resume \<in> set evs"
  shows "returned (run peer ct k s evs)
           = Some (Inr (if ct = Hash then emptyResult\<lparr>transactionHash := Some h\<rparr>
                        else emptyResult\<lparr>transactionHash := Some h,
                                          confirmation := Some ConfirmationPromise\<rparr>))"
  using assms(2-4)
proof (induction evs arbitrary: s)
  case Nil
  then show ?case by simp
next
  case (Cons ev evs)
  show ?case
  proof (cases ev)
    case Resume
    have r: "returned (step peer ct k s ev)
               = Some (Inr (if ct = Hash then emptyResult\<lparr>transactionHash := Some h\<rparr>
                            else emptyResult\<lparr>transactionHash := Some h,
                                              confirmation := Some ConfirmationPromise\<rparr>))"
      and a: "\<not> awaitingHash (step peer ct k s ev)"
      using resume_fulfilled[OF assms(1) Cons.prems(1,2)] Resume by (simp_all add: step_def)
    show ?thesis
      using returned_kept_run[OF a, of peer ct k evs] r by (simp add: run_Cons)
  next
    case (Signal sig)
    have st: "settled (hashPromise s)" using Cons.prems(1) by (simp add: settled_def)
    have h: "hashPromise (step peer ct k s ev) = Some (Fulfilled h)"
      using hashPromise_step[OF st, of peer ct k ev] Cons.prems(1) by simp
    have a: "awaitingHash (step peer ct k s ev)"
      using Cons.prems(2) Signal by (simp add: step_def awaiting_deliver)
    have m: "Resume \<in> set evs" using Cons.prems(3) Signal by simp
    from Cons.IH[OF h a m] show ?thesis by (simp add: run_Cons)
  qed
qed

lemma hash_mode_returns:
  assumes "ct = Hash \<or> ct = Both" "\<not> list_ex hashSettling pre" "Resume \<in> set rest"
  shows "sendOutcome ct (run peer ct k (afterBroadcast ct)
            (pre @ Signal (OnTransactionHash h) # rest))
           = Some (Inr (if ct = Hash then emptyResult\<lparr>transactionHash := Some h\<rparr>
                        else emptyResult\<lparr>transactionHash := Some h,
                                          confirmation := Some ConfirmationPromise\<rparr>))"
proof -
  have "run peer ct k (afterBroadcast ct) (pre @ Signal (OnTransactionHash h) # rest)
        = run peer ct k (step peer ct k (afterBroadcast ct) (Signal (OnTransactionHash h))) rest"
    by (simp add: run_append run_Cons idle_hash_run[OF assms(1,2)])
  then show ?thesis
    using returned_after_hash[OF assms(1) _ _ assms(3), of _ h peer k]
      hash_signal_step[OF assms(1), of peer k h] assms(1)
    by (auto simp: sendOutcome_def)
qed

lemma idle_confirmed_step:
  assumes "\<not> confirmationSettling k ev"
  shows "step peer Confirmed k (afterBroadcast Confirmed) ev = afterBroadcast Confirmed"
proof (cases ev)
  case (Signal sig)
  then show ?thesis
    using assms
    by (cases sig)
       (auto simp: step_def deliver_def deliverHash_def deliverConfirmation_def
         confirmationOnConfirmation_def afterBroadcast_def afterHash_def
         confirmationSettling_def)
next
  case Resume
  then show ?thesis
    by (simp add: step_def resume_def afterBroadcast_def afterHash_def)
qed

lemma idle_confirmed_run:
  assumes "\<not> list_ex (confirmationSettling k) pre"
  shows "run peer Confirmed k (afterBroadcast Confirmed) pre = afterBroadcast Confirmed"
  using assms by (induction pre) (simp_all add: run_def idle_confirmed_step)

lemma carries_step:
  assumes "carries k receipt ev"
  shows "confirmationPromise (step peer Confirmed k (afterBroadcast Confirmed) ev)
           = Some (Fulfilled receipt)
         \<and> confirmationOutcome (step peer Confirmed k (afterBroadcast Confirmed) ev) = RESOLVED"
  using assms
  by (auto simp: carries_def step_def deliver_def deliverHash_def deliverConfirmation_def
      confirmationOnConfirmation_def confirmationOnReceipt_def off_def afterBroadcast_def
      afterHash_def resolve_def split: if_splits)

lemma confirmed_mode_returns:
  assumes "\<not> list_ex (confirmationSettling k) pre" "carries k receipt ev"
  shows "sendOutcome Confirmed (run peer Confirmed k (afterBroadcast Confirmed) (pre @ ev # rest))
           = Some (Inr receipt)"
proof -
  define s1 where "s1 = step peer Confirmed k (afterBroadcast Confirmed) ev"
  have r: "run peer Confirmed k (afterBroadcast Confirmed) (pre @ ev # rest)
           = run peer Confirmed k s1 rest"
    by (simp add: run_append run_Cons idle_confirmed_run[OF assms(1)] s1_def)
  have wf: "wellFormed Confirmed s1"
    unfolding s1_def by (rule wellFormed_step[OF wellFormed_afterBroadcast]) simp
  have c: "confirmationPromise s1 = Some (Fulfilled receipt)" "confirmationOutcome s1 = RESOLVED"
    unfolding s1_def using carries_step[OF assms(2), of peer] by simp_all
  have "confirmationPromise (run peer Confirmed k s1 rest) = Some (Fulfilled receipt)"
    using confirmation_race_stable[OF wf, of peer k rest] c by simp
  then show ?thesis by (simp add: r sendOutcome_def)
qed

lemma priv_send_broadcast:
  assumes "confirmationType so = Some ct" "ct \<noteq> Simulate" "broadcasts peer method so"
  shows "fst (snd (priv_send peer method so evs))
         = sendOutcome ct (run peer ct (confirmations so) (afterBroadcast ct) evs)"
  using assms
  by (auto simp: priv_send_cases broadcasts_def estimateGas_def split: sum.splits)

lemma priv_send_simulate:
  assumes "confirmationType so = Some Simulate"
    "peer_estimateGas peer method (TxOptions.truncate so) = Inr estimate"
  shows "fst (snd (priv_send peer method so evs))
         = Some (Inr (emptyResult\<lparr>gasEstimate := Some estimate,
                       r_gas := Some (floorTimes estimate (gasMultiplier so))\<rparr>))"
  using assms by (simp add: priv_send_cases estimateGas_def)

text \<open>
  C2. \<open>send\<close> returns a value of the shape of the mode in force (the caller's
  \<open>confirmationType\<close>, or else the default one), and it does return one. Whenever it
  returns a value: for \<open>Hash\<close> it is an object with the field \<open>transactionHash\<close> and no
  other; for \<open>Confirmed\<close> the receipt itself, as carried by the signal that resolved the
  confirmation race; for \<open>Both\<close> an object with the fields \<open>transactionHash\<close> and
  \<open>confirmation\<close> and no other; for \<open>Simulate\<close> an object with the fields \<open>gasEstimate\<close>
  and \<open>gas\<close> and no other. And it returns: in mode \<open>Simulate\<close> as soon as the peer gives
  an estimate; in the other modes, once the call was broadcast, in \<open>Hash\<close> and \<open>Both\<close>
  when the first signal that settles the hash race is a hash and \<open>_send\<close> goes on after
  it, with that hash, and in \<open>Confirmed\<close> when the first signal that settles the
  confirmation race carries a receipt (a \<open>receipt\<close> signal, or with a threshold a
  \<open>confirmation\<close> signal that reaches it), with that receipt.
\<close>

theorem send_result_fields:
  "(let so = mergeOptions (defaultOptions this) specificOptions;
        out = fst (send debugGasUsage peer this method specificOptions evs) in
      (out = Some (Inr result) \<longrightarrow>
         (case confirmationType so of
            Some Hash \<Rightarrow> fieldsOf result = [''transactionHash'']
          | Some Confirmed \<Rightarrow> list_ex (carries (confirmations so) result) evs
          | Some Both \<Rightarrow> fieldsOf result = [''transactionHash'', ''confirmation'']
          | Some Simulate \<Rightarrow> fieldsOf result = [''gasEstimate'', ''gas'']
          | None \<Rightarrow> False))
    \<and> (confirmationType so = Some Simulate
          \<and> peer_estimateGas peer method (TxOptions.truncate so) = Inr estimate
        \<longrightarrow> out = Some (Inr (emptyResult\<lparr>gasEstimate := Some estimate,
                                 r_gas := Some (floorTimes estimate (gasMultiplier so))\<rparr>)))
    \<and> (confirmationType so = Some Hash \<and> broadcasts peer method so
          \<and> evs = pre @ Signal (OnTransactionHash h) # rest
          \<and> \<not> list_ex hashSettling pre \<and> Resume \<in> set rest
        \<longrightarrow> out = Some (Inr (emptyResult\<lparr>transactionHash := Some h\<rparr>)))
    \<and> (confirmationType so = Some Both \<and> broadcasts peer method so
          \<and> evs = pre @ Signal (OnTransactionHash h) # rest
          \<and> \<not> list_ex hashSettling pre \<and> Resume \<in> set rest
        \<longrightarrow> out = Some (Inr (emptyResult\<lparr>transactionHash := Some h,
                                 confirmation := Some ConfirmationPromise\<rparr>)))
    \<and> (confirmationType so = Some Confirmed \<and> broadcasts peer method so
          \<and> evs = pre @ ev # rest
          \<and> \<not> list_ex (confirmationSettling (confirmations so)) pre
          \<and> carries (confirmations so) receipt ev
        \<longrightarrow> out = Some (Inr receipt)))"
proof -
  define so where "so = mergeOptions (defaultOptions this) specificOptions"
  define out where "out = fst (send debugGasUsage peer this method specificOptions evs)"
  have o: "out = fst (snd (priv_send peer method so evs))"
    by (simp add: out_def so_def send_result)
  have shape: "out = Some (Inr result) \<longrightarrow>
         (case confirmationType so of
            Some Hash \<Rightarrow> fieldsOf result = [''transactionHash'']
          | Some Confirmed \<Rightarrow> list_ex (carries (confirmations so) result) evs
          | Some Both \<Rightarrow> fieldsOf result = [''transactionHash'', ''confirmation'']
          | Some Simulate \<Rightarrow> fieldsOf result = [''gasEstimate'', ''gas'']
          | None \<Rightarrow> False)"
  proof
    assume "out = Some (Inr result)"
    then have a: "fst (snd (priv_send peer method so evs)) = Some (Inr result)"
      using o by simp
    show "(case confirmationType so of
            Some Hash \<Rightarrow> fieldsOf result = [''transactionHash'']
          | Some Confirmed \<Rightarrow> list_ex (carries (confirmations so) result) evs
          | Some Both \<Rightarrow> fieldsOf result = [''transactionHash'', ''confirmation'']
          | Some Simulate \<Rightarrow> fieldsOf result = [''gasEstimate'', ''gas'']
          | None \<Rightarrow> False)"
    proof (cases "confirmationType so")
      case None
      then show ?thesis using a by (simp add: priv_send_cases)
    next
      case (Some ct)
      show ?thesis
      proof (cases "ct = Simulate")
        case True
        then show ?thesis
          using a Some
          by (auto simp: priv_send_cases fieldsOf_simulate split: sum.splits)
      next
        case False
        then have "sendOutcome ct (run peer ct (confirmations so) (afterBroadcast ct) evs)
                   = Some (Inr result)"
          using a Some by (auto simp: priv_send_cases split: sum.splits if_splits)
        from sendOutcome_shape[OF False this] show ?thesis
          using Some False by (cases ct) simp_all
      qed
    qed
  qed
  have sim: "confirmationType so = Some Simulate
          \<and> peer_estimateGas peer method (TxOptions.truncate so) = Inr estimate
        \<longrightarrow> out = Some (Inr (emptyResult\<lparr>gasEstimate := Some estimate,
                                 r_gas := Some (floorTimes estimate (gasMultiplier so))\<rparr>))"
    using priv_send_simulate[of so peer "method" estimate evs] o by simp
  have hsh: "confirmationType so = Some Hash \<and> broadcasts peer method so
          \<and> evs = pre @ Signal (OnTransactionHash h) # rest
          \<and> \<not> list_ex hashSettling pre \<and> Resume \<in> set rest
        \<longrightarrow> out = Some (Inr (emptyResult\<lparr>transactionHash := Some h\<rparr>))"
  proof (intro impI, elim conjE)
    assume a: "confirmationType so = Some Hash" "broadcasts peer method so"
      "evs = pre @ Signal (OnTransactionHash h) # rest"
      "\<not> list_ex hashSettling pre" "Resume \<in> set rest"
    have "out = sendOutcome Hash (run peer Hash (confirmations so) (afterBroadcast Hash) evs)"
      using o priv_send_broadcast[OF a(1) _ a(2), of evs] by simp
    then show "out = Some (Inr (emptyResult\<lparr>transactionHash := Some h\<rparr>))"
      unfolding a(3)
      using hash_mode_returns[of Hash pre rest peer "confirmations so" h] a(4,5) by simp
  qed
  have bth: "confirmationType so = Some Both \<and> broadcasts peer method so
          \<and> evs = pre @ Signal (OnTransactionHash h) # rest
          \<and> \<not> list_ex hashSettling pre \<and> Resume \<in> set rest
        \<longrightarrow> out = Some (Inr (emptyResult\<lparr>transactionHash := Some h,
                                 confirmation := Some ConfirmationPromise\<rparr>))"
  proof (intro impI, elim conjE)
    assume a: "confirmationType so = Some Both" "broadcasts peer method so"
      "evs = pre @ Signal (OnTransactionHash h) # rest"
      "\<not> list_ex hashSettling pre" "Resume \<in> set rest"
    have "out = sendOutcome Both (run peer Both (confirmations so) (afterBroadcast Both) evs)"
      using o priv_send_broadcast[OF a(1) _ a(2), of evs] by simp
    then show "out = Some (Inr (emptyResult\<lparr>transactionHash := Some h,
                                 confirmation := Some ConfirmationPromise\<rparr>))"
      unfolding a(3)
      using hash_mode_returns[of Both pre rest peer "confirmations so" h] a(4,5) by simp
  qed
  have cnf: "confirmationType so = Some Confirmed \<and> broadcasts peer method so
          \<and> evs = pre @ ev # rest
          \<and> \<not> list_ex (confirmationSettling (confirmations so)) pre
          \<and> carries (confirmations so) receipt ev
        \<longrightarrow> out = Some (Inr receipt)"
  proof (intro impI, elim conjE)
    assume a: "confirmationType so = Some Confirmed" "broadcasts peer method so"
      "evs = pre @ ev # rest"
      "\<not> list_ex (confirmationSettling (confirmations so)) pre"
      "carries (confirmations so) receipt ev"
    have "out = sendOutcome Confirmed
                  (run peer Confirmed (confirmations so) (afterBroadcast Confirmed) evs)"
      using o priv_send_broadcast[OF a(1) _ a(2), of evs] by simp
    then show "out = Some (Inr receipt)"
      unfolding a(3) using confirmed_mode_returns[OF a(4,5), of peer rest] by simp
  qed
  show ?thesis
    unfolding Let_def so_def[symmetric] out_def[symmetric]
    using shape sim hsh bth cnf by blast
qed

theorem send_result_fields_witness:
  "fst (send False examplePeer (exampleContracts deployedList) exampleMethod
          (noOptions\<lparr>confirmationType := Some Hash\<rparr>)
          [Signal (OnConfirmation 1 receipt21000), Signal (OnTransactionHash ''0x1a''),
           Signal (OnError (Web3Error ''late'')), Resume])
     = Some (Inr (emptyResult\<lparr>transactionHash := Some ''0x1a''\<rparr>))
   \<and> fieldsOf (emptyResult\<lparr>transactionHash := Some ''0x1a''\<rparr>) = [''transactionHash'']
   \<and> fst (send False examplePeer (exampleContracts deployedList) exampleMethod noOptions
          [Signal (OnTransactionHash ''0x1a''), Signal (OnReceipt receipt21000)])
     = Some (Inr receipt21000)
   \<and> list_ex (carries (Some 0) receipt21000)
         [Signal (OnTransactionHash ''0x1a''), Signal (OnReceipt receipt21000)]
   \<and> fst (send False examplePeer (exampleContracts deployedList) exampleMethod
          (noOptions\<lparr>confirmations := Some 2\<rparr>)
          [Signal (OnConfirmation 1 receipt45000), Signal (OnReceipt receipt45000),
           Signal (OnConfirmation 2 receipt21000), Signal (OnError (Web3Error ''late''))])
     = Some (Inr receipt21000)
   \<and> list_ex (carries (Some 2) receipt21000)
         [Signal (OnConfirmation 1 receipt45000), Signal (OnReceipt receipt45000),
          Signal (OnConfirmation 2 receipt21000), Signal (OnError (Web3Error ''late''))]
   \<and> fst (send False examplePeer (exampleContracts deployedList) exampleMethod
          (noOptions\<lparr>confirmationType := Some Both\<rparr>)
          [Signal (OnTransactionHash ''0x1a''), Resume])
     = Some (Inr (emptyResult\<lparr>transactionHash := Some ''0x1a'',
                                confirmation := Some ConfirmationPromise\<rparr>))
   \<and> fieldsOf (emptyResult\<lparr>transactionHash := Some ''0x1a'',
                              confirmation := Some ConfirmationPromise\<rparr>)
       = [''transactionHash'', ''confirmation'']
   \<and> fst (send False examplePeer (exampleContracts deployedList) exampleMethod
          (noOptions\<lparr>confirmationType := Some Simulate\<rparr>) [])
     = Some (Inr (emptyResult\<lparr>gasEstimate := Some (Num 21001), r_gas := Some (Num 31501)\<rparr>))
   \<and> fieldsOf (emptyResult\<lparr>gasEstimate := Some (Num 21001), r_gas := Some (Num 31501)\<rparr>)
       = [''gasEstimate'', ''gas'']"
proof -
  have dflt: "defaultOptions (exampleContracts deployedList) = initialDefaultOptions"
    by (simp add: exampleContracts_def)
  have mh: "confirmationType (mergeOptions initialDefaultOptions
              (noOptions\<lparr>confirmationType := Some Hash\<rparr>)) = Some Hash"
    and mc: "confirmationType (mergeOptions initialDefaultOptions noOptions) = Some Confirmed"
    and mk: "confirmations (mergeOptions initialDefaultOptions noOptions) = Some 0"
    and mc2: "confirmationType (mergeOptions initialDefaultOptions
              (noOptions\<lparr>confirmations := Some 2\<rparr>)) = Some Confirmed"
    and mk2: "confirmations (mergeOptions initialDefaultOptions
              (noOptions\<lparr>confirmations := Some 2\<rparr>)) = Some 2"
    and mb: "confirmationType (mergeOptions initialDefaultOptions
              (noOptions\<lparr>confirmationType := Some Both\<rparr>)) = Some Both"
    and ms: "confirmationType (mergeOptions initialDefaultOptions
              (noOptions\<lparr>confirmationType := Some Simulate\<rparr>)) = Some Simulate"
    and gm: "gasMultiplier (mergeOptions initialDefaultOptions
              (noOptions\<lparr>confirmationType := Some Simulate\<rparr>)) = Some (3 / 2)"
    by code_simp+
  have br: "broadcasts examplePeer exampleMethod so" for so
    by (simp add: broadcasts_def examplePeer_def)
  have pe: "peer_estimateGas examplePeer exampleMethod t = Inr (Num 21001)" for t
    by (simp add: examplePeer_def)
  have ft: "floorTimes (Num 21001) (Some (3 / 2)) = Num 31501"
    by code_simp
  have nh: "\<not> list_ex hashSettling [Signal (OnConfirmation 1 receipt21000)]"
    "\<not> list_ex hashSettling []"
    by (simp_all add: hashSettling_def)
  have nc: "\<not> list_ex (confirmationSettling (Some 0)) [Signal (OnTransactionHash ''0x1a'')]"
    "\<not> list_ex (confirmationSettling (Some 2))
         [Signal (OnConfirmation 1 receipt45000), Signal (OnReceipt receipt45000)]"
    by (simp_all add: confirmationSettling_def truthy_nat_def)
  have ca: "carries (Some 0) receipt21000 (Signal (OnReceipt receipt21000))"
    "carries (Some 2) receipt21000 (Signal (OnConfirmation 2 receipt21000))"
    by (simp_all add: carries_def truthy_nat_def)
  have h: "fst (send False examplePeer (exampleContracts deployedList) exampleMethod
                  (noOptions\<lparr>confirmationType := Some Hash\<rparr>)
                  [Signal (OnConfirmation 1 receipt21000), Signal (OnTransactionHash ''0x1a''),
                   Signal (OnError (Web3Error ''late'')), Resume])
           = Some (Inr (emptyResult\<lparr>transactionHash := Some ''0x1a''\<rparr>))"
    using send_result_fields[of "exampleContracts deployedList"
        "noOptions\<lparr>confirmationType := Some Hash\<rparr>" False examplePeer exampleMethod
        "[Signal (OnConfirmation 1 receipt21000), Signal (OnTransactionHash ''0x1a''),
          Signal (OnError (Web3Error ''late'')), Resume]" _ _
        "[Signal (OnConfirmation 1 receipt21000)]" "''0x1a''"
        "[Signal (OnError (Web3Error ''late'')), Resume]"]
      mh br nh
    by (simp add: Let_def dflt)
  have c: "fst (send False examplePeer (exampleContracts deployedList) exampleMethod noOptions
                  [Signal (OnTransactionHash ''0x1a''), Signal (OnReceipt receipt21000)])
           = Some (Inr receipt21000)"
    using send_result_fields[of "exampleContracts deployedList" noOptions False examplePeer
        exampleMethod "[Signal (OnTransactionHash ''0x1a''), Signal (OnReceipt receipt21000)]"
        _ _ "[Signal (OnTransactionHash ''0x1a'')]" _ "[]" "Signal (OnReceipt receipt21000)"
        receipt21000]
      mc mk br nc ca
    by (simp add: Let_def dflt)
  have c2: "fst (send False examplePeer (exampleContracts deployedList) exampleMethod
                  (noOptions\<lparr>confirmations := Some 2\<rparr>)
                  [Signal (OnConfirmation 1 receipt45000), Signal (OnReceipt receipt45000),
                   Signal (OnConfirmation 2 receipt21000), Signal (OnError (Web3Error ''late''))])
           = Some (Inr receipt21000)"
    using send_result_fields[of "exampleContracts deployedList"
        "noOptions\<lparr>confirmations := Some 2\<rparr>" False examplePeer exampleMethod
        "[Signal (OnConfirmation 1 receipt45000), Signal (OnReceipt receipt45000),
          Signal (OnConfirmation 2 receipt21000), Signal (OnError (Web3Error ''late''))]"
        _ _ "[Signal (OnConfirmation 1 receipt45000), Signal (OnReceipt receipt45000)]" _
        "[Signal (OnError (Web3Error ''late''))]" "Signal (OnConfirmation 2 receipt21000)"
        receipt21000]
      mc2 mk2 br nc ca
    by (simp add: Let_def dflt)
  have b: "fst (send False examplePeer (exampleContracts deployedList) exampleMethod
                  (noOptions\<lparr>confirmationType := Some Both\<rparr>)
                  [Signal (OnTransactionHash ''0x1a''), Resume])
           = Some (Inr (emptyResult\<lparr>transactionHash := Some ''0x1a'',
                                      confirmation := Some ConfirmationPromise\<rparr>))"
    using send_result_fields[of "exampleContracts deployedList"
        "noOptions\<lparr>confirmationType := Some Both\<rparr>" False examplePeer exampleMethod
        "[Signal (OnTransactionHash ''0x1a''), Resume]" _ _ "[]" "''0x1a''" "[Resume]"]
      mb br nh
    by (simp add: Let_def dflt)
  have s: "fst (send False examplePeer (exampleContracts deployedList) exampleMethod
                  (noOptions\<lparr>confirmationType := Some Simulate\<rparr>) [])
           = Some (Inr (emptyResult\<lparr>gasEstimate := Some (Num 21001),
                                      r_gas := Some (Num 31501)\<rparr>))"
    using send_result_fields[of "exampleContracts deployedList"
        "noOptions\<lparr>confirmationType := Some Simulate\<rparr>" False examplePeer exampleMethod
        "[]" _ "Num 21001"]
      ms pe gm ft
    by (simp add: Let_def dflt)
  have fh: "fieldsOf (emptyResult\<lparr>transactionHash := Some ''0x1a''\<rparr>) = [''transactionHash'']"
    using send_result_fields[of "exampleContracts deployedList"
        "noOptions\<lparr>confirmationType := Some Hash\<rparr>" False examplePeer exampleMethod
        "[Signal (OnConfirmation 1 receipt21000), Signal (OnTransactionHash ''0x1a''),
          Signal (OnError (Web3Error ''late'')), Resume]"
        "emptyResult\<lparr>transactionHash := Some ''0x1a''\<rparr>"]
      h mh
    by (simp add: Let_def dflt)
  have fc: "list_ex (carries (Some 0) receipt21000)
         [Signal (OnTransactionHash ''0x1a''), Signal (OnReceipt receipt21000)]"
    using send_result_fields[of "exampleContracts deployedList" noOptions False examplePeer
        exampleMethod "[Signal (OnTransactionHash ''0x1a''), Signal (OnReceipt receipt21000)]"
        receipt21000]
      c mc mk
    by (simp add: Let_def dflt)
  have fc2: "list_ex (carries (Some 2) receipt21000)
         [Signal (OnConfirmation 1 receipt45000), Signal (OnReceipt receipt45000),
          Signal (OnConfirmation 2 receipt21000), Signal (OnError (Web3Error ''late''))]"
    using send_result_fields[of "exampleContracts deployedList"
        "noOptions\<lparr>confirmations := Some 2\<rparr>" False examplePeer exampleMethod
        "[Signal (OnConfirmation 1 receipt45000), Signal (OnReceipt receipt45000),
          Signal (OnConfirmation 2 receipt21000), Signal (OnError (Web3Error ''late''))]"
        receipt21000]
      c2 mc2 mk2
    by (simp add: Let_def dflt)
  have fb: "fieldsOf (emptyResult\<lparr>transactionHash := Some ''0x1a'',
                              confirmation := Some ConfirmationPromise\<rparr>)
       = [''transactionHash'', ''confirmation'']"
    using send_result_fields[of "exampleContracts deployedList"
        "noOptions\<lparr>confirmationType := Some Both\<rparr>" False examplePeer exampleMethod
        "[Signal (OnTransactionHash ''0x1a''), Resume]"
        "emptyResult\<lparr>transactionHash := Some ''0x1a'',
                      confirmation := Some ConfirmationPromise\<rparr>"]
      b mb
    by (simp add: Let_def dflt)
  have fs: "fieldsOf (emptyResult\<lparr>gasEstimate := Some (Num 21001), r_gas := Some (Num 31501)\<rparr>)
       = [''gasEstimate'', ''gas'']"
    using send_result_fields[of "exampleContracts deployedList"
        "noOptions\<lparr>confirmationType := Some Simulate\<rparr>" False examplePeer exampleMethod
        "[]" "emptyResult\<lparr>gasEstimate := Some (Num 21001), r_gas := Some (Num 31501)\<rparr>"]
      s ms
    by (simp add: Let_def dflt)
  show ?thesis
    using h fh c fc c2 fc2 b fb s fs by simp
qed

subsection \<open>The binary64 product\<close>

lemma twoTo_power: "twoTo n = 2 ^ nat n"
proof (induction n rule: twoTo.induct)
  case (1 n)
  show ?case
  proof (cases "n \<le> 0")
    case True
    then show ?thesis by (simp add: twoTo.simps)
  next
    case False
    then have "nat n = Suc (nat (n - 1))" by simp
    then show ?thesis using 1 False by (subst twoTo.simps) simp
  qed
qed

lemma pow2_pos: "0 < pow2 e"
  by (simp add: pow2_def twoTo_power)

lemma pow2_Suc: "pow2 (e + 1) = 2 * pow2 e"
proof -
  consider "0 \<le> e" | "e = - 1" | "e < - 1" by linarith
  then show ?thesis
  proof cases
    case 1
    then have "nat (e + 1) = Suc (nat e)" by simp
    then show ?thesis using 1 by (simp add: pow2_def twoTo_power)
  next
    case 2
    then show ?thesis by (simp add: pow2_def twoTo_power)
  next
    case 3
    then have "nat (- e) = Suc (nat (- (e + 1)))" by simp
    then show ?thesis using 3 by (simp add: pow2_def twoTo_power)
  qed
qed

lemma pow2_add: "pow2 (a + b) = pow2 a * pow2 b"
proof -
  have nn: "pow2 (a + int n) = pow2 a * pow2 (int n)" for a n
  proof (induction n)
    case 0
    then show ?case by (simp add: pow2_def twoTo_power)
  next
    case (Suc n)
    have "a + int (Suc n) = (a + int n) + 1" by simp
    then have "pow2 (a + int (Suc n)) = pow2 ((a + int n) + 1)" by (simp only:)
    also have "\<dots> = 2 * pow2 (a + int n)" by (rule pow2_Suc)
    also have "\<dots> = pow2 a * (2 * pow2 (int n))" using Suc by simp
    also have "2 * pow2 (int n) = pow2 (int n + 1)" by (simp add: pow2_Suc)
    also have "int n + 1 = int (Suc n)" by simp
    finally show ?case .
  qed
  show ?thesis
  proof (cases "0 \<le> b")
    case True
    then show ?thesis using nn[of a "nat b"] by simp
  next
    case False
    then have "pow2 ((a + b) + int (nat (- b))) = pow2 (a + b) * pow2 (int (nat (- b)))"
      by (rule_tac nn)
    moreover have "pow2 (b + int (nat (- b))) = pow2 b * pow2 (int (nat (- b)))"
      by (rule nn)
    moreover have "pow2 0 = 1" by (simp add: pow2_def twoTo_power)
    ultimately show ?thesis using False pow2_pos[of "int (nat (- b))"]
      by (simp add: field_simps)
  qed
qed

lemma bitLength_bounds:
  "0 < n \<Longrightarrow> 2 ^ nat (bitLength n - 1) \<le> n \<and> n < 2 ^ nat (bitLength n) \<and> 0 < bitLength n"
proof (induction n rule: bitLength.induct)
  case (1 n)
  show ?case
  proof (cases "n = 1")
    case True
    then show ?thesis
      by (subst bitLength.simps, subst (2) bitLength.simps, subst (3) bitLength.simps)
         (simp add: bitLength.simps)
  next
    case False
    then have h: "0 < n div 2" using 1(2) by simp
    have ih: "2 ^ nat (bitLength (n div 2) - 1) \<le> n div 2"
      "n div 2 < 2 ^ nat (bitLength (n div 2))" "0 < bitLength (n div 2)"
      using 1(1) 1(2) h by simp_all
    have b: "bitLength n = 1 + bitLength (n div 2)"
      using 1(2) by (subst bitLength.simps) simp
    have e1: "nat (bitLength n - 1) = Suc (nat (bitLength (n div 2) - 1))"
      using b ih(3) by simp
    have e2: "nat (bitLength n) = Suc (nat (bitLength (n div 2)))"
      using b ih(3) by simp
    have "2 * 2 ^ nat (bitLength (n div 2) - 1) \<le> n" using ih(1) by linarith
    moreover have "n < 2 * 2 ^ nat (bitLength (n div 2))" using ih(2) by linarith
    ultimately show ?thesis using e1 e2 b ih(3) by simp
  qed
qed


lemma pow2_int: "0 \<le> e \<Longrightarrow> pow2 e = 2 ^ nat e"
  by (simp add: pow2_def twoTo_power)

lemma pow2_0: "pow2 0 = 1"
  by (simp add: pow2_int)

lemma pow2_minus: "pow2 (- e) = 1 / pow2 e"
proof -
  have "pow2 (e + (- e)) = pow2 e * pow2 (- e)" by (rule pow2_add)
  then show ?thesis using pow2_pos[of e] by (simp add: pow2_0 field_simps)
qed

lemma pow2_diff: "pow2 (a - b) = pow2 a / pow2 b"
  using pow2_add[of a "- b"] by (simp add: pow2_minus)

lemma pow2_mono: "a \<le> b \<Longrightarrow> pow2 a \<le> pow2 b"
proof -
  assume "a \<le> b"
  then have "pow2 b = pow2 a * 2 ^ nat (b - a)"
    using pow2_add[of a "b - a"] by (simp add: pow2_int)
  moreover have "(1::rat) \<le> 2 ^ nat (b - a)" by simp
  ultimately show ?thesis using pow2_pos[of a] by (simp add: mult_le_cancel_left1)
qed

lemma floorLog2_bounds:
  assumes "0 < x"
  shows "pow2 (floorLog2 x) \<le> x \<and> x < pow2 (floorLog2 x + 1)"
proof -
  obtain p q where pq: "quotient_of x = (p, q)" by (cases "quotient_of x") auto
  have q: "0 < q" using quotient_of_denom_pos[OF pq] .
  have x: "x = of_int p / of_int q" using quotient_of_div[OF pq] .
  have p: "0 < p" using assms q x by (simp add: zero_less_divide_iff)
  define bp where "bp = bitLength p"
  define bq where "bq = bitLength q"
  have bpb: "2 ^ nat (bp - 1) \<le> p" "p < 2 ^ nat bp" "0 < bp"
    unfolding bp_def using bitLength_bounds[OF p] by simp_all
  have bqb: "2 ^ nat (bq - 1) \<le> q" "q < 2 ^ nat bq" "0 < bq"
    unfolding bq_def using bitLength_bounds[OF q] by simp_all
  have p1: "pow2 (bp - 1) \<le> of_int p"
  proof -
    have "(of_int (2 ^ nat (bp - 1)) :: rat) \<le> of_int p" using bpb(1) by (simp only: of_int_le_iff)
    then show ?thesis using bpb(3) by (simp add: pow2_int)
  qed
  have p2: "of_int p < pow2 bp"
  proof -
    have "(of_int p :: rat) < of_int (2 ^ nat bp)" using bpb(2) by (simp only: of_int_less_iff)
    then show ?thesis using bpb(3) by (simp add: pow2_int)
  qed
  have q1: "pow2 (bq - 1) \<le> of_int q"
  proof -
    have "(of_int (2 ^ nat (bq - 1)) :: rat) \<le> of_int q" using bqb(1) by (simp only: of_int_le_iff)
    then show ?thesis using bqb(3) by (simp add: pow2_int)
  qed
  have q2: "of_int q < pow2 bq"
  proof -
    have "(of_int q :: rat) < of_int (2 ^ nat bq)" using bqb(2) by (simp only: of_int_less_iff)
    then show ?thesis using bqb(3) by (simp add: pow2_int)
  qed
  have lo: "pow2 (bp - bq - 1) \<le> x"
  proof -
    have "pow2 (bp - bq - 1) = pow2 (bp - 1) / pow2 bq"
      using pow2_diff[of "bp - 1" bq] by (simp add: algebra_simps)
    also have "\<dots> \<le> of_int p / of_int q"
      using p1 q2 q p pow2_pos[of "bp - 1"] by (intro frac_le) simp_all
    finally show ?thesis by (simp add: x)
  qed
  have hi: "x < pow2 (bp - bq + 1)"
  proof -
    have "of_int p / of_int q < pow2 bp / pow2 (bq - 1)"
      using p2 q1 p pow2_pos[of "bq - 1"] by (intro frac_less) simp_all
    also have "\<dots> = pow2 (bp - bq + 1)"
      using pow2_diff[of bp "bq - 1"] by (simp add: algebra_simps)
    finally show ?thesis by (simp add: x)
  qed
  have f: "floorLog2 x = (if pow2 (bp - bq) \<le> x then bp - bq else bp - bq - 1)"
    by (simp add: floorLog2_def pq bp_def bq_def Let_def)
  show ?thesis
  proof (cases "pow2 (bp - bq) \<le> x")
    case True
    then show ?thesis using f hi by simp
  next
    case False
    then show ?thesis using f lo by simp
  qed
qed

lemma roundHalfEven_nearest:
  "\<bar>of_int (roundHalfEven q) - q\<bar> \<le> 1 / 2
   \<and> (\<bar>of_int (roundHalfEven q) - q\<bar> = 1 / 2 \<longrightarrow> even (roundHalfEven q))"
proof -
  define f where "f = \<lfloor>q\<rfloor>"
  have b: "of_int f \<le> q" "q < of_int f + 1" unfolding f_def by linarith+
  show ?thesis
    unfolding roundHalfEven_def Let_def f_def[symmetric]
    using b by (auto simp: abs_if)
qed

lemma roundHalfEven_mono_bounds:
  assumes "of_int lo \<le> q" "q \<le> of_int hi"
  shows "lo \<le> roundHalfEven q \<and> roundHalfEven q \<le> hi"
proof -
  define f where "f = \<lfloor>q\<rfloor>"
  have b: "of_int f \<le> q" "q < of_int f + 1" unfolding f_def by linarith+
  have l: "lo \<le> f" unfolding f_def using assms(1) by (simp add: le_floor_iff)
  have h: "q = of_int f \<or> f + 1 \<le> hi"
  proof (cases "q = of_int f")
    case True
    then show ?thesis by simp
  next
    case False
    then have "of_int f < q" using b(1) by simp
    then have "(of_int f :: rat) < of_int hi" using assms(2) by linarith
    then have "f < hi" by (simp only: of_int_less_iff)
    then show ?thesis by simp
  qed
  have fh: "f \<le> hi"
  proof -
    have "(of_int f :: rat) \<le> of_int hi" using b(1) assms(2) by linarith
    then show ?thesis by (simp only: of_int_le_iff)
  qed
  show ?thesis
    unfolding roundHalfEven_def Let_def f_def[symmetric]
    using l h fh by auto
qed

text \<open>The value \<open>binary64\<close> gives is a binary64 value next to \<open>x\<close>: a multiple of the
  spacing at \<open>x\<close> with a significand of at most 53 bits, no farther from \<open>x\<close> than half
  the spacing, and with an even significand when \<open>x\<close> lies half way.\<close>

lemma binary64_nearest:
  assumes "binary64 x = Some r" "x \<noteq> 0"
  shows "\<exists>n. \<bar>r\<bar> = of_int n * pow2 (max (floorLog2 \<bar>x\<bar>) (- 1022) - 52)
             \<and> 0 \<le> n \<and> n \<le> 2 ^ 53
             \<and> \<bar>r - x\<bar> \<le> pow2 (max (floorLog2 \<bar>x\<bar>) (- 1022) - 52) / 2
             \<and> (\<bar>r - x\<bar> = pow2 (max (floorLog2 \<bar>x\<bar>) (- 1022) - 52) / 2 \<longrightarrow> even n)
             \<and> (r < 0) = (x < 0 \<and> n \<noteq> 0)"
proof -
  define a where "a = \<bar>x\<bar>"
  define e where "e = max (floorLog2 a) (- 1022)"
  define ulp where "ulp = pow2 (e - 52)"
  define n where "n = roundHalfEven (a / ulp)"
  have a: "0 < a" using assms(2) by (simp add: a_def)
  have u: "0 < ulp" by (simp add: ulp_def pow2_pos)
  have r: "r = (if x < 0 then - (of_int n * ulp) else of_int n * ulp)"
    using assms by (simp add: binary64_def Let_def a_def e_def ulp_def n_def split: if_splits)
  have rn: "\<bar>of_int n - a / ulp\<bar> \<le> 1 / 2"
    "\<bar>of_int n - a / ulp\<bar> = 1 / 2 \<longrightarrow> even n"
    unfolding n_def using roundHalfEven_nearest[of "a / ulp"] by simp_all
  have up: "a < pow2 (e + 1)"
  proof -
    have "a < pow2 (floorLog2 a + 1)" using floorLog2_bounds[OF a] by simp
    also have "\<dots> \<le> pow2 (e + 1)" by (rule pow2_mono) (simp add: e_def)
    finally show ?thesis .
  qed
  have "pow2 (e + 1) = 2 ^ 53 * ulp"
    unfolding ulp_def using pow2_add[of 53 "e - 52"] by (simp add: pow2_int algebra_simps)
  then have qb: "a / ulp \<le> of_int (2 ^ 53)"
    using up u by (simp add: pos_divide_le_eq)
  have q0: "of_int 0 \<le> a / ulp" using a u by simp
  have nb: "0 \<le> n" "n \<le> 2 ^ 53"
    unfolding n_def using roundHalfEven_mono_bounds[OF q0 qb] by simp_all
  have d: "\<bar>of_int n * ulp - a\<bar> = \<bar>of_int n - a / ulp\<bar> * ulp"
  proof -
    have "of_int n * ulp - a = (of_int n - a / ulp) * ulp" using u by (simp add: field_simps)
    then show ?thesis using u by (simp add: abs_mult)
  qed
  have ar: "\<bar>r\<bar> = of_int n * ulp" using r nb(1) u by (simp add: abs_mult)
  have dr: "\<bar>r - x\<bar> = \<bar>of_int n * ulp - a\<bar>"
  proof (cases "x < 0")
    case True
    then have "r - x = - (of_int n * ulp - a)" using r by (simp add: a_def)
    then show ?thesis by (simp only: abs_minus_cancel)
  next
    case False
    then have "r - x = of_int n * ulp - a" using r by (simp add: a_def)
    then show ?thesis by simp
  qed
  have le: "\<bar>r - x\<bar> \<le> ulp / 2"
    unfolding dr d using rn(1) u by (simp add: field_simps)
  have ev: "\<bar>r - x\<bar> = ulp / 2 \<longrightarrow> even n"
    unfolding dr d using rn(2) u by (simp add: field_simps)
  have nu: "0 \<le> of_int n * ulp" using nb(1) u by simp
  have nz: "(of_int n * ulp = 0) = (n = 0)" using u by simp
  have sg: "(r < 0) = (x < 0 \<and> n \<noteq> 0)"
  proof (cases "x < 0")
    case True
    then have "r = - (of_int n * ulp)" using r by simp
    then show ?thesis using True nu nz by linarith
  next
    case False
    then have "r = of_int n * ulp" using r by simp
    then show ?thesis using False nu by simp
  qed
  show ?thesis
    using ar nb le ev sg unfolding ulp_def e_def a_def by blast
qed

text \<open>The multiplier \<open>1.15\<close> is the binary64 value just below 23/20, and the product with
  21000 rounds to the binary64 value just below 24150: \<open>Math.floor\<close> gives 24149, where
  the product of the decimal fractions would give 24150. A product that is a binary64
  value is taken exactly.\<close>

lemma multiplier115_rounds: "binary64 (23 / 20) = Some multiplier115"
  by code_simp

lemma floorTimes_115: "floorTimes (Num 21000) (Some multiplier115) = Num 24149"
  by code_simp

lemma floor_exact_115: "\<lfloor>of_int 21000 * (23 / 20 :: rat)\<rfloor> = 24150"
  by code_simp

lemma floorTimes_exact:
  "isBinary64 (of_int g * m) \<Longrightarrow> floorTimes (Num g) (Some m) = Num \<lfloor>of_int g * m\<rfloor>"
  by (simp add: floorTimes_def isBinary64_def)

text \<open>
  C4. In mode \<open>Simulate\<close> the only call made on the method is one \<open>estimateGas\<close>; nothing
  is sent, whatever the peer answers. When the peer estimates \<open>g\<close> and the multiplier is
  \<open>m\<close>, the value returned is the object with \<open>gasEstimate = g\<close> and
  \<open>gas = floor (g * m)\<close>, where \<open>g * m\<close> is the product of the two numbers as the code
  computes it, in binary64 arithmetic. In every other mode, when the options hold no gas
  limit (none, or 0), the same estimate is made first and the call is then sent with
  \<open>gas\<close> set to \<open>floor (g * m)\<close>.
\<close>

theorem simulate_estimates_once:
  "(confirmationType sendOptions = Some Simulate \<longrightarrow>
      fst (priv_send peer method sendOptions evs)
        = [EstimateGasCall (TxOptions.truncate sendOptions)]
      \<and> (peer_estimateGas peer method (TxOptions.truncate sendOptions) = Inr (Num g)
           \<and> gasMultiplier sendOptions = Some m
           \<and> isBinary64 (of_int g) \<and> isBinary64 m
           \<and> binary64 (of_int g * m) = Some product \<longrightarrow>
         fst (snd (priv_send peer method sendOptions evs))
           = Some (Inr (emptyResult\<lparr>gasEstimate := Some (Num g),
                                      r_gas := Some (Num \<lfloor>product\<rfloor>)\<rparr>))))
   \<and> (confirmationType sendOptions = Some ct \<and> ct \<noteq> Simulate
        \<and> \<not> truthy_number (gas sendOptions)
        \<and> peer_estimateGas peer method (TxOptions.truncate sendOptions) = Inr (Num g)
        \<and> gasMultiplier sendOptions = Some m
        \<and> isBinary64 (of_int g) \<and> isBinary64 m
        \<and> binary64 (of_int g * m) = Some product \<longrightarrow>
      fst (priv_send peer method sendOptions evs)
        = [EstimateGasCall (TxOptions.truncate sendOptions),
           SendCall ((TxOptions.truncate sendOptions)\<lparr>gas := Some (Num \<lfloor>product\<rfloor>)\<rparr>)])"
  by (auto simp: priv_send_cases estimateGas_def floorTimes_def split: sum.splits)

theorem simulate_estimates_once_witness:
  "confirmationType (initialDefaultOptions\<lparr>confirmationType := Some Simulate,
        gasMultiplier := Some multiplier115\<rparr>) = Some Simulate
   \<and> isBinary64 (of_int 21000) \<and> isBinary64 multiplier115
   \<and> binary64 (of_int 21000 * multiplier115)
       = Some (6638301452697599 / 274877906944)
   \<and> \<lfloor>6638301452697599 / 274877906944 :: rat\<rfloor> = 24149
   \<and> fst (priv_send (examplePeer\<lparr>peer_estimateGas := (\<lambda>m t. Inr (Num 21000))\<rparr>) exampleMethod
            (initialDefaultOptions\<lparr>confirmationType := Some Simulate,
               gasMultiplier := Some multiplier115\<rparr>) [])
       = [EstimateGasCall
            (TxOptions.truncate (initialDefaultOptions\<lparr>confirmationType := Some Simulate,
               gasMultiplier := Some multiplier115\<rparr>))]
   \<and> fst (snd (priv_send (examplePeer\<lparr>peer_estimateGas := (\<lambda>m t. Inr (Num 21000))\<rparr>)
                 exampleMethod
                 (initialDefaultOptions\<lparr>confirmationType := Some Simulate,
                    gasMultiplier := Some multiplier115\<rparr>) []))
       = Some (Inr (emptyResult\<lparr>gasEstimate := Some (Num 21000), r_gas := Some (Num 24149)\<rparr>))
   \<and> confirmationType initialDefaultOptions = Some Confirmed
   \<and> \<not> truthy_number (gas initialDefaultOptions)
   \<and> isBinary64 (of_int 21001) \<and> isBinary64 (3 / 2)
   \<and> binary64 (of_int 21001 * (3 / 2)) = Some (63003 / 2)
   \<and> fst (priv_send examplePeer exampleMethod initialDefaultOptions
            [Signal (OnReceipt receipt21000)])
       = [EstimateGasCall (TxOptions.truncate initialDefaultOptions),
          SendCall ((TxOptions.truncate initialDefaultOptions)\<lparr>gas := Some (Num 31501)\<rparr>)]"
proof -
  define so where "so = initialDefaultOptions\<lparr>confirmationType := Some Simulate,
        gasMultiplier := Some multiplier115\<rparr>"
  define peer where "peer = examplePeer\<lparr>peer_estimateGas := (\<lambda>m t. Inr (Num 21000))\<rparr>"
  have ct: "confirmationType so = Some Simulate" and gm: "gasMultiplier so = Some multiplier115"
    by (simp_all add: so_def)
  have pe: "peer_estimateGas peer exampleMethod t = Inr (Num 21000)" for t
    by (simp add: peer_def)
  have pe1: "peer_estimateGas examplePeer exampleMethod t = Inr (Num 21001)" for t
    by (simp add: examplePeer_def)
  have gm1: "gasMultiplier initialDefaultOptions = Some (3 / 2)"
    by (simp add: initialDefaultOptions_def)
  have cc: "confirmationType initialDefaultOptions = Some Confirmed"
    and ng: "\<not> truthy_number (gas initialDefaultOptions)"
    by (simp_all add: initialDefaultOptions_def truthy_number_def)
  have b: "isBinary64 (of_int 21000)" "isBinary64 multiplier115"
    "isBinary64 (of_int 21001)" "isBinary64 (3 / 2)"
    by code_simp+
  have p: "binary64 (of_int 21000 * multiplier115) = Some (6638301452697599 / 274877906944)"
    by code_simp
  have p1: "binary64 (of_int 21001 * (3 / 2)) = Some (63003 / 2)"
    by code_simp
  have fl: "\<lfloor>6638301452697599 / 274877906944 :: rat\<rfloor> = 24149"
    "\<lfloor>63003 / 2 :: rat\<rfloor> = 31501"
    by code_simp+
  have r: "fst (priv_send peer exampleMethod so []) = [EstimateGasCall (TxOptions.truncate so)]
           \<and> fst (snd (priv_send peer exampleMethod so []))
             = Some (Inr (emptyResult\<lparr>gasEstimate := Some (Num 21000),
                                        r_gas := Some (Num 24149)\<rparr>))"
    using simulate_estimates_once[of so peer exampleMethod "[]" 21000 multiplier115
        "6638301452697599 / 274877906944" Simulate] ct gm pe b p fl
    by simp
  have r1: "fst (priv_send examplePeer exampleMethod initialDefaultOptions
                   [Signal (OnReceipt receipt21000)])
            = [EstimateGasCall (TxOptions.truncate initialDefaultOptions),
               SendCall ((TxOptions.truncate initialDefaultOptions)\<lparr>gas := Some (Num 31501)\<rparr>)]"
    using simulate_estimates_once[of initialDefaultOptions examplePeer exampleMethod
        "[Signal (OnReceipt receipt21000)]" 21001 "3 / 2" "63003 / 2" Confirmed]
      cc ng pe1 gm1 b p1 fl
    by simp
  show ?thesis
    unfolding so_def[symmetric] peer_def[symmetric]
    using ct b p fl r cc ng p1 r1 by simp
qed

subsection \<open>Gas accounting\<close>

text \<open>In mode \<open>Confirmed\<close>, a send through a contract that is not a test contract adds the
  \<open>gasUsed\<close> of the receipt to the total; the value returned does not depend on the
  total; \<open>resetGasUsed\<close> sets the total to 0.\<close>

lemma send_confirmed_accrues:
  assumes "confirmationType (mergeOptions (defaultOptions this) specificOptions) = Some Confirmed"
    and "fst (send debugGasUsage peer this method specificOptions evs) = Some (Inr result)"
    and "find (\<lambda>info. contract info = method_parent method) (contractsList this) = Some info"
    and "\<not> isTest info"
  shows "getCumulativeGasUsed (snd (send debugGasUsage peer this method specificOptions evs))
         = plus_number (getCumulativeGasUsed this) (gasUsed result)"
proof -
  obtain calls outcome st
    where p: "priv_send peer method (mergeOptions (defaultOptions this) specificOptions) evs
              = (calls, outcome, st)"
    by (cases "priv_send peer method (mergeOptions (defaultOptions this) specificOptions) evs") auto
  have "outcome = Some (Inr result)"
    using assms(2) p by (simp add: send_result)
  then show ?thesis
    using assms(1,3,4) p by (simp add: send_def Let_def getCumulativeGasUsed_def)
qed

lemma send_result_ignores_total:
  "fst (send debugGasUsage peer (this\<lparr>priv_cumulativeGasUsed := n\<rparr>) method specificOptions evs)
   = fst (send debugGasUsage peer this method specificOptions evs)"
  by (simp add: send_result)

lemma resetGasUsed_total: "getCumulativeGasUsed (resetGasUsed this) = Num 0"
  by (simp add: getCumulativeGasUsed_def resetGasUsed_def)

lemma two_confirmed_sends_total:
  "getCumulativeGasUsed
     (snd (send False examplePeer
            (snd (send False examplePeer (resetGasUsed (exampleContracts deployedList))
                    exampleMethod noOptions [Signal (OnReceipt receipt21000)]))
            exampleMethod noOptions [Signal (OnReceipt receipt45000)]))
   = Num 66000"
  by code_simp

text \<open>
  C9 fails in mode \<open>Both\<close>. There \<open>send\<close> goes on as soon as the hash is known, with the
  object holding \<open>transactionHash\<close> and \<open>confirmation\<close>; that object has no \<open>gasUsed\<close>,
  and adding \<open>undefined\<close> turns the total into \<open>NaN\<close>, which the receipt that arrives
  later does not repair.
\<close>

theorem both_mode_total_is_NaN:
  "fst (send False examplePeer (resetGasUsed (exampleContracts deployedList)) exampleMethod
          (noOptions\<lparr>confirmationType := Some Both\<rparr>)
          [Signal (OnTransactionHash ''0x1a''), Resume, Signal (OnReceipt receipt21000)])
     = Some (Inr (emptyResult\<lparr>transactionHash := Some ''0x1a'',
                                confirmation := Some ConfirmationPromise\<rparr>))
   \<and> getCumulativeGasUsed
        (snd (send False examplePeer (resetGasUsed (exampleContracts deployedList)) exampleMethod
                (noOptions\<lparr>confirmationType := Some Both\<rparr>)
                [Signal (OnTransactionHash ''0x1a''), Resume, Signal (OnReceipt receipt21000)]))
     = NaN"
  by code_simp

end
